(* ===== verification/Prelude.thy ===== *)
theory Prelude
  imports Main "HOL-Library.List_Lexorder" "HOL-Library.Char_ord" "HOL-Library.Word"
    "HOL-Library.Sublist"
begin

text \<open>
  Vocabulary shared by every component: the Rust standard library's \<open>Result\<close> and \<open>Option\<close>
  combinators, \<open>HashSet::insert\<close>, checked machine arithmetic, \<open>windows(2)\<close>, and two
  interfaces that several components have in common.

  The locale \<open>seen_set\<close> is the contract of "insert and tell me whether it was new", which the
  program uses for every duplicate check; the locale \<open>diagnostic_pass\<close> is the contract of a
  function that only ever appends to the list of diagnostics it is handed.
\<close>

section \<open>Types of the Rust program\<close>

text \<open>
  A Rust \<open>String\<close> is a UTF-8 byte sequence and a \<open>Vec<u8>\<close> a byte sequence; both are lists of
  Isabelle characters, which are bytes.  \<open>len()\<close> counts bytes on both, and the order on
  strings is the bytewise lexicographic one.  \<open>Result<T, E>\<close> is the sum type with
  \<open>Inl\<close> for \<open>Err\<close> and \<open>Inr\<close> for \<open>Ok\<close>.
\<close>

type_synonym bytes = string
type_synonym u32 = "32 word"
type_synonym u64 = "64 word"
type_synonym usize = "64 word"

named_theorems result_iff
  \<open>when a composed fallible computation returns a given value\<close>

section \<open>Result and Option combinators\<close>

definition and_then :: "'e + 'a \<Rightarrow> ('a \<Rightarrow> 'e + 'b) \<Rightarrow> 'e + 'b" where
  "and_then m f = (case m of Inl e \<Rightarrow> Inl e | Inr x \<Rightarrow> f x)"

definition map_err :: "('e \<Rightarrow> 'f) \<Rightarrow> 'e + 'a \<Rightarrow> 'f + 'a" where
  "map_err f m = (case m of Inl e \<Rightarrow> Inl (f e) | Inr x \<Rightarrow> Inr x)"

definition map_ok :: "('a \<Rightarrow> 'b) \<Rightarrow> 'e + 'a \<Rightarrow> 'e + 'b" where
  "map_ok f m = (case m of Inl e \<Rightarrow> Inl e | Inr x \<Rightarrow> Inr (f x))"

definition ok_or :: "'e \<Rightarrow> 'a option \<Rightarrow> 'e + 'a" where
  "ok_or e m = (case m of None \<Rightarrow> Inl e | Some x \<Rightarrow> Inr x)"

definition transpose :: "('e + 'a) option \<Rightarrow> 'e + 'a option" where
  "transpose m = (case m of None \<Rightarrow> Inr None | Some r \<Rightarrow> map_ok Some r)"

text \<open>The early return \<open>if c { return Err(e) }\<close> followed by the rest of the function.\<close>

definition ensure :: "bool \<Rightarrow> 'e \<Rightarrow> 'e + unit" where
  "ensure c e = (if c then Inr () else Inl e)"

text \<open>\<open>iter.map(f).collect::<Result<Vec<_>, _>>()\<close>: stops at the first error.\<close>

fun try_map :: "('a \<Rightarrow> 'e + 'b) \<Rightarrow> 'a list \<Rightarrow> 'e + 'b list" where
  "try_map f [] = Inr []"
| "try_map f (x # xs) = and_then (f x) (\<lambda>y. and_then (try_map f xs) (\<lambda>ys. Inr (y # ys)))"

text \<open>A \<open>for\<close> loop whose body may return early with \<open>?\<close>.\<close>

fun try_fold :: "('s \<Rightarrow> 'a \<Rightarrow> 'e + 's) \<Rightarrow> 's \<Rightarrow> 'a list \<Rightarrow> 'e + 's" where
  "try_fold f s [] = Inr s"
| "try_fold f s (x # xs) = and_then (f s x) (\<lambda>s'. try_fold f s' xs)"

lemma and_then_simps [simp]:
  "and_then (Inl e) f = Inl e" "and_then (Inr x) f = f x"
  by (simp_all add: and_then_def)

lemma map_err_simps [simp]: "map_err g (Inl e) = Inl (g e)" "map_err g (Inr x) = Inr x"
  by (simp_all add: map_err_def)

lemma map_ok_simps [simp]: "map_ok g (Inl e) = Inl e" "map_ok g (Inr x) = Inr (g x)"
  by (simp_all add: map_ok_def)

lemma ok_or_simps [simp]: "ok_or e None = Inl e" "ok_or e (Some x) = Inr x"
  by (simp_all add: ok_or_def)

lemma transpose_simps [simp]:
  "transpose None = Inr None" "transpose (Some (Inl e)) = Inl e"
  "transpose (Some (Inr x)) = Inr (Some x)"
  by (simp_all add: transpose_def)

lemma ensure_simps [simp]: "ensure True e = Inr ()" "ensure False e = Inl e"
  by (simp_all add: ensure_def)

lemma and_then_Inr [result_iff]: "and_then m f = Inr y \<longleftrightarrow> (\<exists>x. m = Inr x \<and> f x = Inr y)"
  by (cases m) auto

lemma and_then_Inl [result_iff]:
  "and_then m f = Inl e \<longleftrightarrow> m = Inl e \<or> (\<exists>x. m = Inr x \<and> f x = Inl e)"
  by (cases m) auto

lemma map_err_Inr [result_iff]: "map_err g m = Inr x \<longleftrightarrow> m = Inr x"
  by (cases m) auto

lemma map_ok_Inr [result_iff]: "map_ok g m = Inr y \<longleftrightarrow> (\<exists>x. m = Inr x \<and> y = g x)"
  by (cases m) auto

lemma ok_or_Inr [result_iff]: "ok_or e m = Inr x \<longleftrightarrow> m = Some x"
  by (cases m) auto

lemma ensure_Inr [result_iff]: "ensure c e = Inr u \<longleftrightarrow> c"
  by (simp add: ensure_def)

lemma ensure_Inl [result_iff]: "ensure c e = Inl e' \<longleftrightarrow> \<not> c \<and> e = e'"
  by (simp add: ensure_def)

lemma transpose_Inr [result_iff]:
  "transpose m = Inr y \<longleftrightarrow> (case m of None \<Rightarrow> y = None | Some r \<Rightarrow> \<exists>x. r = Inr x \<and> y = Some x)"
  by (cases m) (auto simp: transpose_def result_iff)

lemma try_map_Inr_iff:
  "try_map f xs = Inr ys \<longleftrightarrow> list_all2 (\<lambda>x y. f x = Inr y) xs ys"
proof (induction xs arbitrary: ys)
  case Nil
  then show ?case by (cases ys) auto
next
  case (Cons x xs)
  then show ?case by (cases ys) (auto simp: result_iff)
qed

lemma try_map_append:
  "try_map f (xs @ ys) = and_then (try_map f xs) (\<lambda>us. map_ok ((@) us) (try_map f ys))"
proof (induction xs)
  case Nil
  then show ?case by (cases "try_map f ys") auto
next
  case (Cons x xs)
  then show ?case by (cases "f x"; cases "try_map f xs"; cases "try_map f ys") auto
qed

lemma try_fold_append:
  "try_fold f s (xs @ ys) = and_then (try_fold f s xs) (\<lambda>s'. try_fold f s' ys)"
proof (induction xs arbitrary: s)
  case Nil
  then show ?case by simp
next
  case (Cons x xs)
  then show ?case by (cases "f s x") auto
qed

lemma try_fold_invariant:
  assumes "try_fold f s xs = Inr t" and "P s"
    and "\<And>s x s'. x \<in> set xs \<Longrightarrow> P s \<Longrightarrow> f s x = Inr s' \<Longrightarrow> P s'"
  shows "P t"
  using assms
proof (induction xs arbitrary: s)
  case Nil
  then show ?case by simp
next
  case (Cons x xs)
  from Cons.prems(1) obtain s' where s': "f s x = Inr s'" and rest: "try_fold f s' xs = Inr t"
    by (auto simp: result_iff)
  from Cons.prems(2,3) s' have "P s'" by (meson list.set_intros(1))
  with rest Cons.prems(3) show ?case by (auto intro: Cons.IH)
qed

text \<open>The same with the processed prefix in the invariant.\<close>

lemma try_fold_history:
  assumes "try_fold f s xs = Inr t" and "P [] s"
    and "\<And>pre x s s'. P pre s \<Longrightarrow> f s x = Inr s' \<Longrightarrow> x \<in> set xs \<Longrightarrow> P (pre @ [x]) s'"
  shows "P xs t"
proof -
  have "\<forall>ys. set ys \<subseteq> set xs \<longrightarrow> try_fold f s ys = Inr t \<longrightarrow> P pre s \<longrightarrow> P (pre @ ys) t" for pre s
  proof (intro allI impI)
    fix ys assume "set ys \<subseteq> set xs" "try_fold f s ys = Inr t" "P pre s"
    then show "P (pre @ ys) t"
    proof (induction ys arbitrary: pre s)
      case Nil
      then show ?case by simp
    next
      case (Cons y ys)
      from Cons.prems(2) obtain s' where s': "f s y = Inr s'" "try_fold f s' ys = Inr t"
        by (auto simp: result_iff)
      with Cons.prems assms(3) have "P (pre @ [y]) s'" by (meson list.set_intros(1) subsetD)
      from Cons.IH [OF _ s'(2) this] Cons.prems(1) show ?case by simp
    qed
  qed
  from this [where pre = "[]" and s = s] assms(1,2) show ?thesis by simp
qed

section \<open>The class of errors of a result\<close>

text \<open>\<open>fails_with P r\<close>: if \<open>r\<close> is an error, it satisfies \<open>P\<close>; its rules follow the combinators.\<close>

definition fails_with :: "('e \<Rightarrow> bool) \<Rightarrow> 'e + 'a \<Rightarrow> bool" where
  "fails_with P r \<longleftrightarrow> (\<forall>e. r = Inl e \<longrightarrow> P e)"

lemma fails_with_simps [simp]: "fails_with P (Inr x)" "fails_with P (Inl e) = P e"
  by (simp_all add: fails_with_def)

lemma fails_with_map_ok [simp]: "fails_with P (map_ok f m) = fails_with P m"
  by (cases m) simp_all

lemma fails_with_ensure [simp]: "fails_with P (ensure c e) \<longleftrightarrow> c \<or> P e"
  by (cases c) simp_all

lemma fails_with_ok_or [simp]: "fails_with P (ok_or e m) \<longleftrightarrow> m \<noteq> None \<or> P e"
  by (cases m) simp_all

lemma fails_with_and_then:
  "fails_with P m \<Longrightarrow> (\<And>x. m = Inr x \<Longrightarrow> fails_with P (f x)) \<Longrightarrow> fails_with P (and_then m f)"
  by (cases m) simp_all

lemma fails_with_map_err: "(\<And>e. P (g e)) \<Longrightarrow> fails_with P (map_err g m)"
  by (cases m) simp_all

lemma fails_with_transpose: "(\<And>x. fails_with P (f x)) \<Longrightarrow> fails_with P (transpose (map_option f m))"
proof (cases m)
  case (Some x)
  assume "\<And>x. fails_with P (f x)"
  with Some show ?thesis by (cases "f x") (auto, metis fails_with_simps(2))
qed simp

lemma fails_with_try_fold: "(\<And>s x. fails_with P (f s x)) \<Longrightarrow> fails_with P (try_fold f s xs)"
proof (induction xs arbitrary: s)
  case (Cons x xs)
  then show ?case by (auto intro!: fails_with_and_then)
qed simp

lemma fails_with_try_map: "(\<And>x. fails_with P (f x)) \<Longrightarrow> fails_with P (try_map f xs)"
  by (induction xs) (auto intro!: fails_with_and_then)

lemmas fails_with_rules = fails_with_and_then fails_with_map_err fails_with_transpose fails_with_try_fold
  fails_with_try_map

section \<open>Checked machine arithmetic\<close>

text \<open>\<open>checked_add\<close> on an unsigned machine integer: \<open>None\<close> when the sum does not fit.\<close>

definition checked_add :: "'a::len word \<Rightarrow> 'a word \<Rightarrow> 'a word option" where
  "checked_add a b = (if unat a + unat b < 2 ^ LENGTH('a) then Some (a + b) else None)"

lemma checked_add_Some_iff:
  "checked_add a b = Some c \<longleftrightarrow>
     unat (a :: 'a::len word) + unat b < 2 ^ LENGTH('a) \<and> unat c = unat a + unat b"
proof -
  have "unat (a + b) = unat a + unat b" if "unat a + unat b < 2 ^ LENGTH('a)"
    using that by (simp add: unat_add_lem [THEN iffD1])
  then show ?thesis
    by (auto simp: checked_add_def word_unat_eq_iff)
qed

text \<open>
  Sums of lengths: \<open>try_fold(0usize, |total, x| total.checked_add(...)).unwrap_or(usize::MAX)\<close>.
  Lengths are natural numbers and the 64-bit bound is written out.
\<close>

definition usize_max :: nat where
  "usize_max = 2 ^ 64 - 1"

definition usize_checked_add :: "nat \<Rightarrow> nat \<Rightarrow> nat option" where
  "usize_checked_add a b = (if a + b \<le> usize_max then Some (a + b) else None)"

fun checked_total :: "nat \<Rightarrow> nat list \<Rightarrow> nat option" where
  "checked_total acc [] = Some acc"
| "checked_total acc (n # ns) =
     (case usize_checked_add acc n of None \<Rightarrow> None | Some t \<Rightarrow> checked_total t ns)"

definition saturating_total :: "nat list \<Rightarrow> nat" where
  "saturating_total ns = (case checked_total 0 ns of None \<Rightarrow> usize_max | Some t \<Rightarrow> t)"

lemma checked_total_eq:
  "acc \<le> usize_max \<Longrightarrow>
     checked_total acc ns =
       (if acc + sum_list ns \<le> usize_max then Some (acc + sum_list ns) else None)"
proof (induction ns arbitrary: acc)
  case Nil
  then show ?case by simp
next
  case (Cons n ns)
  show ?case
  proof (cases "acc + n \<le> usize_max")
    case True
    then show ?thesis using Cons.IH [OF True] by (simp add: usize_checked_add_def add.assoc)
  next
    case False
    then show ?thesis by (simp add: usize_checked_add_def)
  qed
qed

lemma saturating_total_min: "saturating_total ns = min (sum_list ns) usize_max"
  by (simp add: saturating_total_def checked_total_eq)

text \<open>Against a limit below the largest \<open>usize\<close> the saturated sum decides like the exact one.\<close>

lemma saturating_total_exceeds:
  "limit < usize_max \<Longrightarrow> limit < saturating_total ns \<longleftrightarrow> limit < sum_list ns"
  by (auto simp: saturating_total_min)

section \<open>Adjacent pairs: \<open>windows(2)\<close>\<close>

definition windows2 :: "'a list \<Rightarrow> ('a \<times> 'a) list" where
  "windows2 xs = zip xs (drop 1 xs)"

lemma windows2_simps [simp]:
  "windows2 [] = []" "windows2 [x] = []" "windows2 (x # y # zs) = (x, y) # windows2 (y # zs)"
  by (simp_all add: windows2_def)

lemma windows2_successively:
  "(\<forall>(a, b) \<in> set (windows2 xs). P a b) \<longleftrightarrow> successively P xs"
  by (induction xs rule: induct_list012) auto

lemma windows2_mem: "(a, b) \<in> set (windows2 xs) \<Longrightarrow> a \<in> set xs \<and> b \<in> set xs"
  by (induction xs rule: induct_list012) auto

lemma windows2_ordered:
  "(\<forall>(a, b) \<in> set (windows2 xs). a < b) \<longleftrightarrow> sorted_wrt (<) (xs :: 'a::linorder list)"
  by (simp add: windows2_successively successively_conv_sorted_wrt transp_on_less)

lemma list_all_windows2_ordered:
  "list_all (\<lambda>(a, b). a < b) (windows2 xs) \<longleftrightarrow> sorted_wrt (<) (xs :: 'a::linorder list)"
  by (simp add: windows2_ordered list_all_iff)

section \<open>Insert and report whether the value was new\<close>

text \<open>
  \<open>HashSet::insert\<close> and \<open>BTreeSet::insert\<close> return \<open>true\<close> when the value was not yet in the set.
  The program finds duplicates with it in two shapes of loop: report every repeated element
  (\<open>scan_repeats\<close>), or stop with an error at the first (\<open>any_repeat\<close>, the \<open>any(|x|
  !set.insert(x))\<close> idiom, which returns the set as it is when the scan stops).
\<close>

fun scan_repeats :: "('a \<Rightarrow> 's \<Rightarrow> bool \<times> 's) \<Rightarrow> ('x \<Rightarrow> 'a) \<Rightarrow> 's \<Rightarrow> 'x list \<Rightarrow> 'x list" where
  "scan_repeats ins key s [] = []"
| "scan_repeats ins key s (x # xs) =
     (case ins (key x) s of
        (new, s') \<Rightarrow> (if new then [] else [x]) @ scan_repeats ins key s' xs)"

fun any_repeat :: "('a \<Rightarrow> 's \<Rightarrow> bool \<times> 's) \<Rightarrow> 's \<Rightarrow> 'a list \<Rightarrow> bool \<times> 's" where
  "any_repeat ins s [] = (False, s)"
| "any_repeat ins s (x # xs) =
     (case ins x s of (new, s') \<Rightarrow> if new then any_repeat ins s' xs else (True, s'))"

locale seen_set =
  fixes empty_set :: "'s"
    and ins :: "'a \<Rightarrow> 's \<Rightarrow> bool \<times> 's"
    and elems :: "'s \<Rightarrow> 'a set"
    and wf :: "'s \<Rightarrow> bool"
  assumes wf_empty: "wf empty_set"
    and elems_empty: "elems empty_set = {}"
    and ins_new: "wf s \<Longrightarrow> fst (ins x s) \<longleftrightarrow> x \<notin> elems s"
    and elems_ins: "wf s \<Longrightarrow> elems (snd (ins x s)) = insert x (elems s)"
    and wf_ins: "wf s \<Longrightarrow> wf (snd (ins x s))"
begin

lemma scan_repeats_Nil_iff:
  "wf s \<Longrightarrow>
     scan_repeats ins key s xs = [] \<longleftrightarrow>
       distinct (map key xs) \<and> elems s \<inter> key ` set xs = {}"
proof (induction xs arbitrary: s)
  case Nil
  then show ?case by simp
next
  case (Cons x xs)
  obtain new s' where ins: "ins (key x) s = (new, s')" by fastforce
  with ins_new [OF Cons.prems] elems_ins [OF Cons.prems] wf_ins [OF Cons.prems]
  have "new \<longleftrightarrow> key x \<notin> elems s" and "elems s' = insert (key x) (elems s)" and "wf s'"
    by (metis fst_conv, metis snd_conv, metis snd_conv)
  with Cons.IH [of s'] ins show ?case by auto
qed

lemma scan_repeats_empty_iff:
  "scan_repeats ins key empty_set xs = [] \<longleftrightarrow> distinct (map key xs)"
  by (simp add: scan_repeats_Nil_iff [OF wf_empty] elems_empty)

lemma any_repeat_spec:
  "wf s \<Longrightarrow>
     (fst (any_repeat ins s xs) \<longleftrightarrow> \<not> distinct xs \<or> elems s \<inter> set xs \<noteq> {}) \<and>
     (\<not> fst (any_repeat ins s xs) \<longrightarrow>
        elems (snd (any_repeat ins s xs)) = elems s \<union> set xs) \<and>
     wf (snd (any_repeat ins s xs))"
proof (induction xs arbitrary: s)
  case Nil
  then show ?case by simp
next
  case (Cons x xs)
  obtain new s' where ins: "ins x s = (new, s')" by fastforce
  with ins_new [OF Cons.prems] elems_ins [OF Cons.prems] wf_ins [OF Cons.prems]
  have "new \<longleftrightarrow> x \<notin> elems s" and "elems s' = insert x (elems s)" and "wf s'"
    by (metis fst_conv, metis snd_conv, metis snd_conv)
  with Cons.IH [of s'] ins show ?case by auto
qed

lemma any_repeat_empty_iff:
  "fst (any_repeat ins empty_set xs) \<longleftrightarrow> \<not> distinct xs"
  using any_repeat_spec [OF wf_empty] by (simp add: elems_empty)

end

text \<open>\<open>HashSet\<close>: a finite set; the iteration order is never used by the program.\<close>

definition hs_insert :: "'a \<Rightarrow> 'a set \<Rightarrow> bool \<times> 'a set" where
  "hs_insert x s = (x \<notin> s, insert x s)"

interpretation hash_set: seen_set "{}" hs_insert "\<lambda>s. s" "\<lambda>_. True"
  by unfold_locales (auto simp: hs_insert_def)

section \<open>Functions that append to the diagnostics\<close>

text \<open>
  A validation function takes \<open>&mut Vec<Diagnostic>\<close> and pushes to it.  In the model it takes the
  list and returns the longer list.  That it never reads or drops what is already there is the
  law below; every loop over such a function then factors into the diagnostics of its elements.
\<close>

locale diagnostic_pass =
  fixes run :: "'a \<Rightarrow> 'd list \<Rightarrow> 'd list"
  assumes run_append: "run x ds = ds @ run x []"
begin

lemma fold_run: "fold run xs ds = ds @ concat (map (\<lambda>x. run x []) xs)"
proof (induction xs arbitrary: ds)
  case Nil
  then show ?case by simp
next
  case (Cons x xs)
  then show ?case using run_append [of x ds] by simp
qed

lemma fold_run_Nil_iff: "fold run xs ds = [] \<longleftrightarrow> ds = [] \<and> (\<forall>x \<in> set xs. run x [] = [])"
  by (auto simp: fold_run)

lemma fold_run_filter:
  "filter P (fold run xs ds) = filter P ds @ concat (map (\<lambda>x. filter P (run x [])) xs)"
  by (simp add: fold_run filter_concat comp_def)

lemma run_prefix: "prefix ds (run x ds)"
  by (metis prefixI run_append)

lemma fold_prefix: "prefix ds (fold run xs ds)"
  by (simp add: fold_run)

end

text \<open>Partners in lists that are related pointwise.\<close>

lemma list_all2_left: "list_all2 P xs ys \<Longrightarrow> x \<in> set xs \<Longrightarrow> \<exists>y \<in> set ys. P x y"
  by (induction rule: list_all2_induct) auto

lemma list_all2_right: "list_all2 P xs ys \<Longrightarrow> y \<in> set ys \<Longrightarrow> \<exists>x \<in> set xs. P x y"
  by (induction rule: list_all2_induct) auto

end
