(* ===== verification/Rust_Text.thy ===== *)
theory Rust_Text
  imports Prelude
begin

text \<open>
  The string operations of the Rust standard library the program uses, and its own text
  helpers: \<open>normalize_text\<close> and \<open>single_line\<close> of \<open>src/validation.rs\<close>,
  \<open>trim_line_ending\<close> of \<open>cli/src/main.rs\<close>, and the lower-case hexadecimal rendering of a
  digest (\<open>src/archive.rs\<close>, \<open>src/signing.rs\<close>).  The lemmas say what the normal form of a
  policy text is and that it does not depend on the platform's line ends.
\<close>

section \<open>Standard library\<close>

abbreviation LF :: char where "LF \<equiv> CHR 0x0A"
abbreviation CR :: char where "CR \<equiv> CHR 0x0D"

definition starts_with :: "string \<Rightarrow> string \<Rightarrow> bool" where
  "starts_with s p \<longleftrightarrow> take (length p) s = p"

definition ends_with_byte :: "string \<Rightarrow> char \<Rightarrow> bool" where
  "ends_with_byte s c \<longleftrightarrow> s \<noteq> [] \<and> last s = c"

definition strip_prefix :: "string \<Rightarrow> string \<Rightarrow> string option" where
  "strip_prefix s p = (if starts_with s p then Some (drop (length p) s) else None)"

lemma starts_with_iff_prefix: "starts_with s p \<longleftrightarrow> prefix p s"
  by (metis append_eq_conv_conj append_take_drop_id prefix_def starts_with_def)

lemma starts_with_append [simp]: "starts_with (p @ s) p"
  by (simp add: starts_with_def)

lemma strip_prefix_Some_iff: "strip_prefix s p = Some t \<longleftrightarrow> s = p @ t"
  by (auto simp: strip_prefix_def starts_with_def) (metis append_take_drop_id)

text \<open>
  \<open>str::trim_start\<close>: strips the leading \<open>White_Space\<close> characters.  On the UTF-8 bytes they are
  the one-byte U+0009..U+000D and U+0020, the two-byte U+0085 and U+00A0, and the three-byte
  U+1680, U+2000..U+200A, U+2028, U+2029, U+202F, U+205F and U+3000.
\<close>

definition white1 :: "char \<Rightarrow> bool" where
  "white1 a \<longleftrightarrow> (let n = (of_char a :: nat) in 9 \<le> n \<and> n \<le> 13 \<or> n = 32)"

definition white2 :: "char \<Rightarrow> char \<Rightarrow> bool" where
  "white2 a b \<longleftrightarrow> a = CHR 0xC2 \<and> (b = CHR 0x85 \<or> b = CHR 0xA0)"

definition white3 :: "char \<Rightarrow> char \<Rightarrow> char \<Rightarrow> bool" where
  "white3 a b c \<longleftrightarrow> (let n = (of_char c :: nat) in
     a = CHR 0xE1 \<and> b = CHR 0x9A \<and> n = 0x80 \<or>
     a = CHR 0xE2 \<and> b = CHR 0x80 \<and>
       (0x80 \<le> n \<and> n \<le> 0x8A \<or> n = 0xA8 \<or> n = 0xA9 \<or> n = 0xAF) \<or>
     a = CHR 0xE2 \<and> b = CHR 0x81 \<and> n = 0x9F \<or>
     a = CHR 0xE3 \<and> b = CHR 0x80 \<and> n = 0x80)"

fun trim_start :: "string \<Rightarrow> string" where
  "trim_start [] = []"
| "trim_start (a # s) =
     (if white1 a then trim_start s
      else case s of
        [] \<Rightarrow> a # s
      | b # t \<Rightarrow>
          if white2 a b then trim_start t
          else (case t of
                  [] \<Rightarrow> a # s
                | c # u \<Rightarrow> if white3 a b c then trim_start u else a # s))"

text \<open>\<open>s.trim().is_empty()\<close>: nothing is left once the leading white space is gone.\<close>

definition is_blank :: "string \<Rightarrow> bool" where
  "is_blank s \<longleftrightarrow> trim_start s = []"

lemma is_blank_Nil [simp]: "is_blank []"
  by (simp add: is_blank_def)

text \<open>\<open>s.rsplit_once("::")\<close>: the parts around the last occurrence of the separator.\<close>

fun rsplit_once_colons :: "string \<Rightarrow> (string \<times> string) option" where
  "rsplit_once_colons [] = None"
| "rsplit_once_colons (c # s) =
     (case rsplit_once_colons s of
        Some (p, q) \<Rightarrow> Some (c # p, q)
      | None \<Rightarrow> if starts_with (c # s) ''::'' then Some ([], drop 1 s) else None)"

lemma rsplit_once_colons_Some: "rsplit_once_colons s = Some (p, q) \<Longrightarrow> s = p @ ''::'' @ q"
proof (induction s arbitrary: p q)
  case Nil
  then show ?case by simp
next
  case (Cons c s)
  then show ?case
    by (cases s) (auto simp: starts_with_def split: option.splits if_splits)
qed

lemma rsplit_once_colons_None: "rsplit_once_colons s = None \<Longrightarrow> s \<noteq> p @ ''::'' @ q"
proof (induction s arbitrary: p)
  case Nil
  then show ?case by simp
next
  case (Cons c s)
  then show ?case
    by (cases p) (auto simp: starts_with_def split: option.splits if_splits)
qed

text \<open>Decimal rendering of an unsigned integer.\<close>

definition digit_char :: "nat \<Rightarrow> char" where
  "digit_char d = char_of (48 + d)"

fun show_nat :: "nat \<Rightarrow> string" where
  "show_nat n = (if n < 10 then [digit_char n] else show_nat (n div 10) @ [digit_char (n mod 10)])"

declare show_nat.simps [simp del]

lemma digit_char_inject: "d < 10 \<Longrightarrow> e < 10 \<Longrightarrow> digit_char d = digit_char e \<Longrightarrow> d = e"
  unfolding digit_char_def by (subst (asm) char_of_eq_iff) (simp add: take_bit_eq_mod)

lemma show_nat_not_Nil [simp]: "show_nat n \<noteq> []" "[] \<noteq> show_nat n"
  by (subst show_nat.simps, simp)+

lemma show_nat_inject: "show_nat m = show_nat n \<Longrightarrow> m = n"
proof (induction m arbitrary: n rule: show_nat.induct)
  case (1 m)
  show ?case
  proof (cases "m < 10"; cases "n < 10")
    assume "m < 10" "n < 10"
    with "1.prems" show ?thesis by (simp add: show_nat.simps digit_char_inject)
  next
    assume "m < 10" "\<not> n < 10"
    with "1.prems" show ?thesis by (simp add: show_nat.simps [of m] show_nat.simps [of n])
  next
    assume "\<not> m < 10" "n < 10"
    with "1.prems" show ?thesis by (simp add: show_nat.simps [of m] show_nat.simps [of n])
  next
    assume m: "\<not> m < 10" and n: "\<not> n < 10"
    with "1.prems" have "show_nat (m div 10) = show_nat (n div 10)"
      and "digit_char (m mod 10) = digit_char (n mod 10)"
      by (simp_all add: show_nat.simps [of m] show_nat.simps [of n])
    with "1.IH" [OF m] have "m div 10 = n div 10" and "m mod 10 = n mod 10"
      by (simp_all add: digit_char_inject)
    then show ?thesis by (metis div_mult_mod_eq)
  qed
qed

text \<open>
  \<open>std::str::from_utf8\<close>: well-formed UTF-8, byte sequences of Table 3-7 of the Unicode standard.
\<close>

definition byte_in :: "char \<Rightarrow> nat \<Rightarrow> nat \<Rightarrow> bool" where
  "byte_in c lo hi \<longleftrightarrow> lo \<le> of_char c \<and> of_char c \<le> hi"

fun utf8_valid :: "bytes \<Rightarrow> bool" where
  "utf8_valid [] = True"
| "utf8_valid (a # s) =
     (if byte_in a 0 0x7F then utf8_valid s
      else case s of
        [] \<Rightarrow> False
      | b # t \<Rightarrow>
          if byte_in a 0xC2 0xDF then byte_in b 0x80 0xBF \<and> utf8_valid t
          else (case t of
            [] \<Rightarrow> False
          | c # u \<Rightarrow>
              if byte_in a 0xE0 0xEF
              then byte_in b (if byte_in a 0xE0 0xE0 then 0xA0 else 0x80)
                     (if byte_in a 0xED 0xED then 0x9F else 0xBF) \<and>
                   byte_in c 0x80 0xBF \<and> utf8_valid u
              else (case u of
                [] \<Rightarrow> False
              | d # v \<Rightarrow>
                  byte_in a 0xF0 0xF4 \<and>
                  byte_in b (if byte_in a 0xF0 0xF0 then 0x90 else 0x80)
                    (if byte_in a 0xF4 0xF4 then 0x8F else 0xBF) \<and>
                  byte_in c 0x80 0xBF \<and> byte_in d 0x80 0xBF \<and> utf8_valid v)))"

section \<open>Policy text\<close>

text \<open>\<open>source.replace("\\r\\n", "\\n")\<close>, \<open>.replace('\\r', "\\n")\<close> and the \<open>while\<close> loop that pops.\<close>

fun replace_crlf :: "string \<Rightarrow> string" where
  "replace_crlf [] = []"
| "replace_crlf [c] = [c]"
| "replace_crlf (c # d # s) =
     (if c = CR \<and> d = LF then LF # replace_crlf s else c # replace_crlf (d # s))"

definition replace_cr :: "string \<Rightarrow> string" where
  "replace_cr s = map (\<lambda>c. if c = CR then LF else c) s"

function pop_newlines :: "string \<Rightarrow> string" where
  "pop_newlines s = (if ends_with_byte s LF then pop_newlines (butlast s) else s)"
  by pat_completeness auto
termination
  by (relation "measure length") (auto simp: ends_with_byte_def)

declare pop_newlines.simps [simp del]

definition normalize_text :: "string \<Rightarrow> string" where
  "normalize_text source = pop_newlines (replace_cr (replace_crlf source)) @ [LF]"

definition single_line :: "string \<Rightarrow> string" where
  "single_line s = map (\<lambda>c. if c = CR \<or> c = LF then CHR '' '' else c) s"

lemma pop_newlines_snoc: "pop_newlines (s @ [c]) = (if c = LF then pop_newlines s else s @ [c])"
  by (simp add: pop_newlines.simps [of "s @ [c]"] ends_with_byte_def)

lemma pop_newlines_Nil [simp]: "pop_newlines [] = []"
  by (simp add: pop_newlines.simps ends_with_byte_def)

lemma pop_newlines_prefix: "prefix (pop_newlines s) s"
  by (induction s rule: rev_induct) (auto simp: pop_newlines_snoc)

lemma pop_newlines_last: "\<not> ends_with_byte (pop_newlines s) LF"
  by (induction s rule: rev_induct) (auto simp: pop_newlines_snoc ends_with_byte_def)

lemma pop_newlines_id: "\<not> ends_with_byte s LF \<Longrightarrow> pop_newlines s = s"
  by (simp add: pop_newlines.simps)

lemma pop_newlines_append_newline: "pop_newlines (s @ [LF]) = pop_newlines s"
  by (simp add: pop_newlines_snoc)

lemma CR_replace_cr: "CR \<notin> set (replace_cr s)"
  by (auto simp: replace_cr_def)

lemma replace_cr_id: "CR \<notin> set s \<Longrightarrow> replace_cr s = s"
  by (auto simp: replace_cr_def intro: map_idI)

lemma replace_crlf_id: "CR \<notin> set s \<Longrightarrow> replace_crlf s = s"
  by (induction s rule: replace_crlf.induct) auto

lemma CR_normalize_text: "CR \<notin> set (normalize_text s)"
  using set_mono_prefix [OF pop_newlines_prefix [of "replace_cr (replace_crlf s)"]]
    CR_replace_cr [of "replace_crlf s"]
  by (auto simp: normalize_text_def)

text \<open>The same lines written with CR LF line ends.\<close>

definition crlf_lines :: "string \<Rightarrow> string" where
  "crlf_lines s = concat (map (\<lambda>c. if c = LF then [CR, LF] else [c]) s)"

lemma crlf_lines_simps [simp]:
  "crlf_lines [] = []"
  "crlf_lines (c # s) = (if c = LF then [CR, LF] else [c]) @ crlf_lines s"
  by (simp_all add: crlf_lines_def)

lemma replace_crlf_Cons: "c \<noteq> CR \<Longrightarrow> replace_crlf (c # s) = c # replace_crlf s"
  by (cases s) auto

lemma replace_crlf_crlf_lines: "CR \<notin> set s \<Longrightarrow> replace_crlf (crlf_lines s) = s"
  by (induction s) (auto simp: replace_crlf_Cons)

lemma normalize_text_idem: "normalize_text (normalize_text s) = normalize_text s"
proof -
  define x where "x = pop_newlines (replace_cr (replace_crlf s))"
  have "CR \<notin> set (normalize_text s)" by (rule CR_normalize_text)
  then have "replace_cr (replace_crlf (normalize_text s)) = normalize_text s"
    by (simp add: replace_crlf_id replace_cr_id)
  moreover have "normalize_text s = x @ [LF]" by (simp add: normalize_text_def x_def)
  moreover have "pop_newlines x = x" unfolding x_def by (intro pop_newlines_id pop_newlines_last)
  ultimately show ?thesis by (simp add: normalize_text_def [of "x @ [LF]"] pop_newlines_append_newline)
qed

lemma normalize_text_crlf: "CR \<notin> set s \<Longrightarrow> normalize_text (crlf_lines s) = normalize_text s"
  by (simp add: normalize_text_def replace_crlf_crlf_lines replace_crlf_id)

text \<open>The same lines written with CR line ends.\<close>

definition cr_lines :: "string \<Rightarrow> string" where
  "cr_lines s = map (\<lambda>c. if c = LF then CR else c) s"

lemma replace_crlf_no_LF: "LF \<notin> set s \<Longrightarrow> replace_crlf s = s"
  by (induction s rule: replace_crlf.induct) auto

lemma replace_cr_cr_lines: "CR \<notin> set s \<Longrightarrow> replace_cr (cr_lines s) = s"
  by (induction s) (auto simp: replace_cr_def cr_lines_def)

lemma normalize_text_cr: "CR \<notin> set s \<Longrightarrow> normalize_text (cr_lines s) = normalize_text s"
proof -
  assume s: "CR \<notin> set s"
  have "LF \<notin> set (cr_lines s)" by (auto simp: cr_lines_def)
  then show ?thesis
    by (simp add: normalize_text_def replace_crlf_no_LF replace_cr_cr_lines s replace_crlf_id replace_cr_id)
qed

lemma single_line_one_line: "CR \<notin> set (single_line s) \<and> LF \<notin> set (single_line s)"
  by (auto simp: single_line_def)

text \<open>
  \<open>trim_line_ending\<close> of the command-line tool drops one line end from a password file.
\<close>

definition trim_line_ending :: "bytes \<Rightarrow> bytes" where
  "trim_line_ending v =
     (if ends_with_byte v LF
      then (if ends_with_byte (butlast v) CR then butlast (butlast v) else butlast v)
      else v)"

section \<open>Hexadecimal digests\<close>

definition hex_digit :: "nat \<Rightarrow> char" where
  "hex_digit d = (if d < 10 then char_of (48 + d) else char_of (87 + d))"

definition hex_byte :: "char \<Rightarrow> string" where
  "hex_byte b = [hex_digit (of_char b div 16), hex_digit (of_char b mod 16)]"

definition to_hex :: "bytes \<Rightarrow> string" where
  "to_hex bs = concat (map hex_byte bs)"

lemma hex_digit_inject:
  assumes "d < 16" "e < 16" "hex_digit d = hex_digit e"
  shows "d = e"
proof -
  have of: "(of_char (hex_digit n) :: nat) = (if n < 10 then 48 + n else 87 + n)" if "n < 16" for n
    using that by (simp add: hex_digit_def of_char_of)
  from assms(3) have "(of_char (hex_digit d) :: nat) = of_char (hex_digit e)" by simp
  with assms(1,2) show ?thesis by (auto simp: of split: if_splits)
qed

lemma hex_byte_inject: "hex_byte a = hex_byte b \<Longrightarrow> a = b"
proof -
  assume eq: "hex_byte a = hex_byte b"
  have lt: "(of_char c :: nat) < 256" for c :: char by simp
  have div: "(of_char c :: nat) div 16 < 16" for c :: char using lt [of c] by linarith
  from eq have "hex_digit (of_char a div 16) = hex_digit (of_char b div 16)"
    and "hex_digit (of_char a mod 16) = hex_digit (of_char b mod 16)"
    by (simp_all add: hex_byte_def)
  then have "(of_char a :: nat) div 16 = of_char b div 16"
    and "(of_char a :: nat) mod 16 = of_char b mod 16"
    by (meson div hex_digit_inject, meson hex_digit_inject mod_less_divisor zero_less_numeral)
  then have "(of_char a :: nat) = of_char b" by (metis div_mult_mod_eq)
  then show "a = b" by simp
qed

lemma to_hex_simps [simp]: "to_hex [] = []" "to_hex (b # bs) = hex_byte b @ to_hex bs"
  by (simp_all add: to_hex_def)

lemma to_hex_inject: "to_hex a = to_hex b \<Longrightarrow> a = b"
proof (induction a arbitrary: b)
  case Nil
  then show ?case by (cases b) (auto simp: hex_byte_def)
next
  case (Cons x a)
  then obtain y b' where b: "b = y # b'"
    by (cases b) (auto simp: hex_byte_def)
  with Cons.prems have "hex_byte x = hex_byte y" and "to_hex a = to_hex b'"
    by (simp_all add: hex_byte_def)
  with Cons.IH b show ?case by (auto dest: hex_byte_inject)
qed

lemma length_to_hex: "length (to_hex bs) = 2 * length bs"
  by (induction bs) (auto simp: hex_byte_def)

text \<open>Seven-bit text is valid UTF-8; the digests are such texts.\<close>

definition ascii :: "string \<Rightarrow> bool" where
  "ascii s \<longleftrightarrow> list_all (\<lambda>c. (of_char c :: nat) < 128) s"

lemma utf8_valid_ascii: "ascii s \<Longrightarrow> utf8_valid s"
  by (induction s) (auto simp: ascii_def byte_in_def)

lemma utf8_valid_ascii_Cons: "(of_char c :: nat) < 128 \<Longrightarrow> utf8_valid (c # s) \<longleftrightarrow> utf8_valid s"
  by (simp add: byte_in_def)

lemma ascii_to_hex: "ascii (to_hex bs)"
proof -
  have "(of_char (hex_digit d) :: nat) < 128" if "d < 16" for d
    using that by (simp add: hex_digit_def of_char_of)
  moreover have "(of_char b :: nat) div 16 < 16" for b :: char
    using nat_of_char_less_256 [of b] by linarith
  ultimately have "ascii (hex_byte b)" for b
    by (simp add: ascii_def hex_byte_def)
  then show ?thesis by (induction bs) (auto simp: ascii_def)
qed

lemma utf8_valid_to_hex [simp]: "utf8_valid (to_hex bs)"
  by (rule utf8_valid_ascii [OF ascii_to_hex])

end
