(* ===== verification/Diagnostics.thy ===== *)
theory Diagnostics
  imports Rust_Text
begin

text \<open>
  \<open>src/diagnostic.rs\<close>, \<open>src/error.rs\<close> and \<open>PolicyCheck\<close> of \<open>src/validation.rs\<close>: what a check
  reports and how an operation fails.

  A message is kept as the argument list of the \<open>format!\<close> call that builds it: literal pieces,
  values displayed with \<open>{}\<close>, values displayed with \<open>{:?}\<close> and numbers.  Texts that come from
  another crate's error are displayed strings.
\<close>

section \<open>Messages and diagnostics\<close>

datatype fmt =
    Lit string             \<comment> \<open>text of the format string\<close>
  | Disp string            \<comment> \<open>\<open>{}\<close> of a string\<close>
  | Dbg string             \<comment> \<open>\<open>{:?}\<close> of a string\<close>
  | Dbgs "string list"     \<comment> \<open>\<open>{:?}\<close> of a slice of strings\<close>
  | Num nat                \<comment> \<open>\<open>{}\<close> of an unsigned integer\<close>
  | Utf8_error bytes       \<comment> \<open>\<open>{}\<close> of the \<open>Utf8Error\<close> for these bytes\<close>

type_synonym message = "fmt list"

datatype severity = Error | Warning

record diagnostic =
  d_severity :: severity
  d_code :: string
  d_module :: "string option"
  d_path :: "string option"
  d_line :: "nat option"
  d_column :: "nat option"
  d_message :: message

definition diag_error :: "string \<Rightarrow> message \<Rightarrow> diagnostic" where
  "diag_error code message =
     \<lparr>d_severity = Error, d_code = code, d_module = None, d_path = None,
      d_line = None, d_column = None, d_message = message\<rparr>"

definition diag_warning :: "string \<Rightarrow> message \<Rightarrow> diagnostic" where
  "diag_warning code message =
     \<lparr>d_severity = Warning, d_code = code, d_module = None, d_path = None,
      d_line = None, d_column = None, d_message = message\<rparr>"

definition in_module :: "string \<Rightarrow> diagnostic \<Rightarrow> diagnostic" where
  "in_module m d = d\<lparr>d_module := Some m\<rparr>"

definition at_path :: "string \<Rightarrow> diagnostic \<Rightarrow> diagnostic" where
  "at_path p d = d\<lparr>d_path := Some p\<rparr>"

text \<open>\<open>diagnostics.iter().any(|d| d.severity == DiagnosticSeverity::Error)\<close> and its sibling.\<close>

definition has_error :: "diagnostic list \<Rightarrow> bool" where
  "has_error ds \<longleftrightarrow> list_ex (\<lambda>d. d_severity d = Error) ds"

definition has_warning :: "diagnostic list \<Rightarrow> bool" where
  "has_warning ds \<longleftrightarrow> list_ex (\<lambda>d. d_severity d = Warning) ds"

lemma severity_simps [simp]:
  "d_severity (diag_error c m) = Error" "d_severity (diag_warning c m) = Warning"
  "d_severity (in_module n d) = d_severity d" "d_severity (at_path p d) = d_severity d"
  by (simp_all add: diag_error_def diag_warning_def in_module_def at_path_def)

lemma code_simps [simp]:
  "d_code (diag_error c m) = c" "d_code (diag_warning c m) = c"
  "d_code (in_module n d) = d_code d" "d_code (at_path p d) = d_code d"
  by (simp_all add: diag_error_def diag_warning_def in_module_def at_path_def)

lemma place_simps [simp]:
  "d_module (in_module n d) = Some n" "d_module (at_path p d) = d_module d"
  "d_path (at_path p d) = Some p" "d_path (in_module n d) = d_path d"
  "d_message (in_module n d) = d_message d" "d_message (at_path p d) = d_message d"
  by (simp_all add: in_module_def at_path_def)

lemma has_error_simps [simp]:
  "has_error [] = False"
  "has_error (d # ds) = (d_severity d = Error \<or> has_error ds)"
  "has_error (ds @ es) = (has_error ds \<or> has_error es)"
  by (auto simp: has_error_def)

lemma has_error_concat: "has_error (concat dss) \<longleftrightarrow> (\<exists>ds \<in> set dss. has_error ds)"
  by (induction dss) auto

lemma has_error_map:
  "(\<And>d. d_severity (f d) = d_severity d) \<Longrightarrow> has_error (map f ds) = has_error ds"
  by (induction ds) auto

lemma has_error_iff: "has_error ds \<longleftrightarrow> (\<exists>d \<in> set ds. d_severity d = Error)"
  by (simp add: has_error_def list_ex_iff)

lemma not_Error [simp]: "s \<noteq> Error \<longleftrightarrow> s = Warning" "s \<noteq> Warning \<longleftrightarrow> s = Error"
  by (cases s; simp)+

text \<open>A pass that only reports errors.\<close>

definition all_errors :: "diagnostic list \<Rightarrow> bool" where
  "all_errors ds \<longleftrightarrow> list_all (\<lambda>d. d_severity d = Error) ds"

lemma all_errors_simps [simp]:
  "all_errors []" "all_errors (d # ds) \<longleftrightarrow> d_severity d = Error \<and> all_errors ds"
  "all_errors (ds @ es) \<longleftrightarrow> all_errors ds \<and> all_errors es"
  by (auto simp: all_errors_def)

lemma all_errors_map:
  "(\<And>d. d_severity (f d) = d_severity d) \<Longrightarrow> all_errors (map f ds) = all_errors ds"
  by (induction ds) auto

lemma all_errors_concat: "all_errors (concat dss) \<longleftrightarrow> (\<forall>ds \<in> set dss. all_errors ds)"
  by (induction dss) auto

lemma all_errors_has_error: "all_errors ds \<Longrightarrow> has_error ds \<longleftrightarrow> ds \<noteq> []"
  by (cases ds) auto

section \<open>Errors\<close>

datatype io_kind = InvalidInput | AlreadyExists

datatype io_error =
    Os_error string          \<comment> \<open>reported by the operating system\<close>
  | Io_new io_kind string    \<comment> \<open>\<open>io::Error::new(kind, message)\<close> of the program\<close>

datatype bundle_error =
    Validation "diagnostic list"
  | Manifest_error string message
  | Json_error string message
  | Io string io_error
  | Key message
  | SigningKeyPasswordRequired
  | Archive message
  | SizeLimit string usize
  | Serialization message

definition is_validation :: "bundle_error \<Rightarrow> bool" where
  "is_validation e =
     (case e of Validation _ \<Rightarrow> True | Manifest_error _ _ \<Rightarrow> True | Json_error _ _ \<Rightarrow> True
      | Archive _ \<Rightarrow> True | SizeLimit _ _ \<Rightarrow> True | _ \<Rightarrow> False)"

definition error_diagnostics :: "bundle_error \<Rightarrow> diagnostic list" where
  "error_diagnostics e = (case e of Validation ds \<Rightarrow> ds | _ \<Rightarrow> [])"

text \<open>A single-diagnostic validation failure, the form most components return.\<close>

definition invalid :: "string \<Rightarrow> message \<Rightarrow> bundle_error" where
  "invalid code message = Validation [diag_error code message]"

lemma error_diagnostics_simps [simp]:
  "error_diagnostics (Validation ds) = ds" "error_diagnostics (invalid c m) = [diag_error c m]"
  by (simp_all add: error_diagnostics_def invalid_def)

lemma is_validation_simps [simp]:
  "is_validation (Validation ds)" "is_validation (Archive m)" "is_validation (SizeLimit k l)"
  "is_validation (Manifest_error p m)" "is_validation (Json_error p m)"
  "is_validation (invalid c m)"
  "\<not> is_validation (Io p e)" "\<not> is_validation (Key m)"
  "\<not> is_validation SigningKeyPasswordRequired" "\<not> is_validation (Serialization t)"
  by (simp_all add: is_validation_def invalid_def)

section \<open>The outcome of a check\<close>

record policy_check =
  pc_diagnostics :: "diagnostic list"

definition is_valid :: "policy_check \<Rightarrow> bool \<Rightarrow> bool" where
  "is_valid check deny_warnings \<longleftrightarrow>
     \<not> list_ex (\<lambda>d. d_severity d = Error \<or> deny_warnings \<and> d_severity d = Warning)
         (pc_diagnostics check)"

lemma is_valid_iff:
  "is_valid c deny \<longleftrightarrow> (if deny then pc_diagnostics c = [] else \<not> has_error (pc_diagnostics c))"
proof (cases deny)
  case True
  have "list_ex (\<lambda>d. d_severity d = Error \<or> d_severity d = Warning) ds \<longleftrightarrow> ds \<noteq> []"
    for ds :: "diagnostic list"
    by (induction ds) (auto intro: severity.exhaust)
  with True show ?thesis by (simp add: is_valid_def)
next
  case False
  then show ?thesis by (simp add: is_valid_def has_error_def)
qed

end
