(* ===== verification/Collections.thy ===== *)
theory Collections
  imports Prelude "HOL-Library.Multiset"
begin

text \<open>
  The standard library's ordered containers and the map behind \<open>serde_json::Value::Object\<close>.

  A \<open>BTreeSet\<close> is the strictly increasing list of its elements and a \<open>BTreeMap\<close> the association
  list with strictly increasing keys: what their iterators yield.  \<open>serde_json\<close> is built with
  \<open>preserve_order\<close> (\<open>Cargo.lock\<close> lists its \<open>indexmap\<close> dependency), so an object is an
  association list in insertion order in which \<open>insert\<close> on a present key replaces the value in
  place and \<open>remove\<close> moves the last entry into the gap.

  The locale \<open>keyed_map\<close> is the contract of a map by insertion, \<open>ordered_map\<close> adds that iteration
  is by increasing keys; both are interpreted on the models here.
\<close>

section \<open>Interfaces\<close>

locale keyed_map =
  fixes empty_map :: "'m"
    and put :: "'k \<Rightarrow> 'v \<Rightarrow> 'm \<Rightarrow> 'm"
    and get :: "'m \<Rightarrow> 'k \<Rightarrow> 'v option"
    and wf :: "'m \<Rightarrow> bool"
  assumes wf_empty: "wf empty_map"
    and wf_put: "wf m \<Longrightarrow> wf (put k v m)"
    and get_empty: "get empty_map = Map.empty"
    and get_put: "wf m \<Longrightarrow> get (put k v m) = (get m)(k \<mapsto> v)"
begin

lemma wf_fold_put: "wf m \<Longrightarrow> wf (foldl (\<lambda>m (k, v). put k v m) m kvs)"
  by (induction kvs arbitrary: m) (auto simp: wf_put)

lemma get_fold_put:
  "wf m \<Longrightarrow> get (foldl (\<lambda>m (k, v). put k v m) m kvs) = get m ++ map_of (rev kvs)"
proof (induction kvs arbitrary: m)
  case Nil
  then show ?case by simp
next
  case (Cons kv kvs)
  obtain k v where kv: "kv = (k, v)" by fastforce
  have "get (put k v m) ++ map_of (rev kvs) = get m ++ map_of (rev ((k, v) # kvs))"
    by (auto simp: get_put [OF Cons.prems] map_add_def fun_eq_iff split: option.splits)
  with kv Cons.IH [OF wf_put [OF Cons.prems], of k v] show ?case by simp
qed

text \<open>Collecting an iterator of pairs: the last value of a key wins.\<close>

lemma get_collect: "get (foldl (\<lambda>m (k, v). put k v m) empty_map kvs) = map_of (rev kvs)"
  by (simp add: get_fold_put [OF wf_empty] get_empty)

end

locale ordered_map = keyed_map empty_map put get wf
  for empty_map :: "'m"
    and put :: "'k::linorder \<Rightarrow> 'v \<Rightarrow> 'm \<Rightarrow> 'm"
    and get :: "'m \<Rightarrow> 'k \<Rightarrow> 'v option"
    and wf :: "'m \<Rightarrow> bool" +
  fixes entries :: "'m \<Rightarrow> ('k \<times> 'v) list"
  assumes entries_sorted: "wf m \<Longrightarrow> sorted_wrt (<) (map fst (entries m))"
    and entries_get: "wf m \<Longrightarrow> map_of (entries m) = get m"
begin

lemma entries_cong:
  assumes "wf m" "wf n" "get m = get n"
  shows "entries m = entries n"
proof -
  have d: "distinct (map fst (entries m))" "distinct (map fst (entries n))"
    using entries_sorted [OF assms(1)] entries_sorted [OF assms(2)]
    by (simp_all add: strict_sorted_iff)
  from assms have "map_of (entries m) = map_of (entries n)" by (simp add: entries_get)
  then have sets: "set (entries m) = set (entries n)"
    using d by (simp add: map_of_inject_set)
  then have "map fst (entries m) = map fst (entries n)"
    using entries_sorted [OF assms(1)] entries_sorted [OF assms(2)]
    by (intro strict_sorted_equal) auto
  moreover have "inj_on fst (set (entries m) \<union> set (entries n))"
    using sets d(1) by (simp add: distinct_map)
  ultimately show ?thesis by (metis map_inj_on sets)
qed

end

section \<open>BTreeSet\<close>

fun bs_add :: "'a::linorder \<Rightarrow> 'a list \<Rightarrow> 'a list" where
  "bs_add x [] = [x]"
| "bs_add x (y # ys) = (if x < y then x # y # ys else if x = y then y # ys else y # bs_add x ys)"

definition bs_insert :: "'a::linorder \<Rightarrow> 'a list \<Rightarrow> bool \<times> 'a list" where
  "bs_insert x s = (x \<notin> set s, bs_add x s)"

definition bs_collect :: "'a::linorder list \<Rightarrow> 'a list" where
  "bs_collect xs = fold bs_add xs []"

lemma set_bs_add [simp]: "set (bs_add x s) = insert x (set s)"
  by (induction s) auto

lemma sorted_bs_add [simp]: "sorted_wrt (<) s \<Longrightarrow> sorted_wrt (<) (bs_add x s)"
  by (induction s) auto

interpretation btree_set: seen_set "[]" bs_insert set "sorted_wrt (<)"
  by unfold_locales (auto simp: bs_insert_def)

lemma set_fold_bs_add: "set (fold bs_add xs s) = set xs \<union> set s"
  by (induction xs arbitrary: s) auto

lemma sorted_fold_bs_add: "sorted_wrt (<) s \<Longrightarrow> sorted_wrt (<) (fold bs_add xs s)"
  by (induction xs arbitrary: s) auto

lemma set_bs_collect [simp]: "set (bs_collect xs) = set xs"
  by (simp add: bs_collect_def set_fold_bs_add)

lemma sorted_bs_collect [simp]: "sorted_wrt (<) (bs_collect xs)"
  by (simp add: bs_collect_def sorted_fold_bs_add)

lemma btree_set_eq_iff:
  "sorted_wrt (<) s \<Longrightarrow> sorted_wrt (<) t \<Longrightarrow> s = t \<longleftrightarrow> set s = set (t :: 'a::linorder list)"
  by (metis strict_sorted_equal)

lemma bs_collect_sorted: "sorted_wrt (<) xs \<Longrightarrow> bs_collect xs = xs"
  by (simp add: btree_set_eq_iff)

section \<open>BTreeMap\<close>

fun bm_insert :: "'k::linorder \<Rightarrow> 'v \<Rightarrow> ('k \<times> 'v) list \<Rightarrow> ('k \<times> 'v) list" where
  "bm_insert k v [] = [(k, v)]"
| "bm_insert k v ((l, w) # m) =
     (if k < l then (k, v) # (l, w) # m else if k = l then (l, v) # m else (l, w) # bm_insert k v m)"

definition bm_collect :: "('k::linorder \<times> 'v) list \<Rightarrow> ('k \<times> 'v) list" where
  "bm_collect kvs = foldl (\<lambda>m (k, v). bm_insert k v m) [] kvs"

abbreviation bm_wf :: "('k::linorder \<times> 'v) list \<Rightarrow> bool" where
  "bm_wf m \<equiv> sorted_wrt (<) (map fst m)"

lemma fst_set_bm_insert: "fst ` set (bm_insert k v m) = insert k (fst ` set m)"
  by (induction k v m rule: bm_insert.induct) auto

lemma bm_wf_insert: "bm_wf m \<Longrightarrow> bm_wf (bm_insert k v m)"
proof (induction k v m rule: bm_insert.induct)
  case (1 k v)
  then show ?case by simp
next
  case (2 k v l w m)
  then show ?case
    using fst_set_bm_insert [of k v m] by auto
qed

lemma map_of_bm_insert: "bm_wf m \<Longrightarrow> map_of (bm_insert k v m) = (map_of m)(k \<mapsto> v)"
  by (induction k v m rule: bm_insert.induct) (auto simp: fun_eq_iff)

interpretation btree_map: ordered_map "[]" bm_insert map_of bm_wf "\<lambda>m. m"
  by unfold_locales (auto simp: bm_wf_insert map_of_bm_insert)

lemma bm_wf_collect [simp]: "bm_wf (bm_collect kvs)"
  unfolding bm_collect_def by (rule btree_map.wf_fold_put) simp

lemma map_of_bm_collect: "map_of (bm_collect kvs) = map_of (rev kvs)"
  unfolding bm_collect_def by (rule btree_map.get_collect)

text \<open>Collecting does not depend on the order of pairs with distinct keys.\<close>

lemma map_of_rev_distinct: "distinct (map fst kvs) \<Longrightarrow> map_of (rev kvs) = map_of kvs"
  by (subst map_of_inject_set) (simp_all add: rev_map [symmetric])

lemma bm_collect_distinct: "distinct (map fst kvs) \<Longrightarrow> map_of (bm_collect kvs) = map_of kvs"
  by (simp add: map_of_bm_collect map_of_rev_distinct)

lemma bm_collect_cong:
  "distinct (map fst a) \<Longrightarrow> distinct (map fst b) \<Longrightarrow> map_of a = map_of b \<Longrightarrow>
     bm_collect a = bm_collect b"
  by (rule btree_map.entries_cong) (auto simp: bm_collect_distinct)

lemma bm_collect_sorted: "bm_wf m \<Longrightarrow> bm_collect m = m"
  by (metis bm_collect_distinct bm_wf_collect btree_map.entries_cong strict_sorted_iff)

lemma set_bm_collect: "distinct (map fst kvs) \<Longrightarrow> set (bm_collect kvs) = set kvs"
  by (metis bm_collect_distinct bm_wf_collect map_of_inject_set strict_sorted_iff)

lemma fst_set_bm_collect: "fst ` set (bm_collect kvs) = fst ` set kvs"
proof -
  have "dom (map_of (bm_collect kvs)) = dom (map_of (rev kvs))"
    by (simp add: map_of_bm_collect)
  then show ?thesis by (simp add: dom_map_of_conv_image_fst)
qed

section \<open>IndexMap\<close>

fun im_insert :: "'k \<Rightarrow> 'v \<Rightarrow> ('k \<times> 'v) list \<Rightarrow> ('k \<times> 'v) list" where
  "im_insert k v [] = [(k, v)]"
| "im_insert k v ((l, w) # m) = (if k = l then (l, v) # m else (l, w) # im_insert k v m)"

text \<open>\<open>entry(k).or_insert_with(d)\<close> leaves a present key alone.\<close>

text \<open>\<open>swap_remove\<close>: the last entry takes the place of the removed one.\<close>

definition im_swap_remove :: "'k \<Rightarrow> ('k \<times> 'v) list \<Rightarrow> ('k \<times> 'v) list" where
  "im_swap_remove k m =
     (case dropWhile (\<lambda>kv. fst kv \<noteq> k) m of
        [] \<Rightarrow> m
      | kv # rest \<Rightarrow>
          takeWhile (\<lambda>kv. fst kv \<noteq> k) m @ (if rest = [] then [] else last rest # butlast rest))"

abbreviation im_wf :: "('k \<times> 'v) list \<Rightarrow> bool" where
  "im_wf m \<equiv> distinct (map fst m)"

lemma fst_set_im_insert: "fst ` set (im_insert k v m) = insert k (fst ` set m)"
  by (induction k v m rule: im_insert.induct) auto

lemma im_wf_insert: "im_wf m \<Longrightarrow> im_wf (im_insert k v m)"
  by (induction k v m rule: im_insert.induct) (auto simp: fst_set_im_insert)

lemma map_of_im_insert: "map_of (im_insert k v m) = (map_of m)(k \<mapsto> v)"
  by (induction k v m rule: im_insert.induct) (auto simp: fun_eq_iff)

interpretation index_map: keyed_map "[]" im_insert map_of im_wf
  by unfold_locales (auto simp: im_wf_insert map_of_im_insert)

lemma swap_into_gap:
  assumes "im_wf (front @ kv # rest)"
  shows "im_wf (front @ (if rest = [] then [] else last rest # butlast rest)) \<and>
    set (front @ (if rest = [] then [] else last rest # butlast rest)) =
      {x \<in> set (front @ kv # rest). fst x \<noteq> fst kv}"
  using assms by (cases rest rule: rev_cases) (auto simp: image_iff)

lemma set_im_swap_remove:
  assumes "im_wf m"
  shows "im_wf (im_swap_remove k m) \<and>
    set (im_swap_remove k m) = {kv \<in> set m. fst kv \<noteq> k}"
proof (cases "dropWhile (\<lambda>kv. fst kv \<noteq> k) m")
  case Nil
  then have "im_swap_remove k m = m" unfolding im_swap_remove_def by (simp only: list.case)
  moreover have "\<forall>kv \<in> set m. fst kv \<noteq> k" using Nil by (simp add: dropWhile_eq_Nil_conv)
  ultimately show ?thesis using assms by auto
next
  case (Cons kv rest)
  obtain front where front: "takeWhile (\<lambda>kv. fst kv \<noteq> k) m = front" by simp
  have m: "front @ kv # rest = m"
    using takeWhile_dropWhile_id [of "\<lambda>kv. fst kv \<noteq> k" m] unfolding Cons front .
  have kv: "fst kv = k"
    using hd_dropWhile [of "\<lambda>kv. fst kv \<noteq> k" m] unfolding Cons by simp
  have "im_swap_remove k m = front @ (if rest = [] then [] else last rest # butlast rest)"
    unfolding im_swap_remove_def Cons front by (simp only: list.case)
  with swap_into_gap [of front kv rest] assms show ?thesis unfolding m kv by simp
qed

lemma map_of_eqI_set:
  "im_wf a \<Longrightarrow> im_wf b \<Longrightarrow> set a = set b \<Longrightarrow> map_of a = map_of b"
  by (simp add: map_of_inject_set)

end
