(* ===== verification/Json.thy ===== *)
theory Json
  imports Diagnostics Collections
begin

text \<open>
  JSON values (\<open>serde_json::Value\<close>), the canonical form \<open>sort_json\<close> and
  \<open>canonical_json_bytes\<close> of \<open>src/archive.rs\<close>, and the decoding that
  \<open>#[derive(Deserialize)]\<close> with \<open>deny_unknown_fields\<close> gives to a struct.

  The text parser and printer of \<open>serde_json\<close> are not part of the repository: they are the
  fields of \<open>json_lib\<close>.  The lemmas say that the canonical form has strictly increasing keys in
  every object, is a fixed point, and that two values have the same canonical form exactly when
  they are equal up to the order of object keys.
\<close>

section \<open>Values\<close>

text \<open>\<open>serde_json::Number\<close>: an unsigned, a negative (two's complement) or a 64-bit float.\<close>

datatype json_number = PosInt u64 | NegInt u64 | Float u64

datatype json =
    JNull
  | JBool bool
  | JNumber json_number
  | JString string
  | JArray "json list"
  | JObject "(string \<times> json) list"

text \<open>Equality of floats is that of IEEE 754 on finite values: both zeros are equal.\<close>

fun number_eq :: "json_number \<Rightarrow> json_number \<Rightarrow> bool" where
  "number_eq (Float a) (Float b) = (a = b \<or> 2 * a = 0 \<and> 2 * b = 0)"
| "number_eq a b = (a = b)"

text \<open>\<open>Value == Value\<close>: objects are compared as maps, whatever their key order.\<close>

fun json_eq :: "json \<Rightarrow> json \<Rightarrow> bool" where
  "json_eq JNull w = (w = JNull)"
| "json_eq (JBool b) w = (w = JBool b)"
| "json_eq (JNumber n) w = (case w of JNumber m \<Rightarrow> number_eq n m | _ \<Rightarrow> False)"
| "json_eq (JString s) w = (w = JString s)"
| "json_eq (JArray vs) w = (case w of JArray ws \<Rightarrow> list_all2 json_eq vs ws | _ \<Rightarrow> False)"
| "json_eq (JObject a) w =
     (case w of
        JObject b \<Rightarrow>
          length a = length b \<and>
          list_all (\<lambda>(k, v). case map_of b k of None \<Rightarrow> False | Some u \<Rightarrow> json_eq v u) a
      | _ \<Rightarrow> False)"

text \<open>The invariant of \<open>serde_json::Map\<close>: the keys of an object are distinct.\<close>

fun json_wf :: "json \<Rightarrow> bool" where
  "json_wf (JArray vs) = list_all json_wf vs"
| "json_wf (JObject m) = (im_wf m \<and> list_all (\<lambda>(k, v). json_wf v) m)"
| "json_wf v = True"

fun float_free :: "json \<Rightarrow> bool" where
  "float_free (JArray vs) = list_all float_free vs"
| "float_free (JObject m) = list_all (\<lambda>(k, v). float_free v) m"
| "float_free (JNumber (Float b)) = False"
| "float_free v = True"

section \<open>Accessors\<close>

definition as_object :: "json \<Rightarrow> (string \<times> json) list option" where
  "as_object v = (case v of JObject m \<Rightarrow> Some m | _ \<Rightarrow> None)"

definition as_str :: "json \<Rightarrow> string option" where
  "as_str v = (case v of JString s \<Rightarrow> Some s | _ \<Rightarrow> None)"

definition json_get :: "json \<Rightarrow> string \<Rightarrow> json option" where
  "json_get v k = (case v of JObject m \<Rightarrow> map_of m k | _ \<Rightarrow> None)"

lemma as_object_Some [simp]: "as_object v = Some m \<longleftrightarrow> v = JObject m"
  by (auto simp: as_object_def split: json.splits)

lemma as_simps [simp]: "as_object (JObject m) = Some m" "as_str (JString s) = Some s"
  by (simp_all add: as_object_def as_str_def)

lemma as_str_Some [simp]: "as_str v = Some s \<longleftrightarrow> v = JString s"
  by (auto simp: as_str_def split: json.splits)

section \<open>The canonical form\<close>

definition im_collect :: "('k \<times> 'v) list \<Rightarrow> ('k \<times> 'v) list" where
  "im_collect kvs = foldl (\<lambda>m (k, v). im_insert k v m) [] kvs"

fun sort_json :: "json \<Rightarrow> json" where
  "sort_json (JObject m) = JObject (im_collect (bm_collect (map (\<lambda>(k, v). (k, sort_json v)) m)))"
| "sort_json (JArray vs) = JArray (map sort_json vs)"
| "sort_json v = v"

fun keys_sorted :: "json \<Rightarrow> bool" where
  "keys_sorted (JArray vs) = list_all keys_sorted vs"
| "keys_sorted (JObject m) = (sorted_wrt (<) (map fst m) \<and> list_all (\<lambda>(k, v). keys_sorted v) m)"
| "keys_sorted v = True"

lemma im_insert_fresh: "k \<notin> fst ` set m \<Longrightarrow> im_insert k v m = m @ [(k, v)]"
  by (induction k v m rule: im_insert.induct) auto

lemma foldl_im_insert_distinct:
  "im_wf (m @ kvs) \<Longrightarrow> foldl (\<lambda>m (k, v). im_insert k v m) m kvs = m @ kvs"
proof (induction kvs arbitrary: m)
  case Nil
  then show ?case by simp
next
  case (Cons kv kvs)
  obtain k v where kv: "kv = (k, v)" by fastforce
  with Cons.prems have "im_insert k v m = m @ [(k, v)]" by (intro im_insert_fresh) auto
  with Cons.IH [of "m @ [kv]"] Cons.prems kv show ?case by simp
qed

lemma im_collect_distinct [simp]: "im_wf kvs \<Longrightarrow> im_collect kvs = kvs"
  using foldl_im_insert_distinct [of "[]" kvs] by (simp add: im_collect_def)

lemma bm_collect_im_wf [simp]: "im_wf (bm_collect kvs)"
  using bm_wf_collect [of kvs] by (simp only: strict_sorted_iff)

lemma sort_json_Object: "sort_json (JObject m) = JObject (bm_collect (map (map_prod id sort_json) m))"
proof -
  have "(\<lambda>(k, v). (k, sort_json v)) = map_prod id sort_json"
    by (auto simp: fun_eq_iff)
  from arg_cong [OF this, of "\<lambda>f. sort_json (JObject m) = JObject (im_collect (bm_collect (map f m)))"]
  show ?thesis by (simp del: map_map)
qed

declare sort_json.simps(1) [simp del]

lemmas sort_json_simps = sort_json_Object sort_json.simps(2-)

lemma fst_map_prod_id: "map fst (map (map_prod id f) m) = map fst m"
  by simp

lemma map_of_map_prod_id: "map_of (map (map_prod id f) m) k = map_option f (map_of m k)"
  by (induction m) auto

text \<open>The normal form is well formed, sorted, and its entries are those of the argument.\<close>

lemma set_bm_collect_subset: "set (bm_collect kvs) \<subseteq> set kvs"
proof
  fix kv assume "kv \<in> set (bm_collect kvs)"
  moreover obtain k v where kv: "kv = (k, v)" by fastforce
  ultimately have "map_of (bm_collect kvs) k = Some v" by simp
  then have "map_of (rev kvs) k = Some v" by (simp add: map_of_bm_collect)
  then show "kv \<in> set kvs" using kv by (auto dest: map_of_SomeD)
qed

lemma keys_sorted_sort_json: "keys_sorted (sort_json v)"
proof (induction v)
  case (JObject m)
  have "keys_sorted w" if "(k, w) \<in> set (bm_collect (map (map_prod id sort_json) m))" for k w
    using that set_bm_collect_subset JObject by fastforce
  then show ?case by (auto simp: sort_json_Object list_all_iff simp del: map_map)
qed (auto simp: list_all_iff)

lemma json_wf_if_keys_sorted: "keys_sorted v \<Longrightarrow> json_wf v"
  by (induction v rule: json_wf.induct) (auto simp: list_all_iff strict_sorted_iff)

lemma sort_json_fixpoint: "keys_sorted v \<Longrightarrow> sort_json v = v"
proof (induction v)
  case (JArray vs)
  then show ?case by (auto simp: list_all_iff intro: map_idI)
next
  case (JObject m)
  then have "map (map_prod id sort_json) m = m"
    by (intro map_idI) (auto simp: list_all_iff)
  with JObject.prems show ?case by (simp add: sort_json_Object bm_collect_sorted del: map_map)
qed auto

lemma sort_json_idem: "sort_json (sort_json v) = sort_json v"
  by (rule sort_json_fixpoint [OF keys_sorted_sort_json])

section \<open>Equality up to key order\<close>

lemma number_eq_refl [simp]: "number_eq n n"
  by (cases n) auto

lemma number_eq_float_free: "float_free (JNumber n) \<Longrightarrow> number_eq n m \<longleftrightarrow> n = m"
  by (cases n; cases m) auto

lemma sort_json_Object_iff:
  assumes "im_wf a" "im_wf b"
  shows "sort_json (JObject a) = sort_json (JObject b) \<longleftrightarrow>
    (\<forall>k. map_option sort_json (map_of a k) = map_option sort_json (map_of b k))"
proof -
  let ?f = "map (map_prod id sort_json)"
  have d: "distinct (map fst (?f a))" "distinct (map fst (?f b))"
    using assms by simp_all
  have "bm_collect (?f a) = bm_collect (?f b) \<longleftrightarrow> map_of (?f a) = map_of (?f b)"
    using d by (metis bm_collect_cong bm_collect_distinct)
  then show ?thesis
    by (simp add: sort_json_Object fun_eq_iff map_of_map_prod_id del: map_map)
qed

lemma dom_eq_if_length:
  assumes "im_wf a" "im_wf b" "length a = length b" "fst ` set a \<subseteq> fst ` set b"
  shows "fst ` set a = fst ` set b"
proof -
  have "card (fst ` set a) = length a" "card (fst ` set b) = length b"
    using assms(1,2) by (metis distinct_card image_set length_map)+
  then show ?thesis using assms by (metis card_subset_eq finite_imageI finite_set)
qed

lemma sort_json_kind:
  "sort_json v = JArray us \<longleftrightarrow> (\<exists>vs. v = JArray vs \<and> us = map sort_json vs)"
  "sort_json v = JString s \<longleftrightarrow> v = JString s"
  "sort_json v = JNumber n \<longleftrightarrow> v = JNumber n"
  "sort_json v = JBool b \<longleftrightarrow> v = JBool b"
  "sort_json v = JNull \<longleftrightarrow> v = JNull"
  by (cases v; auto simp: sort_json_simps)+

lemma sort_json_Object_kind:
  "sort_json v = JObject us \<Longrightarrow> \<exists>m. v = JObject m"
  by (cases v) (auto simp: sort_json_simps)

lemma json_eq_Object_iff:
  assumes wf: "im_wf a" "im_wf b"
    and IH: "\<And>k v u. (k, v) \<in> set a \<Longrightarrow> (k, u) \<in> set b \<Longrightarrow>
      json_eq v u \<longleftrightarrow> sort_json v = sort_json u"
  shows "json_eq (JObject a) (JObject b) \<longleftrightarrow> sort_json (JObject a) = sort_json (JObject b)"
proof
  assume eq: "json_eq (JObject a) (JObject b)"
  then have same: "\<exists>u. map_of b k = Some u \<and> sort_json v = sort_json u" if "(k, v) \<in> set a" for k v
    using that IH by (fastforce simp: list_all_iff split: option.splits dest: map_of_SomeD)
  then have "fst ` set a \<subseteq> fst ` set b" by (force dest: map_of_SomeD)
  then have dom: "fst ` set a = fst ` set b"
    using eq wf by (intro dom_eq_if_length) auto
  have "map_option sort_json (map_of a k) = map_option sort_json (map_of b k)" for k
  proof (cases "map_of a k")
    case None
    then have "map_of b k = None" using dom by (simp add: map_of_eq_None_iff)
    with None show ?thesis by simp
  next
    case (Some v)
    with same [OF map_of_SomeD [OF Some]] show ?thesis by auto
  qed
  then show "sort_json (JObject a) = sort_json (JObject b)"
    using sort_json_Object_iff [OF wf] by blast
next
  assume "sort_json (JObject a) = sort_json (JObject b)"
  then have all: "map_option sort_json (map_of a k) = map_option sort_json (map_of b k)" for k
    using sort_json_Object_iff [OF wf] by blast
  have "dom (map_of a) = dom (map_of b)"
    using all by (auto simp: dom_def) (metis option.map_disc_iff option.discI not_None_eq)+
  then have "card (fst ` set a) = card (fst ` set b)" by (simp add: dom_map_of_conv_image_fst)
  then have "length a = length b"
    using wf by (metis distinct_card image_set length_map)
  moreover have "case map_of b k of None \<Rightarrow> False | Some u \<Rightarrow> json_eq v u" if "(k, v) \<in> set a" for k v
  proof -
    have "map_of a k = Some v" using that wf(1) by simp
    with all [of k] obtain u where "map_of b k = Some u" "sort_json v = sort_json u"
      by (cases "map_of b k") auto
    with IH that show ?thesis by (auto dest: map_of_SomeD)
  qed
  ultimately show "json_eq (JObject a) (JObject b)" by (auto simp: list_all_iff)
qed

lemma json_eq_iff_sort:
  "json_wf a \<Longrightarrow> json_wf b \<Longrightarrow> float_free a \<Longrightarrow> json_eq a b \<longleftrightarrow> sort_json a = sort_json b"
proof (induction a arbitrary: b)
  case JNull
  then show ?case by (auto simp: sort_json_kind eq_commute [of JNull])
next
  case (JBool x)
  then show ?case by (auto simp: sort_json_kind eq_commute [of "JBool x"])
next
  case (JNumber n)
  then show ?case
    by (auto simp: sort_json_kind number_eq_float_free eq_commute [of "JNumber n"]
        simp del: float_free.simps split: json.splits)
next
  case (JString s)
  then show ?case by (auto simp: sort_json_kind eq_commute [of "JString s"])
next
  case (JArray vs)
  show ?case
  proof (cases b)
    case (JArray ws)
    have "list_all2 json_eq vs ws \<longleftrightarrow> map sort_json vs = map sort_json ws"
      using JArray.IH JArray.prems \<open>b = JArray ws\<close>
      by (auto simp: list_all2_conv_all_nth list_eq_iff_nth_eq list_all_length)
    with JArray show ?thesis by simp
  qed (auto simp: sort_json_simps)
next
  case (JObject a)
  show ?case
  proof (cases b)
    case (JObject m)
    have "json_eq v u \<longleftrightarrow> sort_json v = sort_json u"
      if "(k, v) \<in> set a" "(k, u) \<in> set m" for k v u
      using that JObject.IH JObject.prems \<open>b = JObject m\<close> by (force simp: list_all_iff)
    then show ?thesis
      using JObject.prems \<open>b = JObject m\<close> json_eq_Object_iff [of a m] by simp
  qed (auto simp: sort_json_simps)
qed

section \<open>The JSON library and canonical bytes\<close>

text \<open>
  What \<open>serde_json\<close> provides.  \<open>jl_parse\<close> reads a text into the tree of its tokens, in which an
  object keeps every member in document order, repeated keys included; \<open>None\<close> is a syntax
  error.  \<open>jl_error\<close> is the error reported for a text when reading it as the named type fails.
\<close>

record json_error =
  je_line :: nat
  je_column :: nat
  je_text :: string

record json_lib =
  jl_parse :: "string \<Rightarrow> json option"
  jl_error :: "string \<Rightarrow> string \<Rightarrow> json_error"
  jl_to_vec :: "json \<Rightarrow> string + bytes"
  jl_display :: "json \<Rightarrow> string"

text \<open>Reading as \<open>Value\<close>: every object is collected into a map, the last of a repeated key wins.\<close>

fun collapse :: "json \<Rightarrow> json" where
  "collapse (JObject m) = JObject (im_collect (map (\<lambda>(k, v). (k, collapse v)) m))"
| "collapse (JArray vs) = JArray (map collapse vs)"
| "collapse v = v"

text \<open>Reading as a type with a derived decoder.\<close>

definition from_str :: "json_lib \<Rightarrow> string \<Rightarrow> (json \<Rightarrow> 'a option) \<Rightarrow> string \<Rightarrow> json_error + 'a" where
  "from_str J type decode text =
     (case jl_parse J text of
        None \<Rightarrow> Inl (jl_error J type text)
      | Some v \<Rightarrow> ok_or (jl_error J type text) (decode v))"

abbreviation decode_value :: "json \<Rightarrow> json option" where
  "decode_value v \<equiv> Some (collapse v)"

definition canonical_json_bytes :: "json_lib \<Rightarrow> json \<Rightarrow> bundle_error + bytes" where
  "canonical_json_bytes J value =
     and_then (map_err (\<lambda>e. Serialization [Disp e]) (jl_to_vec J (sort_json value)))
       (\<lambda>bytes. Inr (bytes @ [LF]))"

lemma im_wf_im_collect [simp]: "im_wf (im_collect kvs)"
  unfolding im_collect_def by (rule index_map.wf_fold_put) simp

lemma set_im_insert_subset: "set (im_insert k v m) \<subseteq> insert (k, v) (set m)"
  by (induction k v m rule: im_insert.induct) auto

lemma set_im_collect_subset: "set (im_collect kvs) \<subseteq> set kvs"
proof -
  have "set (foldl (\<lambda>m (k, v). im_insert k v m) m kvs) \<subseteq> set m \<union> set kvs" for m
  proof (induction kvs arbitrary: m)
    case (Cons kv kvs)
    obtain k v where kv: "kv = (k, v)" by fastforce
    show ?case using Cons.IH [of "im_insert k v m"] set_im_insert_subset [of k v m] kv by auto
  qed simp
  from this [of "[]"] show ?thesis by (simp add: im_collect_def)
qed

lemma json_wf_collapse: "json_wf (collapse v)"
proof (induction v)
  case (JObject m)
  have "json_wf w" if "(k, w) \<in> set (im_collect (map (\<lambda>(k, v). (k, collapse v)) m))" for k w
    using that set_im_collect_subset [of "map (\<lambda>(k, v). (k, collapse v)) m"] JObject by fastforce
  then show ?case by (auto simp: list_all_iff)
qed (auto simp: list_all_iff)

lemma collapse_id: "json_wf v \<Longrightarrow> collapse v = v"
proof (induction v)
  case (JArray vs)
  then show ?case by (auto simp: list_all_iff intro: map_idI)
next
  case (JObject m)
  then have "map (\<lambda>(k, v). (k, collapse v)) m = m"
    by (intro map_idI) (auto simp: list_all_iff)
  with JObject.prems show ?case by simp
qed auto

lemma canonical_json_bytes_Inr [result_iff]:
  "canonical_json_bytes J v = Inr b \<longleftrightarrow> (\<exists>t. jl_to_vec J (sort_json v) = Inr t \<and> b = t @ [LF])"
  by (auto simp: canonical_json_bytes_def result_iff)

section \<open>Derived decoders\<close>

text \<open>
  A struct that derives \<open>Deserialize\<close> with \<open>deny_unknown_fields\<close> reads an object whose keys are
  fields of the struct, each at most once, and also an array that lists the first fields in
  declaration order.  The result has one entry per field, \<open>None\<close> for an absent one.
\<close>

definition decode_fields :: "string list \<Rightarrow> json \<Rightarrow> json option list option" where
  "decode_fields names v =
     (case v of
        JObject m \<Rightarrow>
          if im_wf m \<and> list_all (\<lambda>(k, _). k \<in> set names) m
          then Some (map (map_of m) names) else None
      | JArray vs \<Rightarrow>
          if length vs \<le> length names
          then Some (map Some vs @ replicate (length names - length vs) None) else None
      | _ \<Rightarrow> None)"

fun decode_list :: "(json \<Rightarrow> 'a option) \<Rightarrow> json list \<Rightarrow> 'a list option" where
  "decode_list d [] = Some []"
| "decode_list d (v # vs) =
     (case d v of
        None \<Rightarrow> None
      | Some x \<Rightarrow> (case decode_list d vs of None \<Rightarrow> None | Some xs \<Rightarrow> Some (x # xs)))"

definition decode_vec :: "(json \<Rightarrow> 'a option) \<Rightarrow> json \<Rightarrow> 'a list option" where
  "decode_vec d v = (case v of JArray vs \<Rightarrow> decode_list d vs | _ \<Rightarrow> None)"

text \<open>An unsigned field of \<open>'a\<close> bits takes a non-negative integer that fits.\<close>

definition decode_uint :: "json \<Rightarrow> 'a::len word option" where
  "decode_uint v =
     (case v of
        JNumber (PosInt n) \<Rightarrow> if unat n < 2 ^ LENGTH('a) then Some (ucast n) else None
      | _ \<Rightarrow> None)"

definition encode_uint :: "'a::len word \<Rightarrow> json" where
  "encode_uint n = JNumber (PosInt (ucast n))"

lemma sort_json_encode_uint [simp]: "sort_json (encode_uint n) = encode_uint n"
  by (simp add: encode_uint_def)

text \<open>A required field: absent is an error.\<close>

definition required :: "(json \<Rightarrow> 'a option) \<Rightarrow> json option \<Rightarrow> 'a option" where
  "required d v = (case v of None \<Rightarrow> None | Some w \<Rightarrow> d w)"

lemma required_simps [simp]: "required d None = None" "required d (Some v) = d v"
  by (simp_all add: required_def)

lemma decode_list_map:
  "(\<And>x. x \<in> set xs \<Longrightarrow> d (e x) = Some x) \<Longrightarrow> decode_list d (map e xs) = Some xs"
  by (induction xs) auto

lemma decode_vec_map:
  "(\<And>x. x \<in> set xs \<Longrightarrow> d (e x) = Some x) \<Longrightarrow> decode_vec d (JArray (map e xs)) = Some xs"
  by (simp add: decode_vec_def decode_list_map)

lemma decode_vec_str: "decode_vec as_str (JArray (map JString ss)) = Some ss"
  by (rule decode_vec_map) simp

lemma decode_encode_uint:
  "LENGTH('a) \<le> 64 \<Longrightarrow> decode_uint (encode_uint (n :: 'a::len word)) = Some n"
proof -
  assume le: "LENGTH('a) \<le> 64"
  have lt: "unat n < 2 ^ LENGTH('a)" by (rule unsigned_less)
  have "(2 :: nat) ^ LENGTH('a) \<le> 2 ^ 64" using le by (intro power_increasing) auto
  with lt have "unat n < 2 ^ 64" by linarith
  moreover have "unat (ucast n :: u64) = take_bit LENGTH(64) (unat n)" by (rule unsigned_ucast_eq)
  ultimately have same: "unat (ucast n :: u64) = unat n" by (simp add: take_bit_nat_eq_self)
  have "unat (ucast (ucast n :: u64) :: 'a word) = take_bit LENGTH('a) (unat (ucast n :: u64))"
    by (rule unsigned_ucast_eq)
  then have "unat (ucast (ucast n :: u64) :: 'a word) = unat n"
    using lt by (simp only: same take_bit_nat_eq_self)
  then have "ucast (ucast n :: u64) = n" by (simp add: word_unat_eq_iff)
  moreover note same
  ultimately show ?thesis using lt by (simp add: decode_uint_def encode_uint_def)
qed

section \<open>The documented contract of the JSON library\<close>

text \<open>
  \<open>serde_json\<close> reads back what it prints, for the trees it can print faithfully: every string is
  UTF-8 (a Rust \<open>String\<close> always is), no floats, and at most the 127 levels of nesting its
  parser accepts.  A final newline is white space.
\<close>

fun json_utf8 :: "json \<Rightarrow> bool" where
  "json_utf8 (JString s) = utf8_valid s"
| "json_utf8 (JArray vs) = list_all json_utf8 vs"
| "json_utf8 (JObject m) = list_all (\<lambda>(k, v). utf8_valid k \<and> json_utf8 v) m"
| "json_utf8 v = True"

fun nested_within :: "nat \<Rightarrow> json \<Rightarrow> bool" where
  "nested_within d (JArray vs) = (case d of 0 \<Rightarrow> False | Suc e \<Rightarrow> list_all (nested_within e) vs)"
| "nested_within d (JObject m) =
     (case d of 0 \<Rightarrow> False | Suc e \<Rightarrow> list_all (\<lambda>(k, v). nested_within e v) m)"
| "nested_within d v = True"

definition printable :: "json \<Rightarrow> bool" where
  "printable v \<longleftrightarrow> json_wf v \<and> float_free v \<and> json_utf8 v \<and> nested_within 127 v"

definition json_documented :: "json_lib \<Rightarrow> bool" where
  "json_documented J \<longleftrightarrow>
     (\<forall>v b. printable v \<and> jl_to_vec J v = Inr b \<longrightarrow>
        jl_parse J (b @ [LF]) = Some v \<and> utf8_valid (b @ [LF]))"

lemma member_sort_json:
  assumes "(k, w) \<in> set (bm_collect (map (map_prod id sort_json) m))"
  obtains v where "(k, v) \<in> set m" "w = sort_json v"
  using assms set_bm_collect_subset [of "map (map_prod id sort_json) m"] by fastforce

lemma float_free_sort_json: "float_free v \<Longrightarrow> float_free (sort_json v)"
  by (induction v) (fastforce simp: sort_json_simps list_all_iff simp del: map_map elim: member_sort_json)+

lemma json_utf8_sort_json: "json_utf8 v \<Longrightarrow> json_utf8 (sort_json v)"
  by (induction v) (fastforce simp: sort_json_simps list_all_iff simp del: map_map elim: member_sort_json)+

lemma nested_within_sort_json: "nested_within d v \<Longrightarrow> nested_within d (sort_json v)"
proof (induction v arbitrary: d)
  case (JArray vs)
  then show ?case by (auto simp: list_all_iff split: nat.splits)
next
  case (JObject m)
  then obtain e where d: "d = Suc e" by (auto split: nat.splits)
  have "nested_within e w" if "(k, w) \<in> set (bm_collect (map (map_prod id sort_json) m))" for k w
    using that by (rule member_sort_json) (use JObject d in \<open>fastforce simp: list_all_iff\<close>)
  with d show ?case by (auto simp: sort_json_Object list_all_iff simp del: map_map)
qed auto

lemma printable_sort_json: "printable v \<Longrightarrow> printable (sort_json v)"
  unfolding printable_def
  by (intro conjI float_free_sort_json json_utf8_sort_json nested_within_sort_json
      json_wf_if_keys_sorted keys_sorted_sort_json) simp_all

text \<open>What canonical bytes are read back as.\<close>

lemma canonical_read_back:
  assumes "json_documented J" "printable v" "canonical_json_bytes J v = Inr b"
  shows "jl_parse J b = Some (sort_json v)" "utf8_valid b"
  using assms printable_sort_json [of v] by (auto simp: json_documented_def result_iff)

lemma from_str_canonical:
  assumes "json_documented J" "printable v" "canonical_json_bytes J v = Inr b"
  shows "from_str J ty d b = (case d (sort_json v) of None \<Rightarrow> Inl (jl_error J ty b) | Some x \<Rightarrow> Inr x)"
  using canonical_read_back(1) [OF assms] by (simp add: from_str_def ok_or_def)

text \<open>Sorting the keys of an object does not change what a derived decoder sees.\<close>

lemma decode_fields_sort:
  assumes "im_wf m" "fst ` set m \<subseteq> set names"
  shows "decode_fields names (sort_json (JObject m)) =
    Some (map (\<lambda>n. map_option sort_json (map_of m n)) names)"
proof -
  let ?m = "map (map_prod id sort_json) m"
  have d: "distinct (map fst ?m)" using assms(1) by simp
  have "k \<in> set names" if "(k, w) \<in> set (bm_collect ?m)" for k w
    using that by (rule member_sort_json) (use assms(2) in force)
  then have "list_all (\<lambda>(k, _). k \<in> set names) (bm_collect ?m)" by (auto simp: list_all_iff)
  then have "decode_fields names (sort_json (JObject m)) = Some (map (map_of (bm_collect ?m)) names)"
    by (simp add: decode_fields_def sort_json_Object del: map_map)
  also have "map_of (bm_collect ?m) = (\<lambda>n. map_option sort_json (map_of m n))"
    unfolding bm_collect_distinct [OF d] by (rule ext) (rule map_of_map_prod_id)
  finally show ?thesis .
qed

end
