(* ===== verification/Sample_Json.thy ===== *)
theory Sample_Json
  imports Json
begin

text \<open>
  A JSON library that satisfies \<open>json_documented\<close>: a printer and a parser for a simple
  self-delimiting format, with numbers in binary and strings either raw, when they are seven-bit
  text, or in hexadecimal.  The parser takes a text as its fuel.  Concrete instances of the properties use it.
\<close>

fun put_nat :: "nat \<Rightarrow> string" where
  "put_nat n = (if n = 0 then ''.'' else (if odd n then CHR ''1'' else CHR ''0'') # put_nat (n div 2))"

declare put_nat.simps [simp del]

fun take_nat :: "string \<Rightarrow> (nat \<times> string) option" where
  "take_nat [] = None"
| "take_nat (c # s) =
     (if c = CHR ''.'' then Some (0, s)
      else map_option (\<lambda>(n, r). (if c = CHR ''1'' then 2 * n + 1 else 2 * n, r)) (take_nat s))"

definition hex_value :: "char \<Rightarrow> nat" where
  "hex_value c = (if of_char c < (58 :: nat) then of_char c - 48 else of_char c - 87)"

fun from_hex :: "string \<Rightarrow> bytes option" where
  "from_hex [] = Some []"
| "from_hex [a] = None"
| "from_hex (a # b # s) = map_option (\<lambda>r. char_of (16 * hex_value a + hex_value b) # r) (from_hex s)"

definition raw_text :: "string \<Rightarrow> bool" where
  "raw_text s \<longleftrightarrow> list_all (\<lambda>c. (of_char c :: nat) < 127) s"

definition until :: "char \<Rightarrow> string \<Rightarrow> string \<times> string" where
  "until e t = (takeWhile (\<lambda>c. c \<noteq> e) t, drop 1 (dropWhile (\<lambda>c. c \<noteq> e) t))"

definition put_string :: "string \<Rightarrow> string" where
  "put_string s = (if raw_text s then ''r'' @ s @ [CHR 0x7F] else ''h'' @ to_hex s @ ''.'')"

fun take_string :: "string \<Rightarrow> (string \<times> string) option" where
  "take_string [] = None"
| "take_string (c # t) =
     (if c = CHR ''r'' then Some (until (CHR 0x7F) t)
      else (case until (CHR ''.'') t of (h, r) \<Rightarrow> map_option (\<lambda>s. (s, r)) (from_hex h)))"

fun put_json :: "json \<Rightarrow> string" where
  "put_json JNull = ''n''"
| "put_json (JBool b) = (if b then ''t'' else ''f'')"
| "put_json (JNumber (PosInt w)) = ''p'' @ put_nat (unat w)"
| "put_json (JNumber (NegInt w)) = ''m'' @ put_nat (unat w)"
| "put_json (JNumber (Float w)) = ''d'' @ put_nat (unat w)"
| "put_json (JString s) = ''s'' @ put_string s"
| "put_json (JArray vs) = ''a'' @ concat (map (\<lambda>v. ''x'' @ put_json v) vs) @ ''.''"
| "put_json (JObject m) = ''o'' @ concat (map (\<lambda>(k, v). ''x'' @ put_string k @ put_json v) m) @ ''.''"

fun get_json :: "string \<Rightarrow> string \<Rightarrow> (json \<times> string) option"
and get_list :: "string \<Rightarrow> string \<Rightarrow> (json list \<times> string) option"
and get_members :: "string \<Rightarrow> string \<Rightarrow> ((string \<times> json) list \<times> string) option" where
  "get_json [] t = None"
| "get_json (_ # f) t =
     (case t of [] \<Rightarrow> None
      | c # t \<Rightarrow>
          if c = CHR ''n'' then Some (JNull, t)
          else if c = CHR ''t'' then Some (JBool True, t)
          else if c = CHR ''f'' then Some (JBool False, t)
          else if c = CHR ''p'' then map_option (\<lambda>(n, r). (JNumber (PosInt (of_nat n)), r)) (take_nat t)
          else if c = CHR ''m'' then map_option (\<lambda>(n, r). (JNumber (NegInt (of_nat n)), r)) (take_nat t)
          else if c = CHR ''d'' then map_option (\<lambda>(n, r). (JNumber (Float (of_nat n)), r)) (take_nat t)
          else if c = CHR ''s'' then map_option (\<lambda>(s, r). (JString s, r)) (take_string t)
          else if c = CHR ''a'' then map_option (\<lambda>(vs, r). (JArray vs, r)) (get_list f t)
          else if c = CHR ''o'' then map_option (\<lambda>(m, r). (JObject m, r)) (get_members f t)
          else None)"
| "get_list [] t = None"
| "get_list (_ # f) t =
     (case t of [] \<Rightarrow> None
      | c # t \<Rightarrow>
          if c = CHR ''.'' then Some ([], t)
          else (case get_json f t of None \<Rightarrow> None
                | Some (v, r) \<Rightarrow> map_option (\<lambda>(vs, r). (v # vs, r)) (get_list f r)))"
| "get_members [] t = None"
| "get_members (_ # f) t =
     (case t of [] \<Rightarrow> None
      | c # t \<Rightarrow>
          if c = CHR ''.'' then Some ([], t)
          else (case take_string t of None \<Rightarrow> None
                | Some (k, r) \<Rightarrow>
                    (case get_json f r of None \<Rightarrow> None
                     | Some (v, r) \<Rightarrow> map_option (\<lambda>(m, r). ((k, v) # m, r)) (get_members f r))))"

definition sample_json :: json_lib where
  "sample_json =
     \<lparr>jl_parse = (\<lambda>t. case get_json t t of
                        Some (v, r) \<Rightarrow> if r = [LF] then Some v else None
                      | None \<Rightarrow> None),
      jl_error = (\<lambda>ty t. \<lparr>je_line = 1, je_column = 1, je_text = ty\<rparr>),
      jl_to_vec = (\<lambda>v. Inr (put_json v)),
      jl_display = put_json\<rparr>"

lemma take_put_nat [simp]: "take_nat (put_nat n @ r) = Some (n, r)"
proof (induction n rule: put_nat.induct)
  case (1 n)
  then show ?case by (subst put_nat.simps) auto
qed

lemma hex_value_digit: "d < 16 \<Longrightarrow> hex_value (hex_digit d) = d"
  by (simp add: hex_value_def hex_digit_def of_char_of)

lemma from_to_hex [simp]: "from_hex (to_hex b) = Some b"
proof (induction b)
  case (Cons c b)
  have "(of_char c :: nat) div 16 < 16" using nat_of_char_less_256 [of c] by linarith
  then have "hex_value (hex_digit (of_char c div 16)) = of_char c div 16"
    "hex_value (hex_digit (of_char c mod 16)) = of_char c mod 16" by (simp_all add: hex_value_digit)
  then have "char_of (16 * hex_value (hex_digit (of_char c div 16)) + hex_value (hex_digit (of_char c mod 16))) = c"
    by (simp only: mult_div_mod_eq char_of_char)
  with Cons show ?case by (simp add: hex_byte_def)
qed simp

lemma dot_to_hex: "CHR ''.'' \<notin> set (to_hex b)"
proof -
  have "hex_digit d \<noteq> CHR ''.''" if "d < 16" for d
  proof
    assume "hex_digit d = CHR ''.''"
    then have "(of_char (hex_digit d) :: nat) = 46" by simp
    with that show False by (simp add: hex_digit_def of_char_of split: if_splits)
  qed
  moreover have "(of_char c :: nat) div 16 < 16" for c :: char
    using nat_of_char_less_256 [of c] by linarith
  ultimately show ?thesis by (induction b) (auto simp: hex_byte_def dest: sym)
qed

lemma until_append: "e \<notin> set s \<Longrightarrow> until e (s @ e # r) = (s, r)"
proof -
  assume "e \<notin> set s"
  then have "\<And>c. c \<in> set s \<Longrightarrow> c \<noteq> e" by blast
  then show ?thesis by (simp add: until_def takeWhile_append2 dropWhile_append2)
qed

lemma take_put_string [simp]: "take_string (put_string s @ r) = Some (s, r)"
proof (cases "raw_text s")
  case True
  then have "CHR 0x7F \<notin> set s" by (auto simp: raw_text_def list_all_iff)
  with True show ?thesis by (simp add: put_string_def until_append)
next
  case False
  with dot_to_hex show ?thesis by (simp add: put_string_def until_append)
qed

lemma get_put_list:
  assumes "\<And>v f r. v \<in> set vs \<Longrightarrow> length (put_json v) \<le> length f \<Longrightarrow> get_json f (put_json v @ r) = Some (v, r)"
    and "length (concat (map (\<lambda>v. ''x'' @ put_json v) vs)) < length f"
  shows "get_list f (concat (map (\<lambda>v. ''x'' @ put_json v) vs) @ CHR ''.'' # r) = Some (vs, r)"
  using assms
proof (induction vs arbitrary: f)
  case Nil
  then show ?case by (cases f) auto
next
  case (Cons v vs)
  then obtain x f' where "f = x # f'" by (cases f) auto
  with Cons show ?case by simp
qed

lemma get_put_members:
  assumes "\<And>k v f r. (k, v) \<in> set m \<Longrightarrow> length (put_json v) \<le> length f \<Longrightarrow>
      get_json f (put_json v @ r) = Some (v, r)"
    and "length (concat (map (\<lambda>(k, v). ''x'' @ put_string k @ put_json v) m)) < length f"
  shows "get_members f (concat (map (\<lambda>(k, v). ''x'' @ put_string k @ put_json v) m) @ CHR ''.'' # r) =
    Some (m, r)"
  using assms
proof (induction m arbitrary: f)
  case Nil
  then show ?case by (cases f) auto
next
  case (Cons kv m)
  obtain k v where kv: "kv = (k, v)" by fastforce
  let ?rest = "concat (map (\<lambda>(k, v). ''x'' @ put_string k @ put_json v) m) @ CHR ''.'' # r"
  from Cons.prems(2) obtain x f' where f: "f = x # f'" by (cases f) auto
  have "get_json f' (put_json v @ ?rest) = Some (v, ?rest)"
    by (rule Cons.prems(1) [of k]) (use Cons.prems(2) in \<open>simp_all add: kv f\<close>)
  moreover have "get_members f' ?rest = Some (m, r)"
    using Cons.prems by (intro Cons.IH) (auto simp: kv f)
  ultimately show ?case by (simp add: kv f)
qed

lemma get_put_json: "length (put_json v) \<le> length f \<Longrightarrow> get_json f (put_json v @ r) = Some (v, r)"
proof (induction v arbitrary: f r)
  case JNull
  then show ?case by (cases f) simp_all
next
  case (JBool b)
  then show ?case by (cases f; cases b) simp_all
next
  case (JNumber n)
  then show ?case by (cases f; cases n) simp_all
next
  case (JString s)
  then show ?case by (cases f) simp_all
next
  case (JArray vs)
  then obtain x f' where "f = x # f'" by (cases f) auto
  with JArray get_put_list [of vs f' r] show ?case by simp
next
  case (JObject m)
  then obtain x f' where f: "f = x # f'" by (cases f) auto
  have "get_members f' (concat (map (\<lambda>(k, v). ''x'' @ put_string k @ put_json v) m) @ CHR ''.'' # r) =
      Some (m, r)"
    using JObject by (intro get_put_members) (auto simp: f)
  with f show ?case by simp
qed

lemma ascii_simps [simp]:
  "ascii []" "ascii (c # s) \<longleftrightarrow> (of_char c :: nat) < 128 \<and> ascii s" "ascii (s @ t) \<longleftrightarrow> ascii s \<and> ascii t"
  "ascii (concat ss) \<longleftrightarrow> list_all ascii ss"
  by (auto simp: ascii_def list_all_iff)

lemma ascii_put_nat [simp]: "ascii (put_nat n)"
  by (induction n rule: put_nat.induct) (subst put_nat.simps, simp)

lemma ascii_put_string [simp]: "ascii (put_string s)"
proof (cases "raw_text s")
  case True
  then have "ascii s" by (auto simp: raw_text_def ascii_def list_all_iff)
  with True show ?thesis by (simp add: put_string_def)
qed (simp add: put_string_def ascii_to_hex)

lemma ascii_put_json: "ascii (put_json v)"
proof (induction v)
  case (JNumber n)
  then show ?case by (cases n) simp_all
next
  case (JObject m)
  then show ?case by (auto simp: list_all_iff)
qed (auto simp: list_all_iff)

lemma sample_json_documented: "json_documented sample_json"
proof -
  have "utf8_valid (put_json v @ [LF])" for v
    by (rule utf8_valid_ascii) (simp add: ascii_put_json)
  then show ?thesis by (simp add: json_documented_def sample_json_def get_put_json)
qed

text \<open>A bound on the length of what is printed.\<close>

fun json_size :: "json \<Rightarrow> nat" where
  "json_size JNull = 1"
| "json_size (JBool b) = 1"
| "json_size (JNumber (PosInt w)) = 2 + unat w"
| "json_size (JNumber (NegInt w)) = 2 + unat w"
| "json_size (JNumber (Float w)) = 2 + unat w"
| "json_size (JString s) = 3 + 2 * length s"
| "json_size (JArray vs) = 2 + sum_list (map (\<lambda>v. 1 + json_size v) vs)"
| "json_size (JObject m) = 2 + sum_list (map (\<lambda>(k, v). 3 + 2 * length k + json_size v) m)"

lemma length_put_nat: "length (put_nat n) \<le> Suc n"
proof (induction n rule: put_nat.induct)
  case (1 n)
  then show ?case by (subst put_nat.simps) auto
qed

lemma length_put_string: "length (put_string s) \<le> 2 + 2 * length s"
  by (simp add: put_string_def length_to_hex)

lemma length_concat_le:
  "(\<And>x. x \<in> set xs \<Longrightarrow> length (f x) \<le> g x) \<Longrightarrow> length (concat (map f xs)) \<le> sum_list (map g xs)"
  by (induction xs) (auto intro: add_mono)

lemma length_put_json: "length (put_json v) \<le> json_size v"
proof (induction v)
  case (JNumber n)
  then show ?case by (cases n) (simp_all add: length_put_nat)
next
  case (JString s)
  then show ?case using length_put_string [of s] by simp
next
  case (JArray vs)
  have "length (concat (map (\<lambda>v. ''x'' @ put_json v) vs)) \<le> sum_list (map (\<lambda>v. 1 + json_size v) vs)"
    using JArray by (intro length_concat_le) simp
  then show ?case by simp
next
  case (JObject m)
  have "length (concat (map (\<lambda>(k, v). ''x'' @ put_string k @ put_json v) m)) \<le>
      sum_list (map (\<lambda>(k, v). 3 + 2 * length k + json_size v) m)"
  proof (rule length_concat_le)
    fix kv assume kv: "kv \<in> set m"
    obtain k v where "kv = (k, v)" by fastforce
    with JObject kv length_put_string [of k]
    show "length (case kv of (k, v) \<Rightarrow> ''x'' @ put_string k @ put_json v) \<le>
        (case kv of (k, v) \<Rightarrow> 3 + 2 * length k + json_size v)" by fastforce
  qed
  then show ?case by simp
qed simp_all

lemma sum_list_bm_insert: "sum_list (map f (bm_insert k v m)) \<le> f (k, v) + (sum_list (map f m) :: nat)"
  by (induction k v m rule: bm_insert.induct) auto

lemma sum_list_bm_collect: "sum_list (map f (bm_collect kvs)) \<le> (sum_list (map f kvs) :: nat)"
proof -
  have "sum_list (map f (foldl (\<lambda>m (k, v). bm_insert k v m) m kvs)) \<le> sum_list (map f m) + sum_list (map f kvs)" for m
  proof (induction kvs arbitrary: m)
    case (Cons kv kvs)
    obtain k v where "kv = (k, v)" by fastforce
    with Cons [of "bm_insert k v m"] sum_list_bm_insert [of f k v m] show ?case by simp
  qed simp
  from this [of "[]"] show ?thesis by (simp add: bm_collect_def)
qed

lemma json_size_sort: "json_size (sort_json v) \<le> json_size v"
proof (induction v)
  case (JArray vs)
  then show ?case by (auto simp: comp_def intro!: sum_list_mono)
next
  case (JObject m)
  let ?f = "\<lambda>(k, v). 3 + 2 * length k + json_size v"
  have "sum_list (map ?f (map (map_prod id sort_json) m)) \<le> sum_list (map ?f m)"
    unfolding map_map by (rule sum_list_mono) (use JObject in fastforce)
  with sum_list_bm_collect [of ?f "map (map_prod id sort_json) m"] show ?case
    by (simp add: sort_json_Object del: map_map)
qed simp_all

lemma sample_canonical: "canonical_json_bytes sample_json v = Inr (put_json (sort_json v) @ [LF])"
  by (simp add: canonical_json_bytes_def sample_json_def)

lemma length_canonical: "length (put_json (sort_json v) @ [LF]) \<le> json_size v + 1"
  using length_put_json [of "sort_json v"] json_size_sort [of v] by simp

end
