(* ===== verification/Namespaces.thy ===== *)
theory Namespaces
  imports Rust_Text
begin

text \<open>
  Namespace ownership (\<open>namespace_owns\<close> and \<open>namespaces_overlap\<close> of \<open>src/manifest.rs\<close>) and what
  the sorted-neighbour scan of \<open>validate_module_set\<close> and \<open>validate_manifest\<close> can tell.

  The code compares strings; \<open>namespace_owns_path\<close> shows that on Cedar names it is the prefix order
  of their \<open>::\<close>-separated segments.  The locale \<open>ownership\<close> is the contract the rest of the
  development needs from it (every name has at most one owner among disjoint roots); the locale
  \<open>convex_ownership\<close> adds what makes a scan of sorted neighbours sufficient.  Names with digits
  are not convex in the byte order, because digits sort before the colon.
\<close>

section \<open>The code\<close>

definition namespace_owns :: "string \<Rightarrow> string \<Rightarrow> bool" where
  "namespace_owns root name \<longleftrightarrow>
     name = root \<or>
     (case strip_prefix name root of None \<Rightarrow> False | Some rest \<Rightarrow> starts_with rest ''::'')"

definition namespaces_overlap :: "string \<Rightarrow> string \<Rightarrow> bool" where
  "namespaces_overlap l r \<longleftrightarrow> namespace_owns l r \<or> namespace_owns r l"

lemma namespace_owns_iff: "namespace_owns root name \<longleftrightarrow> name = root \<or> (\<exists>t. name = root @ ''::'' @ t)"
  by (auto simp: namespace_owns_def starts_with_iff_prefix prefix_def strip_prefix_Some_iff
      split: option.splits)
    (metis option.distinct(1) strip_prefix_Some_iff)

lemma namespace_owns_refl [simp]: "namespace_owns a a"
  by (simp add: namespace_owns_def)

lemma namespace_owns_trans: "namespace_owns a b \<Longrightarrow> namespace_owns b c \<Longrightarrow> namespace_owns a c"
  by (auto simp: namespace_owns_iff)

lemma namespace_owns_prefix: "namespace_owns a b \<Longrightarrow> prefix a b"
  by (auto simp: namespace_owns_iff)

lemma namespace_owns_antisym: "namespace_owns a b \<Longrightarrow> namespace_owns b a \<Longrightarrow> a = b"
  by (meson namespace_owns_prefix prefix_order.antisym)

section \<open>Cedar names\<close>

text \<open>
  The documented grammar of a Cedar name: identifiers (a letter or underscore, then letters,
  digits and underscores) joined by \<open>::\<close>.
\<close>

definition letter_or_underscore :: "char \<Rightarrow> bool" where
  "letter_or_underscore c \<longleftrightarrow> (let n = (of_char c :: nat) in
     65 \<le> n \<and> n \<le> 90 \<or> n = 95 \<or> 97 \<le> n \<and> n \<le> 122)"

definition digit :: "char \<Rightarrow> bool" where
  "digit c \<longleftrightarrow> (let n = (of_char c :: nat) in 48 \<le> n \<and> n \<le> 57)"

fun cedar_ident :: "string \<Rightarrow> bool" where
  "cedar_ident [] = False"
| "cedar_ident (c # s) =
     (letter_or_underscore c \<and> list_all (\<lambda>d. letter_or_underscore d \<or> digit d) s)"

fun path_of :: "string list \<Rightarrow> string" where
  "path_of [] = []"
| "path_of (s # ss) = s @ concat (map (\<lambda>t. ''::'' @ t) ss)"

definition cedar_path :: "string \<Rightarrow> bool" where
  "cedar_path name \<longleftrightarrow> (\<exists>segs. segs \<noteq> [] \<and> list_all cedar_ident segs \<and> name = path_of segs)"

lemma ident_no_colon: "cedar_ident s \<Longrightarrow> CHR '':'' \<notin> set s"
  by (cases s) (auto simp: letter_or_underscore_def digit_def list_all_iff Let_def)

lemma colon_split:
  assumes "CHR '':'' \<notin> set a" "CHR '':'' \<notin> set b"
    and "u = [] \<or> hd u = CHR '':''" "v = [] \<or> hd v = CHR '':''"
    and "a @ u = b @ v"
  shows "a = b \<and> u = v"
proof -
  have tw: "takeWhile ((\<noteq>) CHR '':'') (s @ w) = s"
    if "CHR '':'' \<notin> set s" "w = [] \<or> hd w = CHR '':''" for s w
    using that by (cases w) (auto simp: takeWhile_append2 takeWhile_tail)
  from assms have "a = b" using tw [of a u] tw [of b v] by metis
  with assms(5) show ?thesis by simp
qed

abbreviation rest_path :: "string list \<Rightarrow> string" where
  "rest_path ss \<equiv> concat (map (\<lambda>t. ''::'' @ t) ss)"

lemma rest_path_colon: "rest_path ss = [] \<or> hd (rest_path ss) = CHR '':''"
  by (cases ss) auto

lemma rest_path_prefix:
  assumes "list_all cedar_ident as" "list_all cedar_ident bs"
    and "u = [] \<or> starts_with u ''::''" "rest_path as @ u = rest_path bs"
  shows "prefix as bs"
  using assms
proof (induction as arbitrary: bs)
  case Nil
  then show ?case by simp
next
  case (Cons a as)
  from Cons.prems(4) obtain b bs' where bs: "bs = b # bs'" by (cases bs) auto
  have u: "rest_path as @ u = [] \<or> hd (rest_path as @ u) = CHR '':''"
    using Cons.prems(3) rest_path_colon [of as]
    by (cases "rest_path as") (auto simp: starts_with_def, cases u, auto)
  have "a @ (rest_path as @ u) = b @ rest_path bs'"
    using Cons.prems(4) bs by simp
  then have "a = b" "rest_path as @ u = rest_path bs'"
    using colon_split [OF _ _ u rest_path_colon [of bs'], of a b] Cons.prems(1,2) bs ident_no_colon
    by auto
  with Cons.IH [of bs'] Cons.prems bs show ?case by simp
qed

lemma namespace_owns_segments:
  assumes "as \<noteq> []" "bs \<noteq> []" "list_all cedar_ident as" "list_all cedar_ident bs"
  shows "namespace_owns (path_of as) (path_of bs) \<longleftrightarrow> prefix as bs"
proof
  assume "namespace_owns (path_of as) (path_of bs)"
  then obtain u where u: "path_of bs = path_of as @ u" "u = [] \<or> starts_with u ''::''"
    by (auto simp: namespace_owns_iff starts_with_def)
  obtain a as' b bs' where ab: "as = a # as'" "bs = b # bs'" using assms by (meson list.exhaust)
  have tail: "rest_path as' @ u = [] \<or> hd (rest_path as' @ u) = CHR '':''"
    using u(2) rest_path_colon [of as']
    by (cases "rest_path as'") (auto simp: starts_with_def, cases u, auto)
  have "a @ (rest_path as' @ u) = b @ rest_path bs'" using u(1) by (simp only: ab path_of.simps append_assoc)
  then have "a = b" "rest_path as' @ u = rest_path bs'"
    using colon_split [OF _ _ tail rest_path_colon [of bs'], of a b] assms ab ident_no_colon by auto
  with rest_path_prefix [of as' bs' u] u(2) assms ab show "prefix as bs" by simp
next
  assume "prefix as bs"
  then obtain cs where bs: "bs = as @ cs" by (rule prefixE)
  obtain a as' where a: "as = a # as'" using assms(1) by (meson list.exhaust)
  show "namespace_owns (path_of as) (path_of bs)"
    by (cases cs) (auto simp: bs a namespace_owns_iff)
qed

text \<open>An executable test for the grammar: split at each colon pair, check each piece.\<close>

fun cedar_path_from :: "bool \<Rightarrow> string \<Rightarrow> bool" where
  "cedar_path_from started [] = started"
| "cedar_path_from started (c # s) =
     (if c = CHR '':'' then started \<and> (case s of [] \<Rightarrow> False | d # t \<Rightarrow> d = CHR '':'' \<and> cedar_path_from False t)
      else (letter_or_underscore c \<or> started \<and> digit c) \<and> cedar_path_from True s)"

lemma letter_not_colon: "letter_or_underscore c \<Longrightarrow> c \<noteq> CHR '':''" "digit c \<Longrightarrow> c \<noteq> CHR '':''"
  by (auto simp: letter_or_underscore_def digit_def)

lemma cedar_path_from_sound:
  "cedar_path_from started s \<Longrightarrow>
     \<exists>w segs. s = w @ rest_path segs \<and> list_all cedar_ident segs \<and>
       (if started then list_all (\<lambda>d. letter_or_underscore d \<or> digit d) w else cedar_ident w)"
proof (induction started s rule: cedar_path_from.induct)
  case (1 started)
  then show ?case by (intro exI [of _ "[]"]) auto
next
  case (2 started c s)
  show ?case
  proof (cases "c = CHR '':''")
    case True
    with 2(3) obtain t where s: "started" "s = CHR '':'' # t" "cedar_path_from False t"
      by (auto split: list.splits)
    from 2(1) [OF True s(2,3)] obtain w segs where
      "t = w @ rest_path segs" "list_all cedar_ident segs" "cedar_ident w" by auto
    then show ?thesis using True s by (intro exI [of _ "[]"] exI [of _ "w # segs"]) auto
  next
    case False
    with 2(3) have c: "letter_or_underscore c \<or> started \<and> digit c" and rest: "cedar_path_from True s"
      by auto
    from 2(2) [OF False rest] obtain w segs where
      "s = w @ rest_path segs" "list_all cedar_ident segs"
      "list_all (\<lambda>d. letter_or_underscore d \<or> digit d) w" by auto
    then show ?thesis using c by (intro exI [of _ "c # w"] exI [of _ segs]) auto
  qed
qed

lemma cedar_path_from_cedar_path: "cedar_path_from False s \<Longrightarrow> cedar_path s"
  using cedar_path_from_sound [of False s]
  unfolding cedar_path_def by (metis (no_types, lifting) list.pred_inject(2) list.simps(3) path_of.simps(2))

section \<open>The ownership contract\<close>

locale ownership =
  fixes owns :: "'n \<Rightarrow> 'n \<Rightarrow> bool" and valid :: "'n \<Rightarrow> bool"
  assumes owns_refl: "owns a a"
    and owns_trans: "owns a b \<Longrightarrow> owns b c \<Longrightarrow> owns a c"
    and owns_tree: "valid a \<Longrightarrow> valid b \<Longrightarrow> valid c \<Longrightarrow> owns a c \<Longrightarrow> owns b c \<Longrightarrow> owns a b \<or> owns b a"
begin

lemma unique_owner:
  assumes "sorted_wrt (\<lambda>a b. \<not> owns a b \<and> \<not> owns b a) roots"
    and "list_all valid roots" "valid c"
    and "i < length roots" "j < length roots" "owns (roots ! i) c" "owns (roots ! j) c"
  shows "i = j"
proof (rule ccontr)
  assume "i \<noteq> j"
  then have "\<not> owns (roots ! i) (roots ! j) \<and> \<not> owns (roots ! j) (roots ! i)"
    using sorted_wrt_nth_less [OF assms(1), of i j] sorted_wrt_nth_less [OF assms(1), of j i]
      assms(4,5) by (cases "i < j") auto
  moreover have "owns (roots ! i) (roots ! j) \<or> owns (roots ! j) (roots ! i)"
    using assms by (intro owns_tree) (auto simp: list_all_length)
  ultimately show False by blast
qed

end

locale convex_ownership = ownership owns valid
  for owns :: "'n::linorder \<Rightarrow> 'n \<Rightarrow> bool" and valid :: "'n \<Rightarrow> bool" +
  fixes plain :: "'n \<Rightarrow> bool"
  assumes owns_le: "owns a b \<Longrightarrow> a \<le> b"
    and owns_between: "plain s \<Longrightarrow> a \<le> s \<Longrightarrow> s \<le> b \<Longrightarrow> owns a b \<Longrightarrow> owns a s"
begin

lemma neighbours_enough:
  assumes "sorted roots" "list_all plain roots"
    and "\<forall>(a, b) \<in> set (windows2 roots). \<not> owns a b \<and> \<not> owns b a"
  shows "sorted_wrt (\<lambda>a b. \<not> owns a b \<and> \<not> owns b a) roots"
  using assms
proof (induction roots rule: induct_list012)
  case (3 x y zs)
  then have xy: "x \<le> y" "\<not> owns x y" "\<not> owns y x" by auto
  have tail: "sorted_wrt (\<lambda>a b. \<not> owns a b \<and> \<not> owns b a) (y # zs)" using 3 by simp
  have "\<not> owns x z \<and> \<not> owns z x" if z: "z \<in> set zs" for z
  proof -
    have yz: "y \<le> z" using 3(3) z by simp
    have "\<not> owns x z" using owns_between [of y x z] xy yz 3(4) by auto
    moreover have "\<not> owns z x"
    proof
      assume "owns z x"
      then have "x = y" using owns_le [of z x] xy yz by simp
      then show False using xy owns_refl by simp
    qed
    ultimately show ?thesis by simp
  qed
  with xy tail show ?case by auto
qed simp_all

end

section \<open>The code satisfies the contract\<close>

text \<open>
  A name is plain when no byte sorts before the colon, so without digits, and it does not end
  with a colon.
\<close>

definition plain_name :: "string \<Rightarrow> bool" where
  "plain_name s \<longleftrightarrow> list_all (\<lambda>c. CHR '':'' \<le> c) s \<and> (s = [] \<or> last s \<noteq> CHR '':'')"

lemma prefix_le: "(a :: string) \<le> a @ t"
  by (induction a) auto

lemma plain_between:
  "plain_name s \<Longrightarrow> a \<le> s \<Longrightarrow> s \<le> a @ ''::'' @ t \<Longrightarrow> namespace_owns a s"
proof (induction a arbitrary: s)
  case Nil
  then show ?case
    by (cases s; cases "tl s") (auto simp: plain_name_def namespace_owns_iff)
next
  case (Cons x a)
  then obtain c s' where s: "s = c # s'" by (cases s) auto
  with Cons.prems have "c = x" "a \<le> s'" "s' \<le> a @ ''::'' @ t" by auto
  moreover have "plain_name s'" using Cons.prems(1) s by (auto simp: plain_name_def split: if_splits)
  ultimately have "namespace_owns a s'" using Cons.IH by blast
  then show ?case using s \<open>c = x\<close> by (auto simp: namespace_owns_iff)
qed

interpretation namespace: convex_ownership namespace_owns cedar_path plain_name
proof unfold_locales
  fix a b c
  show "namespace_owns a a" by simp
  show "namespace_owns a b \<Longrightarrow> namespace_owns b c \<Longrightarrow> namespace_owns a c"
    by (rule namespace_owns_trans)
  assume "cedar_path a" "cedar_path b" "cedar_path c" "namespace_owns a c" "namespace_owns b c"
  then obtain as bs cs where "a = path_of as" "b = path_of bs" "c = path_of cs"
    and "as \<noteq> []" "bs \<noteq> []" "cs \<noteq> []"
    and "list_all cedar_ident as" "list_all cedar_ident bs" "list_all cedar_ident cs"
    and "prefix as cs" "prefix bs cs"
    unfolding cedar_path_def using namespace_owns_segments by blast
  then show "namespace_owns a b \<or> namespace_owns b a"
    using namespace_owns_segments prefix_same_cases by metis
next
  fix a b s :: string
  show "namespace_owns a b \<Longrightarrow> a \<le> b" by (auto simp: namespace_owns_iff prefix_le)
  show "plain_name s \<Longrightarrow> a \<le> s \<Longrightarrow> s \<le> b \<Longrightarrow> namespace_owns a b \<Longrightarrow> namespace_owns a s"
    unfolding namespace_owns_iff [of a b] using plain_between by (metis antisym namespace_owns_refl)
qed

text \<open>
  The pairwise condition on a list of roots, and the neighbour scan of the code: sort the roots
  and look at adjacent pairs.
\<close>

definition pairwise_disjoint :: "string list \<Rightarrow> bool" where
  "pairwise_disjoint roots \<longleftrightarrow> sorted_wrt (\<lambda>a b. \<not> namespaces_overlap a b) roots"

definition neighbours_disjoint :: "string list \<Rightarrow> bool" where
  "neighbours_disjoint roots \<longleftrightarrow>
     list_all (\<lambda>(a, b). \<not> namespaces_overlap a b) (windows2 (sort roots))"

lemma neighbours_disjoint_plain:
  "list_all plain_name roots \<Longrightarrow> neighbours_disjoint roots \<Longrightarrow> pairwise_disjoint (sort roots)"
  using namespace.neighbours_enough [of "sort roots"]
  by (simp add: neighbours_disjoint_def pairwise_disjoint_def namespaces_overlap_def list_all_iff)

lemma pairwise_disjoint_neighbours:
  "pairwise_disjoint (sort roots) \<Longrightarrow> neighbours_disjoint roots"
  by (auto simp: neighbours_disjoint_def pairwise_disjoint_def list_all_iff
      windows2_successively [symmetric] dest!: successively_if_sorted_wrt)

lemma overlap_sym: "namespaces_overlap a b \<longleftrightarrow> namespaces_overlap b a"
  by (auto simp: namespaces_overlap_def)

lemma pairwise_disjoint_iff:
  "pairwise_disjoint roots \<longleftrightarrow>
     distinct roots \<and> (\<forall>a \<in> set roots. \<forall>b \<in> set roots. a \<noteq> b \<longrightarrow> \<not> namespaces_overlap a b)"
proof (induction roots)
  case Nil
  then show ?case by (simp add: pairwise_disjoint_def)
next
  case (Cons r roots)
  have head: "pairwise_disjoint (r # roots) \<longleftrightarrow>
      (\<forall>b \<in> set roots. \<not> namespaces_overlap r b) \<and> pairwise_disjoint roots"
    by (simp add: pairwise_disjoint_def)
  have refl: "namespaces_overlap r r" by (simp add: namespaces_overlap_def)
  show ?case
  proof
    assume "pairwise_disjoint (r # roots)"
    with head Cons.IH have r: "\<forall>b \<in> set roots. \<not> namespaces_overlap r b" and d: "distinct roots"
      and rest: "\<forall>a \<in> set roots. \<forall>b \<in> set roots. a \<noteq> b \<longrightarrow> \<not> namespaces_overlap a b"
      by blast+
    have "\<not> namespaces_overlap a b" if "a \<in> set (r # roots)" "b \<in> set (r # roots)" "a \<noteq> b" for a b
      using that r rest overlap_sym [of a b] by (cases "a = r"; cases "b = r") auto
    moreover have "r \<notin> set roots" using r refl by blast
    ultimately show "distinct (r # roots) \<and> (\<forall>a \<in> set (r # roots). \<forall>b \<in> set (r # roots).
        a \<noteq> b \<longrightarrow> \<not> namespaces_overlap a b)" using d by simp
  next
    assume all: "distinct (r # roots) \<and> (\<forall>a \<in> set (r # roots). \<forall>b \<in> set (r # roots).
        a \<noteq> b \<longrightarrow> \<not> namespaces_overlap a b)"
    then have "\<not> namespaces_overlap r b" if "b \<in> set roots" for b using that by auto
    with all head Cons.IH show "pairwise_disjoint (r # roots)" by simp
  qed
qed

lemma pairwise_disjoint_sort: "pairwise_disjoint (sort roots) \<longleftrightarrow> pairwise_disjoint roots"
  by (simp add: pairwise_disjoint_iff)

section \<open>What the scan misses\<close>

text \<open>A name that goes on with a digit sorts between a name and the names it owns.\<close>

lemma sort_shadowed:
  assumes "digit c"
  shows "sort [a, a @ c # t, a @ ''::'' @ b] = [a, a @ c # t, a @ ''::'' @ b]"
proof -
  have "c < CHR '':''" using assms by (simp add: digit_def Let_def less_char_def)
  then have "a @ c # t \<le> a @ ''::'' @ b" by (induction a) (simp_all add: list_le_def)
  moreover have "a \<le> a @ u" for u :: string by (induction a) auto
  ultimately show ?thesis by (intro sort_key_id_if_sorted) simp
qed

lemma shadowed_not_owned:
  assumes "digit c"
  shows "\<not> namespaces_overlap a (a @ c # t)" "\<not> namespaces_overlap (a @ c # t) (a @ ''::'' @ b)"
proof -
  have "c \<noteq> CHR '':''" using assms by (auto simp: digit_def Let_def)
  then show "\<not> namespaces_overlap a (a @ c # t)" "\<not> namespaces_overlap (a @ c # t) (a @ ''::'' @ b)"
    by (auto simp: namespaces_overlap_def namespace_owns_iff)
qed

end
