(* ===== verification/Cedar.thy ===== *)
theory Cedar
  imports Json Namespaces
begin

text \<open>
  What the program sees of the \<open>cedar_policy\<close> crate.  The crate itself is not part of the
  repository: its parsers, its schema construction and its validator are the fields of the record
  \<open>cedar\<close>, an argument of every definition that calls them.  The structured policy
  representation is the datatype whose constructors the program matches on; constructors it
  ignores are \<open>EOther\<close>.
\<close>

record entity_uid =
  uid_type :: string
  uid_id :: string

datatype entity_or_slot = Entity entity_uid | Slot

datatype expr =
    ELiteral_uid entity_uid
  | EUnaryOp expr
  | EGetAttr expr
  | EHasAttr expr
  | ELike expr
  | EBinaryOp expr expr
  | EIs expr string "expr option"
  | EIfThenElse expr expr expr
  | ESet "expr list"
  | ERecord "(string \<times> expr) list"
  | EOther

datatype scope_constraint =
    ScopeAny
  | ScopeEq entity_or_slot
  | ScopeIn entity_or_slot
  | ScopeIs string
  | ScopeIsIn string entity_or_slot

datatype action_constraint = ActionAny | ActionEq entity_uid | ActionIn "entity_uid list"

datatype clause = When expr | Unless expr

record policy_body =
  pb_principal :: scope_constraint
  pb_action :: action_constraint
  pb_resource :: scope_constraint
  pb_clauses :: "clause list"

text \<open>
  A policy: its identifier, its text without the identifier (what Cedar itself evaluates and
  validates), its \<open>@id\<close> annotation, and \<open>to_pst()\<close>.
\<close>

record policy =
  p_id :: string
  p_text :: string
  p_annotation_id :: "string option"
  p_static :: bool
  p_pst :: "string + policy_body"

record policy_set =
  ps_templates :: nat
  ps_policies :: "policy list"

datatype validation_warning = InvalidActionApplication string | Other_warning string

record validation_result =
  vr_errors :: "string list"
  vr_warnings :: "validation_warning list"

text \<open>A built schema answers which entity types it declares and validates a policy set.\<close>

record schema =
  sc_entity_types :: "string list"
  sc_validate :: "policy_set \<Rightarrow> validation_result"

record fragment =
  fr_json :: "string + json"
  fr_schema :: "string + schema"

record cedar =
  cd_parse_name :: "string \<Rightarrow> (string \<times> string) option"
  cd_parse_policies :: "string \<Rightarrow> string + policy_set"
  cd_add_policy :: "policy_set \<Rightarrow> policy \<Rightarrow> string + policy_set"
  cd_schema_from_json :: "json \<Rightarrow> string + schema"
  cd_fragment_from_json :: "string \<Rightarrow> string + fragment"
  cd_fragment_from_cedar :: "string \<Rightarrow> string + (fragment \<times> string list)"

text \<open>
  \<open>value.parse::<EntityTypeName>()\<close> yields the namespace and the base name.  Its documented
  grammar is a hypothesis where a property needs it.
\<close>

definition names_documented :: "cedar \<Rightarrow> bool" where
  "names_documented C \<longleftrightarrow> (\<forall>s. cd_parse_name C s \<noteq> None \<longrightarrow> cedar_path s)"

end
