(* ===== verification/Manifest.thy ===== *)
theory Manifest
  imports Cedar
begin

text \<open>
  \<open>src/manifest.rs\<close>: loading the organization manifest and the project manifests it selects.
  The file system and the TOML decoder are parameters (\<open>source_env\<close>); everything the loader
  checks is modelled, in the order in which it reports.

  The lemmas characterise an accepted project manifest and an accepted set of modules, and say
  what the scan for overlapping namespaces does and does not guarantee.
\<close>

section \<open>Paths\<close>

text \<open>\<open>std::path\<close> on Unix: a path is a byte string, read as components.\<close>

datatype component = RootDir | CurDir | ParentDir | Normal string

fun split_slash :: "string \<Rightarrow> string list" where
  "split_slash [] = [[]]"
| "split_slash (c # s) =
     (if c = CHR ''/'' then [] # split_slash s
      else (case split_slash s of [] \<Rightarrow> [[c]] | p # ps \<Rightarrow> (c # p) # ps))"

definition is_absolute :: "string \<Rightarrow> bool" where
  "is_absolute p \<longleftrightarrow> starts_with p ''/''"

definition body_components :: "string list \<Rightarrow> component list" where
  "body_components parts =
     map (\<lambda>s. if s = ''..'' then ParentDir else Normal s)
       (filter (\<lambda>s. s \<noteq> [] \<and> s \<noteq> ''.'') parts)"

definition components :: "string \<Rightarrow> component list" where
  "components p =
     (if is_absolute p then RootDir # body_components (split_slash p)
      else (case split_slash p of
              s # parts \<Rightarrow> (if s = ''.'' then [CurDir] else []) @ body_components (s # parts)
            | [] \<Rightarrow> []))"

definition path_join :: "string \<Rightarrow> string \<Rightarrow> string" where
  "path_join dir p =
     (if is_absolute p then p
      else if dir = [] \<or> last dir = CHR ''/'' then dir @ p else dir @ ''/'' @ p)"

definition path_starts_with :: "string \<Rightarrow> string \<Rightarrow> bool" where
  "path_starts_with p base \<longleftrightarrow> prefix (components base) (components p)"

text \<open>
  The parent of a canonical path: the text before its last separator, or \<open>/\<close>; the root has none.
\<close>

definition path_parent :: "string \<Rightarrow> string option" where
  "path_parent p =
     (if filter (\<lambda>c. c \<noteq> RootDir) (components p) = [] then None
      else let dir = rev (drop 1 (dropWhile (\<lambda>c. c \<noteq> CHR ''/'') (rev p)))
           in Some (if dir = [] \<and> is_absolute p then ''/'' else dir))"

record file_system =
  fs_read :: "string \<Rightarrow> io_error + bytes"
  fs_canonicalize :: "string \<Rightarrow> io_error + string"
  fs_is_file :: "string \<Rightarrow> bool"
  fs_io_text :: "io_error \<Rightarrow> string"

section \<open>Manifest data\<close>

definition FORMAT_VERSION :: u32 where
  "FORMAT_VERSION = 2"

record raw_module_manifest =
  rm_format_version :: u32
  rm_name :: string
  rm_namespace :: string
  rm_imports :: "string list"
  rm_policies :: "string list"
  rm_schemas :: "string list"
  rm_labels :: "string list"

record module_manifest =
  mm_format_version :: u32
  mm_name :: string
  mm_namespace :: string
  mm_imports :: "string list"
  mm_policies :: "string list"
  mm_schemas :: "string list"
  mm_labels :: "string list"
  mm_path :: string
  mm_directory :: string

datatype module_role = Ordinary | Global

record raw_module_selection =
  rs_manifest :: string
  rs_role :: module_role

record module_selection =
  ms_manifest :: module_manifest
  ms_role :: module_role

record raw_bundle_manifest =
  rb_format_version :: u32
  rb_name :: string
  rb_modules :: "raw_module_selection list"

record bundle_manifest =
  bun_format_version :: u32
  bun_name :: string
  bun_modules :: "module_selection list"
  bun_path :: string

record source_env =
  se_fs :: file_system
  se_toml_module :: "string \<Rightarrow> string + raw_module_manifest"
  se_toml_bundle :: "string \<Rightarrow> string + raw_bundle_manifest"
  se_cedar :: cedar

definition input_path :: "module_manifest \<Rightarrow> string \<Rightarrow> string" where
  "input_path m relative = path_join (mm_directory m) relative"

section \<open>Checks\<close>

definition validate_namespace ::
  "cedar \<Rightarrow> string \<Rightarrow> string \<Rightarrow> diagnostic list \<Rightarrow> diagnostic list" where
  "validate_namespace C label value ds =
     (if is_blank value
      then ds @ [diag_error ''manifest.empty_namespace'' [Disp label, Lit '' must not be empty'']]
      else if cd_parse_name C value = None
      then ds @ [diag_error ''manifest.invalid_namespace''
                   [Disp label, Lit '' '', Dbg value, Lit '' is not a valid Cedar name'']]
      else ds)"

definition glob_chars :: "char set" where
  "glob_chars = {CHR ''*'', CHR ''?'', CHR ''['', CHR '']''}"

definition validate_input_path ::
  "file_system \<Rightarrow> string \<Rightarrow> string \<Rightarrow> diagnostic list \<Rightarrow> diagnostic list" where
  "validate_input_path F directory input ds =
     (if input = [] \<or> is_absolute input
         \<or> list_ex (\<lambda>c. c = ParentDir \<or> c = RootDir) (components input)
         \<or> list_ex (\<lambda>c. c \<in> glob_chars) input
      then ds @ [diag_error ''manifest.invalid_input_path''
                   [Lit ''module input path '', Dbg input, Lit '' must be an explicit relative path'']]
      else case fs_canonicalize F (path_join directory input) of
        Inr canonical \<Rightarrow>
          if path_starts_with canonical directory \<and> fs_is_file F canonical then ds
          else ds @ [diag_error ''manifest.input_escape''
                       [Lit ''module input path '', Dbg input, Lit '' escapes the module directory'']]
      | Inl e \<Rightarrow>
          ds @ [diag_error ''manifest.input_unreadable''
                  [Lit ''module input path '', Dbg input, Lit '' cannot be resolved: '',
                   Disp (fs_io_text F e)]])"

fun check_import ::
  "cedar \<Rightarrow> string \<Rightarrow> string set \<times> diagnostic list \<Rightarrow> string set \<times> diagnostic list" where
  "check_import C imp (seen, ds) =
     (let ds = validate_namespace C ''module import'' imp ds;
          (new, seen) = hs_insert imp seen
      in (seen,
          if new then ds
          else ds @ [diag_error ''manifest.duplicate_import'' [Lit ''duplicate import '', Dbg imp]]))"

definition version_diagnostic :: "string \<Rightarrow> u32 \<Rightarrow> diagnostic" where
  "version_diagnostic kind v =
     diag_error ''manifest.unsupported_version''
       [Disp kind, Lit '' format_version '', Num (unat v), Lit '' is unsupported; expected '',
        Num (unat FORMAT_VERSION)]"

definition module_diagnostics ::
  "source_env \<Rightarrow> string \<Rightarrow> raw_module_manifest \<Rightarrow> diagnostic list" where
  "module_diagnostics E directory raw =
     (let ds = (if rm_format_version raw \<noteq> FORMAT_VERSION
                then [version_diagnostic ''module'' (rm_format_version raw)] else []);
          ds = (if is_blank (rm_name raw)
                then ds @ [diag_error ''manifest.empty_name'' [Lit ''module name must not be empty'']]
                else ds);
          ds = validate_namespace (se_cedar E) ''module namespace'' (rm_namespace raw) ds;
          ds = snd (fold (check_import (se_cedar E)) (rm_imports raw) ({}, ds));
          ds = (if rm_namespace raw \<in> set (rm_imports raw)
                then ds @ [diag_error ''manifest.self_import''
                             [Lit ''a module cannot import its own namespace'']]
                else ds)
      in fold (validate_input_path (se_fs E) directory)
           (rm_policies raw @ rm_schemas raw @ rm_labels raw) ds)"

definition module_from_path :: "source_env \<Rightarrow> string \<Rightarrow> bundle_error + module_manifest" where
  "module_from_path E requested =
     and_then (map_err (Io requested) (fs_read (se_fs E) requested)) (\<lambda>bytes.
     and_then (ensure (utf8_valid bytes) (Manifest_error requested [Utf8_error bytes])) (\<lambda>_.
     and_then (map_err (\<lambda>t. Manifest_error requested [Disp t]) (se_toml_module E bytes)) (\<lambda>raw.
     and_then (map_err (Io requested) (fs_canonicalize (se_fs E) requested)) (\<lambda>path.
     and_then (ok_or (invalid ''manifest.no_parent''
                 [Lit ''module manifest must have a parent directory'']) (path_parent path))
     (\<lambda>directory.
       let ds = module_diagnostics E directory raw in
       if ds = []
       then Inr \<lparr>mm_format_version = rm_format_version raw, mm_name = rm_name raw,
                 mm_namespace = rm_namespace raw, mm_imports = rm_imports raw,
                 mm_policies = rm_policies raw, mm_schemas = rm_schemas raw,
                 mm_labels = rm_labels raw, mm_path = path, mm_directory = directory\<rparr>
       else Inl (Validation (map (\<lambda>d. at_path requested (in_module (rm_name raw) d)) ds)))))))"

definition overlap_diagnostic :: "string \<Rightarrow> string \<Rightarrow> diagnostic" where
  "overlap_diagnostic a b =
     diag_error ''manifest.overlapping_namespaces''
       [Lit ''module namespace roots '', Dbg a, Lit '' and '', Dbg b, Lit '' overlap'']"

fun check_neighbours :: "string \<times> string \<Rightarrow> diagnostic list \<Rightarrow> diagnostic list" where
  "check_neighbours (a, b) ds =
     (if namespaces_overlap a b then ds @ [overlap_diagnostic a b] else ds)"

fun check_import_resolved ::
  "string set \<Rightarrow> module_selection \<times> string \<Rightarrow> diagnostic list \<Rightarrow> diagnostic list" where
  "check_import_resolved namespaces (m, imp) ds =
     (if imp \<in> namespaces then ds
      else ds @ [in_module (mm_name (ms_manifest m))
                   (diag_error ''manifest.unresolved_import''
                      [Lit ''import '', Dbg imp, Lit '' does not exactly match a selected module''])])"

abbreviation ms_name :: "module_selection \<Rightarrow> string" where
  "ms_name m \<equiv> mm_name (ms_manifest m)"

abbreviation ms_namespace :: "module_selection \<Rightarrow> string" where
  "ms_namespace m \<equiv> mm_namespace (ms_manifest m)"

definition validate_module_set ::
  "module_selection list \<Rightarrow> diagnostic list \<Rightarrow> diagnostic list" where
  "validate_module_set modules ds =
     (let ds = ds @ map (\<lambda>m. diag_error ''manifest.duplicate_module_name''
                               [Lit ''duplicate module name '', Dbg (ms_name m)])
                      (scan_repeats hs_insert ms_name {} modules);
          ds = fold check_neighbours (windows2 (sort (map ms_namespace modules))) ds;
          namespaces = set (map ms_namespace modules)
      in fold (check_import_resolved namespaces)
           (concat (map (\<lambda>m. map (Pair m) (mm_imports (ms_manifest m))) modules)) ds)"

section \<open>Loading the organization manifest\<close>

fun load_selection ::
  "source_env \<Rightarrow> string \<Rightarrow> module_selection list \<times> diagnostic list \<Rightarrow> raw_module_selection \<Rightarrow>
     bundle_error + module_selection list \<times> diagnostic list" where
  "load_selection E directory (modules, ds) selected =
     (if is_absolute (rs_manifest selected)
      then Inr (modules, ds @ [diag_error ''manifest.absolute_module_path''
             [Lit ''module manifest path '', Dbg (rs_manifest selected), Lit '' must be relative'']])
      else case module_from_path E (path_join directory (rs_manifest selected)) of
        Inr manifest \<Rightarrow> Inr (modules @ [\<lparr>ms_manifest = manifest, ms_role = rs_role selected\<rparr>], ds)
      | Inl (Validation nested) \<Rightarrow> Inr (modules, ds @ nested)
      | Inl e \<Rightarrow> Inl e)"

definition bundle_header_diagnostics :: "raw_bundle_manifest \<Rightarrow> diagnostic list" where
  "bundle_header_diagnostics raw =
     (if rb_format_version raw \<noteq> FORMAT_VERSION
      then [version_diagnostic ''bundle'' (rb_format_version raw)] else []) @
     (if is_blank (rb_name raw)
      then [diag_error ''manifest.empty_name'' [Lit ''bundle name must not be empty'']] else []) @
     (if rb_modules raw = []
      then [diag_error ''manifest.empty_modules'' [Lit ''bundle must select at least one module'']]
      else [])"

definition bundle_from_path :: "source_env \<Rightarrow> string \<Rightarrow> bundle_error + bundle_manifest" where
  "bundle_from_path E requested =
     and_then (map_err (Io requested) (fs_read (se_fs E) requested)) (\<lambda>bytes.
     and_then (ensure (utf8_valid bytes) (Manifest_error requested [Utf8_error bytes])) (\<lambda>_.
     and_then (map_err (\<lambda>t. Manifest_error requested [Disp t]) (se_toml_bundle E bytes)) (\<lambda>raw.
     and_then (map_err (Io requested) (fs_canonicalize (se_fs E) requested)) (\<lambda>path.
     and_then (ok_or (invalid ''manifest.no_parent''
                 [Lit ''bundle manifest must have a parent directory'']) (path_parent path))
     (\<lambda>directory.
     and_then (try_fold (load_selection E directory) ([], bundle_header_diagnostics raw)
                 (rb_modules raw))
     (\<lambda>(modules, ds).
       let ds = validate_module_set modules ds in
       if ds = []
       then Inr \<lparr>bun_format_version = rb_format_version raw, bun_name = rb_name raw,
                 bun_modules = sort_key ms_name modules, bun_path = path\<rparr>
       else Inl (Validation ds)))))))"

definition for_single_module :: "module_manifest \<Rightarrow> bundle_manifest" where
  "for_single_module m =
     \<lparr>bun_format_version = FORMAT_VERSION, bun_name = mm_name m,
      bun_modules = [\<lparr>ms_manifest = m, ms_role = Ordinary\<rparr>], bun_path = mm_path m\<rparr>"

section \<open>The checks as passes over the diagnostics\<close>

interpretation namespace_pass: diagnostic_pass "validate_namespace C label" for C label
  by unfold_locales (simp add: validate_namespace_def)

interpretation input_pass: diagnostic_pass "validate_input_path F directory" for F directory
  by unfold_locales (auto simp: validate_input_path_def split: sum.split)

interpretation neighbour_pass: diagnostic_pass check_neighbours
proof unfold_locales
  fix ab ds show "check_neighbours ab ds = ds @ check_neighbours ab []" by (cases ab) simp
qed

interpretation import_pass: diagnostic_pass "check_import_resolved namespaces" for namespaces
proof unfold_locales
  fix namespaces mi ds
  show "check_import_resolved namespaces mi ds = ds @ check_import_resolved namespaces mi []"
    by (cases mi) simp
qed

section \<open>What an accepted manifest satisfies\<close>

definition namespace_ok :: "cedar \<Rightarrow> string \<Rightarrow> bool" where
  "namespace_ok C s \<longleftrightarrow> \<not> is_blank s \<and> cd_parse_name C s \<noteq> None"

text \<open>
  An input is explicit and relative, and what it resolves to is a file at or below the module's
  directory.
\<close>

definition explicit_relative :: "string \<Rightarrow> bool" where
  "explicit_relative p \<longleftrightarrow>
     p \<noteq> [] \<and> \<not> is_absolute p \<and> ParentDir \<notin> set (components p) \<and> set p \<inter> glob_chars = {}"

definition input_ok :: "file_system \<Rightarrow> string \<Rightarrow> string \<Rightarrow> bool" where
  "input_ok F directory p \<longleftrightarrow>
     explicit_relative p \<and>
     (\<exists>canonical. fs_canonicalize F (path_join directory p) = Inr canonical \<and>
        path_starts_with canonical directory \<and> fs_is_file F canonical)"

definition module_ok :: "source_env \<Rightarrow> module_manifest \<Rightarrow> bool" where
  "module_ok E m \<longleftrightarrow>
     mm_format_version m = FORMAT_VERSION \<and> \<not> is_blank (mm_name m) \<and>
     namespace_ok (se_cedar E) (mm_namespace m) \<and>
     (\<forall>i \<in> set (mm_imports m). namespace_ok (se_cedar E) i) \<and> distinct (mm_imports m) \<and>
     mm_namespace m \<notin> set (mm_imports m) \<and>
     (\<forall>p \<in> set (mm_policies m @ mm_schemas m @ mm_labels m).
        input_ok (se_fs E) (mm_directory m) p)"

definition module_set_ok :: "module_selection list \<Rightarrow> bool" where
  "module_set_ok modules \<longleftrightarrow>
     distinct (map ms_name modules) \<and>
     neighbours_disjoint (map ms_namespace modules) \<and>
     (\<forall>m \<in> set modules. set (mm_imports (ms_manifest m)) \<subseteq> ms_namespace ` set modules)"

lemma RootDir_components: "\<not> is_absolute p \<Longrightarrow> RootDir \<notin> set (components p)"
  by (auto simp: components_def body_components_def split: list.splits if_splits)

lemma validate_namespace_Nil_iff: "validate_namespace C l s ds = [] \<longleftrightarrow> ds = [] \<and> namespace_ok C s"
  by (auto simp: validate_namespace_def namespace_ok_def)

lemma validate_input_path_Nil_iff:
  "validate_input_path F d p ds = [] \<longleftrightarrow> ds = [] \<and> input_ok F d p"
proof -
  have "(list_ex (\<lambda>c. c = ParentDir \<or> c = RootDir) (components p) \<longleftrightarrow> ParentDir \<in> set (components p))"
    if "\<not> is_absolute p" using RootDir_components [OF that] by (auto simp: list_ex_iff)
  moreover have "list_ex (\<lambda>c. c \<in> glob_chars) p \<longleftrightarrow> set p \<inter> glob_chars \<noteq> {}"
    by (auto simp: list_ex_iff)
  ultimately show ?thesis
    by (auto simp: validate_input_path_def input_ok_def explicit_relative_def split: sum.splits)
qed

lemma check_imports_Nil_iff:
  "snd (fold (check_import C) imps (seen, ds)) = [] \<longleftrightarrow>
     ds = [] \<and> (\<forall>i \<in> set imps. namespace_ok C i) \<and> distinct imps \<and> seen \<inter> set imps = {}"
proof (induction imps arbitrary: seen ds)
  case Nil
  then show ?case by simp
next
  case (Cons i imps)
  show ?case
    by (auto simp: hs_insert_def Cons.IH validate_namespace_Nil_iff Let_def)
qed

lemma module_diagnostics_Nil_iff:
  "module_diagnostics E dir raw = [] \<longleftrightarrow>
     rm_format_version raw = FORMAT_VERSION \<and> \<not> is_blank (rm_name raw) \<and>
     namespace_ok (se_cedar E) (rm_namespace raw) \<and>
     (\<forall>i \<in> set (rm_imports raw). namespace_ok (se_cedar E) i) \<and> distinct (rm_imports raw) \<and>
     rm_namespace raw \<notin> set (rm_imports raw) \<and>
     (\<forall>p \<in> set (rm_policies raw @ rm_schemas raw @ rm_labels raw). input_ok (se_fs E) dir p)"
  unfolding module_diagnostics_def Let_def input_pass.fold_run_Nil_iff validate_input_path_Nil_iff
  by (auto simp: check_imports_Nil_iff validate_namespace_Nil_iff split: if_splits)

lemma module_from_path_Inr:
  "module_from_path E path = Inr m \<Longrightarrow> module_ok E m"
  by (auto simp: module_from_path_def module_ok_def Let_def result_iff module_diagnostics_Nil_iff
      split: if_splits)

lemma all_errors_validate_namespace [simp]:
  "all_errors (validate_namespace C l s ds) = all_errors ds"
  by (simp add: validate_namespace_def)

lemma all_errors_check_imports [simp]:
  "all_errors (snd (fold (check_import C) imps (seen, ds))) = all_errors ds"
  by (induction imps arbitrary: seen ds) (simp_all add: hs_insert_def Let_def)

lemma all_errors_validate_inputs [simp]:
  "all_errors (fold (validate_input_path F dir) ps ds) = all_errors ds"
proof (induction ps arbitrary: ds)
  case (Cons p ps)
  have "all_errors (validate_input_path F dir p ds) = all_errors ds"
    by (simp add: validate_input_path_def split: sum.split)
  with Cons.IH show ?case by simp
qed simp

lemma all_errors_module_diagnostics: "all_errors (module_diagnostics E dir raw)"
  by (simp add: module_diagnostics_def Let_def version_diagnostic_def)

lemma module_from_path_Validation:
  assumes "module_from_path E path = Inl (Validation ds)"
  shows "ds \<noteq> [] \<and> all_errors ds"
  using assms all_errors_module_diagnostics
  by (auto simp: all_errors_map module_from_path_def result_iff map_err_def ok_or_def invalid_def Let_def ensure_def
      split: if_splits sum.splits option.splits)

lemma validate_module_set_Nil_iff:
  "validate_module_set modules ds = [] \<longleftrightarrow> ds = [] \<and> module_set_ok modules"
  by (auto simp: validate_module_set_def Let_def import_pass.fold_run_Nil_iff
      neighbour_pass.fold_run_Nil_iff hash_set.scan_repeats_empty_iff module_set_ok_def
      neighbours_disjoint_def list_all_iff split: if_splits prod.splits)

text \<open>Modules that overlap and pass, since a third one sorts between them.\<close>

lemma shadowed_accepted:
  assumes "mset (map ms_namespace modules) = mset [a, a @ c # t, a @ ''::'' @ b]" "digit c"
    and "distinct (map ms_name modules)"
    and "\<forall>m \<in> set modules. set (mm_imports (ms_manifest m)) \<subseteq> ms_namespace ` set modules"
  shows "validate_module_set modules [] = []"
proof -
  have "sort (map ms_namespace modules) = sort [a, a @ c # t, a @ ''::'' @ b]"
    using assms(1) by (metis properties_for_sort sorted_sort mset_sort)
  then have "neighbours_disjoint (map ms_namespace modules)"
    using sort_shadowed [OF assms(2)] shadowed_not_owned [OF assms(2)]
    by (simp add: neighbours_disjoint_def)
  then show ?thesis using assms(3,4) by (simp add: validate_module_set_Nil_iff module_set_ok_def)
qed
text \<open>With no diagnostics, the loaded modules are exactly the selected ones, in order.\<close>

definition selected_as ::
  "source_env \<Rightarrow> string \<Rightarrow> raw_module_selection \<Rightarrow> module_selection \<Rightarrow> bool" where
  "selected_as E directory r m \<longleftrightarrow>
     \<not> is_absolute (rs_manifest r) \<and>
     module_from_path E (path_join directory (rs_manifest r)) = Inr (ms_manifest m) \<and>
     ms_role m = rs_role r"

lemma load_selection_fold:
  "try_fold (load_selection E dir) (ms, ds) rs = Inr (ms', []) \<Longrightarrow>
     ds = [] \<and> (\<exists>new. ms' = ms @ new \<and> list_all2 (selected_as E dir) rs new)"
proof (induction rs arbitrary: ms ds)
  case Nil
  then show ?case by simp
next
  case (Cons r rs)
  then obtain ms1 ds1 where step: "load_selection E dir (ms, ds) r = Inr (ms1, ds1)"
    and rest: "try_fold (load_selection E dir) (ms1, ds1) rs = Inr (ms', [])"
    by (auto simp: result_iff)
  from Cons.IH [OF rest] obtain new where ds1: "ds1 = []" and ms': "ms' = ms1 @ new"
    and new: "list_all2 (selected_as E dir) rs new" by auto
  from step ds1 obtain manifest where "\<not> is_absolute (rs_manifest r)" "ds = []"
    and "module_from_path E (path_join dir (rs_manifest r)) = Inr manifest"
    and "ms1 = ms @ [\<lparr>ms_manifest = manifest, ms_role = rs_role r\<rparr>]"
    by (auto split: if_splits sum.splits bundle_error.splits dest: module_from_path_Validation)
  moreover from this have "selected_as E dir r \<lparr>ms_manifest = manifest, ms_role = rs_role r\<rparr>"
    by (simp add: selected_as_def)
  ultimately show ?case using ms' new
    by (intro conjI exI [of _ "\<lparr>ms_manifest = manifest, ms_role = rs_role r\<rparr> # new"]) auto
qed

lemma bundle_header_Nil_iff:
  "bundle_header_diagnostics raw = [] \<longleftrightarrow>
     rb_format_version raw = FORMAT_VERSION \<and> \<not> is_blank (rb_name raw) \<and> rb_modules raw \<noteq> []"
  by (auto simp: bundle_header_diagnostics_def)

text \<open>An accepted organization manifest.\<close>

definition bundle_ok :: "source_env \<Rightarrow> bundle_manifest \<Rightarrow> bool" where
  "bundle_ok E b \<longleftrightarrow>
     bun_format_version b = FORMAT_VERSION \<and> \<not> is_blank (bun_name b) \<and> bun_modules b \<noteq> [] \<and>
     sorted_wrt (<) (map ms_name (bun_modules b)) \<and>
     module_set_ok (bun_modules b) \<and>
     (\<forall>m \<in> set (bun_modules b). module_ok E (ms_manifest m))"

lemma module_set_ok_sort_key: "module_set_ok (sort_key f modules) \<longleftrightarrow> module_set_ok modules"
proof -
  have "mset (map g (sort_key f modules)) = mset (map g modules)" for g :: "module_selection \<Rightarrow> string"
    by simp
  then have "distinct (map ms_name (sort_key f modules)) \<longleftrightarrow> distinct (map ms_name modules)"
    and "sort (map ms_namespace (sort_key f modules)) = sort (map ms_namespace modules)"
    by (metis mset_eq_imp_distinct_iff, metis properties_for_sort sorted_sort mset_sort)
  then show ?thesis by (simp add: module_set_ok_def neighbours_disjoint_def)
qed

lemma bundle_from_path_Inr:
  assumes "bundle_from_path E requested = Inr b"
  shows "bundle_ok E b \<and>
    (\<exists>source raw directory loaded. fs_read (se_fs E) requested = Inr source \<and> utf8_valid source \<and>
       se_toml_bundle E source = Inr raw \<and> fs_canonicalize (se_fs E) requested = Inr (bun_path b) \<and>
       path_parent (bun_path b) = Some directory \<and>
       list_all2 (selected_as E directory) (rb_modules raw) loaded \<and>
       bun_modules b = sort_key ms_name loaded \<and> bun_name b = rb_name raw)"
proof -
  from assms obtain source raw directory loaded where
    src: "fs_read (se_fs E) requested = Inr source" "utf8_valid source" "se_toml_bundle E source = Inr raw"
      "fs_canonicalize (se_fs E) requested = Inr (bun_path b)"
    and dir: "path_parent (bun_path b) = Some directory"
    and load: "try_fold (load_selection E directory) ([], bundle_header_diagnostics raw)
                 (rb_modules raw) = Inr (loaded, [])"
    and set_ok: "module_set_ok loaded"
    and b: "bun_format_version b = rb_format_version raw" "bun_name b = rb_name raw"
      "bun_modules b = sort_key ms_name loaded"
    by (auto simp: bundle_from_path_def result_iff Let_def validate_module_set_Nil_iff split: if_splits)
  from load_selection_fold [OF load]
  have head: "bundle_header_diagnostics raw = []"
    and sel: "list_all2 (selected_as E directory) (rb_modules raw) loaded" by auto
  have "module_ok E (ms_manifest m)" if "m \<in> set loaded" for m
    using sel that by (auto simp: list_all2_conv_all_nth in_set_conv_nth selected_as_def
        dest!: module_from_path_Inr)
  moreover have "loaded \<noteq> []" using sel head by (auto simp: bundle_header_Nil_iff)
  moreover have "sorted_wrt (<) (map ms_name (sort_key ms_name loaded))"
    using set_ok module_set_ok_sort_key [of ms_name loaded]
    by (simp add: strict_sorted_iff module_set_ok_def)
  moreover have "sort_key ms_name loaded \<noteq> []"
    using \<open>loaded \<noteq> []\<close> by (metis set_empty set_sort)
  ultimately have "bundle_ok E b"
    using set_ok b head by (simp add: bundle_ok_def module_set_ok_sort_key bundle_header_Nil_iff)
  with src dir sel b show ?thesis by blast
qed

end
