(* ===== verification/Signing.thy ===== *)
theory Signing
  imports Manifest
begin

unbundle bit_operations_syntax

text \<open>
  \<open>src/signing.rs\<close>: signature metadata, signing and trusted keys, the trust store, and reading
  private keys.

  SHA-256, Ed25519, base64 and the PEM and DER decoders are other crates: they are the fields of
  the record \<open>crypto\<close>.  Keys and signatures are byte sequences.  The lemmas give the invariant of the
  trust store, what a verified signature means, and that a signature made with a key whose public
  key is in the store verifies.  The mode mask \<open>0o077\<close> is \<open>0x3F\<close>.
\<close>

record crypto =
  cr_sha256 :: "bytes \<Rightarrow> bytes"
  cr_b64_encode :: "bytes \<Rightarrow> string"
  cr_b64_decode :: "string \<Rightarrow> string + bytes"
  cr_signature_from_slice :: "bytes \<Rightarrow> string + bytes"
  cr_sign :: "bytes \<Rightarrow> bytes \<Rightarrow> bytes"
  cr_verifying_key :: "bytes \<Rightarrow> bytes"
  cr_verify_strict :: "bytes \<Rightarrow> bytes \<Rightarrow> bytes \<Rightarrow> bool"
  cr_is_weak :: "bytes \<Rightarrow> bool"
  cr_public_from_pem :: "string \<Rightarrow> string + bytes"
  cr_document_from_pem :: "string \<Rightarrow> string + (string \<times> bytes)"
  cr_key_from_der :: "bytes \<Rightarrow> string + bytes"
  cr_key_from_encrypted_der :: "bytes \<Rightarrow> bytes \<Rightarrow> string + bytes"

definition sha256_hex :: "crypto \<Rightarrow> bytes \<Rightarrow> string" where
  "sha256_hex X bytes = to_hex (cr_sha256 X bytes)"

definition SIGNATURE_DOMAIN :: bytes where
  "SIGNATURE_DOMAIN = ''treetop-bundle-signature-v1'' @ [CHR 0x00]"

definition PRIVATE_KEY_LABEL :: string where "PRIVATE_KEY_LABEL = ''PRIVATE KEY''"
definition ENCRYPTED_PRIVATE_KEY_LABEL :: string where
  "ENCRYPTED_PRIVATE_KEY_LABEL = ''ENCRYPTED PRIVATE KEY''"
definition MAX_PRIVATE_KEY_BYTES :: nat where "MAX_PRIVATE_KEY_BYTES = 1024 * 1024"

section \<open>Signature metadata\<close>

datatype signature_policy = AllowUnsigned | Required

definition signature_policy_from_str :: "string \<Rightarrow> bundle_error + signature_policy" where
  "signature_policy_from_str value =
     (if value = ''allow-unsigned'' then Inr AllowUnsigned
      else if value = ''required'' then Inr Required
      else Inl (Key [Lit ''unknown signature policy '', Dbg value,
                     Lit ''; expected allow-unsigned or required'']))"

record bundle_signature =
  bs_format_version :: u32
  bs_algorithm :: string
  bs_key_id :: string
  bs_signature :: string

definition validate_format :: "crypto \<Rightarrow> bundle_signature \<Rightarrow> bundle_error + unit" where
  "validate_format X s =
     and_then (ensure (bs_format_version s = FORMAT_VERSION)
       (Archive [Lit ''unsupported signature format version '', Num (unat (bs_format_version s))])) (\<lambda>_.
     and_then (ensure (bs_algorithm s = ''ed25519'')
       (Archive [Lit ''unsupported signature algorithm '', Dbg (bs_algorithm s)])) (\<lambda>_.
     and_then (map_err (\<lambda>e. Archive [Lit ''signature is not standard base64: '', Disp e])
       (cr_b64_decode X (bs_signature s))) (\<lambda>decoded.
     and_then (map_err (\<lambda>e. Archive [Lit ''malformed Ed25519 signature: '', Disp e])
       (cr_signature_from_slice X decoded)) (\<lambda>_. Inr ()))))"

definition signature_to_json :: "bundle_signature \<Rightarrow> json" where
  "signature_to_json s =
     JObject [(''format_version'', encode_uint (bs_format_version s)),
              (''algorithm'', JString (bs_algorithm s)), (''key_id'', JString (bs_key_id s)),
              (''signature'', JString (bs_signature s))]"

definition decode_signature :: "json \<Rightarrow> bundle_signature option" where
  "decode_signature v =
     (case decode_fields [''format_version'', ''algorithm'', ''key_id'', ''signature''] v of
        Some [f, a, k, s] \<Rightarrow>
          (case (required decode_uint f, required as_str a, required as_str k, required as_str s) of
             (Some version, Some algorithm, Some key, Some signature) \<Rightarrow>
               Some \<lparr>bs_format_version = version, bs_algorithm = algorithm, bs_key_id = key,
                     bs_signature = signature\<rparr>
           | _ \<Rightarrow> None)
      | _ \<Rightarrow> None)"

section \<open>Signing keys\<close>

text \<open>The key identifier is the hexadecimal digest of the public key bytes.\<close>

definition key_id :: "crypto \<Rightarrow> bytes \<Rightarrow> string" where
  "key_id X key = to_hex (cr_sha256 X key)"

definition sign_manifest :: "crypto \<Rightarrow> bytes \<Rightarrow> bytes \<Rightarrow> bundle_signature" where
  "sign_manifest X key manifest =
     \<lparr>bs_format_version = FORMAT_VERSION, bs_algorithm = ''ed25519'',
      bs_key_id = key_id X (cr_verifying_key X key),
      bs_signature = cr_b64_encode X (cr_sign X key (SIGNATURE_DOMAIN @ manifest))\<rparr>"

datatype private_key_document = Unencrypted bytes | Encrypted bytes

definition parse_private_key_pem :: "crypto \<Rightarrow> string \<Rightarrow> bundle_error + private_key_document" where
  "parse_private_key_pem X pem =
     and_then (map_err (\<lambda>e. Key [Lit ''invalid PKCS#8 private key PEM: '', Disp e])
                 (cr_document_from_pem X pem)) (\<lambda>(label, document).
       if label = ENCRYPTED_PRIVATE_KEY_LABEL then Inr (Encrypted document)
       else if label = PRIVATE_KEY_LABEL then Inr (Unencrypted document)
       else Inl (Key [Lit ''invalid PKCS#8 private key PEM label '', Dbg label]))"

definition from_pkcs8_document :: "crypto \<Rightarrow> bytes \<Rightarrow> bundle_error + bytes" where
  "from_pkcs8_document X document =
     map_err (\<lambda>e. Key [Lit ''invalid PKCS#8 Ed25519 private key: '', Disp e]) (cr_key_from_der X document)"

definition from_pkcs8_encrypted_document :: "crypto \<Rightarrow> bytes \<Rightarrow> bytes \<Rightarrow> bundle_error + bytes" where
  "from_pkcs8_encrypted_document X document password =
     map_err (\<lambda>e. Key [Lit ''invalid encrypted PKCS#8 Ed25519 private key: '', Disp e])
       (cr_key_from_encrypted_der X document password)"

definition from_pkcs8_pem :: "crypto \<Rightarrow> string \<Rightarrow> bundle_error + bytes" where
  "from_pkcs8_pem X pem =
     and_then (parse_private_key_pem X pem) (\<lambda>d.
       case d of Unencrypted document \<Rightarrow> from_pkcs8_document X document
       | Encrypted _ \<Rightarrow> Inl SigningKeyPasswordRequired)"

definition from_pkcs8_encrypted_pem :: "crypto \<Rightarrow> string \<Rightarrow> bytes \<Rightarrow> bundle_error + bytes" where
  "from_pkcs8_encrypted_pem X pem password =
     and_then (parse_private_key_pem X pem) (\<lambda>d.
       case d of Encrypted document \<Rightarrow> from_pkcs8_encrypted_document X document password
       | Unencrypted _ \<Rightarrow> Inl (Key [Lit ''invalid encrypted PKCS#8 Ed25519 private key: expected '',
                                    Dbg ENCRYPTED_PRIVATE_KEY_LABEL, Lit '' PEM label'']))"

definition from_pkcs8_pem_with_password :: "crypto \<Rightarrow> string \<Rightarrow> bytes \<Rightarrow> bundle_error + bytes" where
  "from_pkcs8_pem_with_password X pem password =
     and_then (parse_private_key_pem X pem) (\<lambda>d.
       case d of Encrypted document \<Rightarrow> from_pkcs8_encrypted_document X document password
       | Unencrypted document \<Rightarrow> from_pkcs8_document X document)"

text \<open>An open file: its metadata and what reading it to the end yields.\<close>

record metadata =
  md_is_file :: bool
  md_mode :: u32
  md_len :: u64

record open_file =
  of_metadata :: "io_error + metadata"
  of_contents :: "io_error + bytes"

definition read_take :: "nat \<Rightarrow> open_file \<Rightarrow> io_error + bytes" where
  "read_take n file = map_ok (take n) (of_contents file)"

definition invalid_utf8_error :: io_error where
  "invalid_utf8_error = Os_error ''stream did not contain valid UTF-8''"

definition read_to_string :: "nat \<Rightarrow> open_file \<Rightarrow> io_error + string" where
  "read_to_string n file =
     and_then (read_take n file) (\<lambda>b. and_then (ensure (utf8_valid b) invalid_utf8_error) (\<lambda>_. Inr b))"

type_synonym opener = "string \<Rightarrow> io_error + open_file"

definition key_too_large :: "string \<Rightarrow> bundle_error" where
  "key_too_large path =
     Key [Lit ''private key file '', Disp path, Lit '' exceeds '', Num MAX_PRIVATE_KEY_BYTES, Lit '' bytes'']"

definition read_private_key :: "opener \<Rightarrow> string \<Rightarrow> bundle_error + string" where
  "read_private_key open path =
     and_then (map_err (Io path) (open path)) (\<lambda>file.
     and_then (map_err (Io path) (of_metadata file)) (\<lambda>metadata.
     and_then (ensure (md_is_file metadata)
       (Key [Lit ''private key path '', Disp path, Lit '' is not a regular file''])) (\<lambda>_.
     and_then (ensure (md_mode metadata AND 0x3F = 0)
       (Key [Lit ''private key file '', Disp path, Lit '' is accessible by group or others''])) (\<lambda>_.
     and_then (ensure (unat (md_len metadata) \<le> MAX_PRIVATE_KEY_BYTES) (key_too_large path)) (\<lambda>_.
     and_then (map_err (Io path) (read_to_string (MAX_PRIVATE_KEY_BYTES + 1) file)) (\<lambda>pem.
     and_then (ensure (length pem \<le> MAX_PRIVATE_KEY_BYTES) (key_too_large path)) (\<lambda>_.
       Inr pem)))))))"

definition from_pkcs8_pem_file :: "crypto \<Rightarrow> opener \<Rightarrow> string \<Rightarrow> bundle_error + bytes" where
  "from_pkcs8_pem_file X open path = and_then (read_private_key open path) (from_pkcs8_pem X)"

definition from_pkcs8_encrypted_pem_file ::
  "crypto \<Rightarrow> opener \<Rightarrow> string \<Rightarrow> bytes \<Rightarrow> bundle_error + bytes" where
  "from_pkcs8_encrypted_pem_file X open path password =
     and_then (read_private_key open path) (\<lambda>pem. from_pkcs8_encrypted_pem X pem password)"

definition from_pkcs8_pem_file_with_password ::
  "crypto \<Rightarrow> opener \<Rightarrow> string \<Rightarrow> bytes \<Rightarrow> bundle_error + bytes" where
  "from_pkcs8_pem_file_with_password X open path password =
     and_then (read_private_key open path) (\<lambda>pem. from_pkcs8_pem_with_password X pem password)"

section \<open>Trusted keys\<close>

record trusted_key =
  tk_key_id :: string
  tk_key :: bytes

definition from_spki_pem :: "crypto \<Rightarrow> string \<Rightarrow> bundle_error + trusted_key" where
  "from_spki_pem X pem =
     and_then (map_err (\<lambda>e. Key [Lit ''invalid SPKI Ed25519 public key: '', Disp e])
                 (cr_public_from_pem X pem)) (\<lambda>key.
     and_then (ensure (\<not> cr_is_weak X key) (Key [Lit ''weak Ed25519 public keys are not accepted''])) (\<lambda>_.
       Inr \<lparr>tk_key_id = key_id X key, tk_key = key\<rparr>))"

definition from_spki_pem_file :: "crypto \<Rightarrow> file_system \<Rightarrow> string \<Rightarrow> bundle_error + trusted_key" where
  "from_spki_pem_file X F path =
     and_then (map_err (Io path) (fs_read F path)) (\<lambda>pem.
     and_then (ensure (utf8_valid pem) (Io path invalid_utf8_error)) (\<lambda>_. from_spki_pem X pem))"

definition trusted_verify :: "crypto \<Rightarrow> trusted_key \<Rightarrow> bytes \<Rightarrow> bytes \<Rightarrow> bundle_error + unit" where
  "trusted_verify X k manifest signature =
     ensure (cr_verify_strict X (tk_key k) (SIGNATURE_DOMAIN @ manifest) signature)
       (Archive [Lit ''invalid_signature''])"

type_synonym trust_store = "(string \<times> trusted_key) list"

definition trust_insert :: "trust_store \<Rightarrow> trusted_key \<Rightarrow> bundle_error + trust_store" where
  "trust_insert store key =
     (case map_of store (tk_key_id key) of
        Some existing \<Rightarrow>
          if tk_key existing \<noteq> tk_key key
          then Inl (Key [Lit ''duplicate key ID '', Disp (tk_key_id key),
                         Lit '' has different public key bytes''])
          else Inr store
      | None \<Rightarrow> Inr (bm_insert (tk_key_id key) key store))"

definition from_keys :: "trusted_key list \<Rightarrow> bundle_error + trust_store" where
  "from_keys keys = try_fold trust_insert [] keys"

definition trust_verify :: "crypto \<Rightarrow> trust_store \<Rightarrow> bytes \<Rightarrow> bundle_signature \<Rightarrow> bundle_error + string" where
  "trust_verify X store manifest s =
     and_then (validate_format X s) (\<lambda>_.
     and_then (ok_or (Archive [Lit ''untrusted_key'']) (map_of store (bs_key_id s))) (\<lambda>key.
     and_then (map_err (\<lambda>e. Archive [Lit ''signature is not standard base64: '', Disp e])
       (cr_b64_decode X (bs_signature s))) (\<lambda>bytes.
     and_then (map_err (\<lambda>e. Archive [Lit ''malformed Ed25519 signature: '', Disp e])
       (cr_signature_from_slice X bytes)) (\<lambda>signature.
     and_then (trusted_verify X key manifest signature) (\<lambda>_.
       Inr (tk_key_id key))))))"

section \<open>Private key files\<close>

lemma read_private_key_Inr:
  assumes "read_private_key open path = Inr pem"
  shows "\<exists>fl metadata. open path = Inr (fl :: open_file) \<and> of_metadata fl = Inr (metadata :: metadata) \<and>
    md_is_file metadata \<and> (\<forall>i < 6. \<not> bit (md_mode metadata) i) \<and> of_contents fl = Inr pem \<and>
    length pem \<le> 1048576 \<and> utf8_valid pem"
proof -
  from assms obtain fl :: open_file and metadata :: metadata and contents where
    f: "open path = Inr fl" "of_metadata fl = Inr metadata" "md_is_file metadata"
      "md_mode metadata AND 0x3F = 0" "of_contents fl = Inr contents"
      "pem = take (MAX_PRIVATE_KEY_BYTES + 1) contents" "utf8_valid pem" "length pem \<le> MAX_PRIVATE_KEY_BYTES"
    by (auto simp: read_private_key_def result_iff read_to_string_def read_take_def)
  have "\<not> bit (md_mode metadata) i" if "i < 6" for i
  proof -
    have "bit (0x3F :: u32) i" using that by (simp add: bit_numeral_rec eval_nat_numeral less_Suc_eq) auto
    moreover have "\<not> bit (md_mode metadata AND 0x3F) i" unfolding f(4) by simp
    ultimately show ?thesis by (simp add: bit_and_iff)
  qed
  moreover have "pem = contents" using f(6,8) by (auto simp: min_def split: if_splits)
  ultimately show ?thesis using f by (auto simp: MAX_PRIVATE_KEY_BYTES_def)
qed

section \<open>The trust store\<close>

definition trusted_key_ok :: "crypto \<Rightarrow> trusted_key \<Rightarrow> bool" where
  "trusted_key_ok X k \<longleftrightarrow> tk_key_id k = key_id X (tk_key k) \<and> \<not> cr_is_weak X (tk_key k)"

definition trust_ok :: "crypto \<Rightarrow> trust_store \<Rightarrow> bool" where
  "trust_ok X store \<longleftrightarrow> bm_wf store \<and> (\<forall>(i, k) \<in> set store. tk_key_id k = i \<and> trusted_key_ok X k)"

lemma from_spki_pem_ok: "from_spki_pem X pem = Inr k \<Longrightarrow> trusted_key_ok X k"
  by (auto simp: from_spki_pem_def result_iff trusted_key_ok_def)

lemma trust_ok_empty: "trust_ok X []"
  by (simp add: trust_ok_def)

lemma set_bm_insert_subset: "set (bm_insert k v m) \<subseteq> insert (k, v) (set m)"
  by (induction k v m rule: bm_insert.induct) auto

lemma trust_insert_ok:
  assumes "trust_ok X store" "trusted_key_ok X key" "trust_insert store key = Inr store'"
  shows "trust_ok X store'"
  using assms set_bm_insert_subset [of "tk_key_id key" key store]
  by (auto simp: trust_insert_def trust_ok_def bm_wf_insert split: option.splits if_splits)

definition trusted_bytes :: "trust_store \<Rightarrow> string \<Rightarrow> bytes option" where
  "trusted_bytes store i = map_option tk_key (map_of store i)"

lemma trust_insert_Inr_iff:
  assumes "bm_wf store"
  shows "(\<exists>store'. trust_insert store key = Inr store') \<longleftrightarrow>
      trusted_bytes store (tk_key_id key) \<in> {None, Some (tk_key key)}"
    and "trust_insert store key = Inr store' \<Longrightarrow>
      trusted_bytes store' = (trusted_bytes store)(tk_key_id key \<mapsto> tk_key key) \<and> bm_wf store'"
  using assms
  by (auto simp: trust_insert_def trusted_bytes_def fun_eq_iff map_of_bm_insert bm_wf_insert
      split: option.splits if_splits)

definition consistent_keys :: "(string \<Rightarrow> bytes option) \<Rightarrow> trusted_key list \<Rightarrow> bool" where
  "consistent_keys known keys \<longleftrightarrow>
     (\<forall>a \<in> set keys. known (tk_key_id a) \<in> {None, Some (tk_key a)} \<and>
        (\<forall>b \<in> set keys. tk_key_id a = tk_key_id b \<longrightarrow> tk_key a = tk_key b))"

lemma known_update_iff:
  assumes "known i \<in> {None, Some k}"
  shows "(known(i \<mapsto> k)) j \<in> {None, Some b} \<longleftrightarrow> known j \<in> {None, Some b} \<and> (j = i \<longrightarrow> b = k)"
  using assms by (cases "j = i") auto

lemma consistent_keys_Cons:
  assumes k: "known (tk_key_id key) \<in> {None, Some (tk_key key)}"
    and s1: "known1 = known(tk_key_id key \<mapsto> tk_key key)"
  shows "consistent_keys known1 keys \<longleftrightarrow> consistent_keys known (key # keys)"
proof -
  have "consistent_keys known1 keys \<longleftrightarrow>
      (\<forall>a \<in> set keys. known (tk_key_id a) \<in> {None, Some (tk_key a)} \<and>
         (tk_key_id a = tk_key_id key \<longrightarrow> tk_key a = tk_key key) \<and>
         (\<forall>b \<in> set keys. tk_key_id a = tk_key_id b \<longrightarrow> tk_key a = tk_key b))"
    unfolding consistent_keys_def s1 known_update_iff [where known = known, OF k] by blast
  also have "\<dots> \<longleftrightarrow> consistent_keys known (key # keys)"
  proof -
    have sym: "(\<forall>b \<in> set keys. tk_key_id key = tk_key_id b \<longrightarrow> tk_key key = tk_key b) \<longleftrightarrow>
        (\<forall>b \<in> set keys. tk_key_id b = tk_key_id key \<longrightarrow> tk_key b = tk_key key)" by metis
    show ?thesis unfolding consistent_keys_def set_simps ball_simps
      by (simp only: k sym simp_thms ball_conj_distrib) blast
  qed
  finally show ?thesis .
qed

lemma trust_inserts_Inr_iff:
  "bm_wf store \<Longrightarrow>
     (\<exists>store'. try_fold trust_insert store keys = Inr store') \<longleftrightarrow> consistent_keys (trusted_bytes store) keys"
proof (induction keys arbitrary: store)
  case Nil
  then show ?case by (simp add: consistent_keys_def)
next
  case (Cons key keys)
  show ?case
  proof (cases "trust_insert store key")
    case (Inl e)
    then show ?thesis using trust_insert_Inr_iff(1) [OF Cons.prems, of key] by (auto simp: consistent_keys_def)
  next
    case (Inr store1)
    note i = trust_insert_Inr_iff [OF Cons.prems]
    have k: "trusted_bytes store (tk_key_id key) \<in> {None, Some (tk_key key)}" using i(1) Inr by blast
    from i(2) [OF Inr] have s1: "trusted_bytes store1 = (trusted_bytes store)(tk_key_id key \<mapsto> tk_key key)"
      and wf: "bm_wf store1" by auto
    have "consistent_keys (trusted_bytes store1) keys \<longleftrightarrow> consistent_keys (trusted_bytes store) (key # keys)"
      by (rule consistent_keys_Cons [OF k s1])
    with Cons.IH [OF wf] Inr show ?thesis by simp
  qed
qed

lemma from_keys_Inr_iff:
  "(\<exists>store. from_keys keys = Inr store) \<longleftrightarrow>
     (\<forall>a \<in> set keys. \<forall>b \<in> set keys. tk_key_id a = tk_key_id b \<longrightarrow> tk_key a = tk_key b)"
  using trust_inserts_Inr_iff [of "[]" keys]
  by (auto simp: from_keys_def consistent_keys_def trusted_bytes_def)

lemma from_keys_ok:
  assumes "from_keys keys = Inr store" "\<forall>k \<in> set keys. trusted_key_ok X k"
  shows "trust_ok X store \<and> (\<forall>k \<in> set keys. trusted_bytes store (tk_key_id k) = Some (tk_key k)) \<and>
    (\<forall>i b. trusted_bytes store i = Some b \<longrightarrow> (\<exists>k \<in> set keys. tk_key_id k = i \<and> tk_key k = b))"
proof -
  have "trust_ok X store \<and> (\<forall>k \<in> set keys. trusted_bytes store (tk_key_id k) = Some (tk_key k)) \<and>
    (\<forall>i b. trusted_bytes store i = Some b \<longrightarrow> (\<exists>k \<in> set keys. tk_key_id k = i \<and> tk_key k = b))"
    using assms(1) unfolding from_keys_def
  proof (rule try_fold_history)
    show "trust_ok X [] \<and> (\<forall>k \<in> set []. trusted_bytes [] (tk_key_id k) = Some (tk_key k)) \<and>
      (\<forall>i b. trusted_bytes [] i = Some b \<longrightarrow> (\<exists>k \<in> set []. tk_key_id k = i \<and> tk_key k = b))"
      by (simp add: trust_ok_empty trusted_bytes_def)
  next
    fix pre :: "trusted_key list" and key :: trusted_key and s s'
    assume s: "trust_ok X s \<and> (\<forall>k \<in> set pre. trusted_bytes s (tk_key_id k) = Some (tk_key k)) \<and>
        (\<forall>i b. trusted_bytes s i = Some b \<longrightarrow> (\<exists>k \<in> set pre. tk_key_id k = i \<and> tk_key k = b))"
      and step: "trust_insert s key = Inr s'" and key: "key \<in> set keys"
    have wf: "bm_wf s" using s by (simp add: trust_ok_def)
    from trust_insert_Inr_iff(2) [OF wf step]
    have t: "trusted_bytes s' = (trusted_bytes s)(tk_key_id key \<mapsto> tk_key key)" by simp
    have k: "trusted_bytes s (tk_key_id key) \<in> {None, Some (tk_key key)}"
      using trust_insert_Inr_iff(1) [OF wf] step by blast
    have "trust_ok X s'" using trust_insert_ok [OF _ _ step] s key assms(2) by blast
    moreover have "\<forall>k \<in> set (pre @ [key]). trusted_bytes s' (tk_key_id k) = Some (tk_key k)"
      using s k unfolding t by auto
    moreover have "\<forall>i b. trusted_bytes s' i = Some b \<longrightarrow> (\<exists>k \<in> set (pre @ [key]). tk_key_id k = i \<and> tk_key k = b)"
      using s unfolding t by auto
    ultimately show "trust_ok X s' \<and> (\<forall>k \<in> set (pre @ [key]). trusted_bytes s' (tk_key_id k) = Some (tk_key k)) \<and>
      (\<forall>i b. trusted_bytes s' i = Some b \<longrightarrow> (\<exists>k \<in> set (pre @ [key]). tk_key_id k = i \<and> tk_key k = b))"
      by blast
  qed
  then show ?thesis .
qed

section \<open>Verification\<close>

text \<open>The signature bytes a well-formed signature document carries.\<close>

definition signature_bytes :: "crypto \<Rightarrow> bundle_signature \<Rightarrow> bytes option" where
  "signature_bytes X s =
     (case cr_b64_decode X (bs_signature s) of
        Inl _ \<Rightarrow> None
      | Inr b \<Rightarrow> (case cr_signature_from_slice X b of Inl _ \<Rightarrow> None | Inr sig \<Rightarrow> Some sig))"

definition format_ok :: "crypto \<Rightarrow> bundle_signature \<Rightarrow> bool" where
  "format_ok X s \<longleftrightarrow>
     bs_format_version s = FORMAT_VERSION \<and> bs_algorithm s = ''ed25519'' \<and> signature_bytes X s \<noteq> None"

lemma validate_format_Inr_iff: "validate_format X s = Inr u \<longleftrightarrow> format_ok X s"
  by (auto simp: validate_format_def result_iff format_ok_def signature_bytes_def split: sum.splits)

lemma trust_verify_Inr_iff:
  "trust_verify X store manifest s = Inr i \<longleftrightarrow>
     (\<exists>key sig. format_ok X s \<and> map_of store (bs_key_id s) = Some key \<and> signature_bytes X s = Some sig \<and>
        cr_verify_strict X (tk_key key) (SIGNATURE_DOMAIN @ manifest) sig \<and> i = tk_key_id key)"
  by (auto simp: trust_verify_def result_iff validate_format_Inr_iff trusted_verify_def signature_bytes_def
      split: sum.splits)

lemma trust_verify_Inl: "trust_verify X store manifest s = Inl e \<Longrightarrow> \<exists>msg. e = Archive msg"
  by (auto simp: trust_verify_def validate_format_def result_iff trusted_verify_def ok_or_def map_err_def
      ensure_def split: sum.splits option.splits if_splits)

text \<open>Documented behaviour of the crates: decoding undoes encoding, and a signature verifies.\<close>

definition crypto_documented :: "crypto \<Rightarrow> bool" where
  "crypto_documented X \<longleftrightarrow>
     (\<forall>b. cr_b64_decode X (cr_b64_encode X b) = Inr b) \<and>
     (\<forall>k m. cr_signature_from_slice X (cr_sign X k m) = Inr (cr_sign X k m)) \<and>
     (\<forall>k m. \<not> cr_is_weak X (cr_verifying_key X k) \<longrightarrow>
        cr_verify_strict X (cr_verifying_key X k) m (cr_sign X k m))"

lemma sign_manifest_format: "crypto_documented X \<Longrightarrow> format_ok X (sign_manifest X key manifest)"
  by (simp add: crypto_documented_def format_ok_def sign_manifest_def signature_bytes_def)

lemma sign_verify:
  assumes "crypto_documented X" "trust_ok X store"
    and "trusted_bytes store (key_id X (cr_verifying_key X key)) = Some (cr_verifying_key X key)"
  shows "trust_verify X store manifest (sign_manifest X key manifest) = Inr (key_id X (cr_verifying_key X key))"
proof -
  from assms(3) obtain k where k: "map_of store (key_id X (cr_verifying_key X key)) = Some k"
    "tk_key k = cr_verifying_key X key" by (auto simp: trusted_bytes_def)
  from map_of_SomeD [OF k(1)] assms(2) k(2)
  have "tk_key_id k = key_id X (cr_verifying_key X key)" "\<not> cr_is_weak X (cr_verifying_key X key)"
    unfolding trust_ok_def trusted_key_ok_def by fastforce+
  with k assms(1) sign_manifest_format [OF assms(1), of key manifest] show ?thesis
    by (simp add: trust_verify_Inr_iff sign_manifest_def crypto_documented_def signature_bytes_def)
qed

lemma decode_signature_sorted: "decode_signature (sort_json (signature_to_json s)) = Some s"
  by (simp add: decode_signature_def signature_to_json_def decode_fields_sort decode_encode_uint)

end
