(* ===== verification/Policies.thy ===== *)
theory Policies
  imports Manifest
begin

text \<open>
  \<open>src/validation.rs\<close>, policies: which entity types a policy mentions, whether the module that
  holds it may mention them, and the identifiers of the policies of a file.

  Specifications: \<open>mentions\<close> is the set of types that occur anywhere in a policy's scope and
  conditions, \<open>may_mention\<close> and \<open>policy_ok\<close> what a module may hold.
\<close>

record module_record =
  mr_name :: string
  mr_namespace :: string
  mr_imports :: "string list"
  mr_role :: module_role
  mr_policy_ids :: "string list"

section \<open>References of a policy\<close>

fun collect_entity_or_slot :: "entity_or_slot \<Rightarrow> string list \<Rightarrow> string list" where
  "collect_entity_or_slot (Entity uid) references = references @ [uid_type uid]"
| "collect_entity_or_slot Slot references = references"

fun collect_expr_references :: "expr \<Rightarrow> string list \<Rightarrow> string list" where
  "collect_expr_references (ELiteral_uid uid) references = references @ [uid_type uid]"
| "collect_expr_references (EUnaryOp e) references = collect_expr_references e references"
| "collect_expr_references (EGetAttr e) references = collect_expr_references e references"
| "collect_expr_references (EHasAttr e) references = collect_expr_references e references"
| "collect_expr_references (ELike e) references = collect_expr_references e references"
| "collect_expr_references (EBinaryOp l r) references =
     collect_expr_references r (collect_expr_references l references)"
| "collect_expr_references (EIs e ty in_expr) references =
     (let references = collect_expr_references e (references @ [ty])
      in case in_expr of None \<Rightarrow> references | Some i \<Rightarrow> collect_expr_references i references)"
| "collect_expr_references (EIfThenElse c t e) references =
     collect_expr_references e (collect_expr_references t (collect_expr_references c references))"
| "collect_expr_references (ESet es) references = fold collect_expr_references es references"
| "collect_expr_references (ERecord fs) references =
     fold (\<lambda>(_, e). collect_expr_references e) fs references"
| "collect_expr_references EOther references = references"

fun collect_scope :: "scope_constraint \<Rightarrow> string list \<Rightarrow> string list" where
  "collect_scope ScopeAny references = references"
| "collect_scope (ScopeEq v) references = collect_entity_or_slot v references"
| "collect_scope (ScopeIn v) references = collect_entity_or_slot v references"
| "collect_scope (ScopeIs ty) references = references @ [ty]"
| "collect_scope (ScopeIsIn ty v) references = collect_entity_or_slot v (references @ [ty])"

fun action_references :: "action_constraint \<Rightarrow> string list" where
  "action_references ActionAny = []"
| "action_references (ActionEq uid) = [uid_type uid]"
| "action_references (ActionIn uids) = map uid_type uids"

fun clause_expr :: "clause \<Rightarrow> expr" where
  "clause_expr (When e) = e"
| "clause_expr (Unless e) = e"

definition body_references :: "policy_body \<Rightarrow> string list" where
  "body_references b =
     (let references = collect_scope (pb_principal b) [];
          references = collect_scope (pb_resource b) references;
          references = references @ action_references (pb_action b)
      in fold (\<lambda>c. collect_expr_references (clause_expr c)) (pb_clauses b) references)"

section \<open>Ownership\<close>

definition check_owned_action ::
  "string \<Rightarrow> string \<Rightarrow> module_record \<Rightarrow> diagnostic list \<Rightarrow> diagnostic list" where
  "check_owned_action entity_type policy_id m ds =
     (if namespace_owns (mr_namespace m) entity_type then ds
      else ds @ [diag_error ''policy.action_namespace_violation''
                   [Lit ''ordinary policy '', Dbg policy_id, Lit '' constrains action type '',
                    Disp entity_type, Lit '' outside namespace '', Disp (mr_namespace m)]])"

definition check_action ::
  "action_constraint \<Rightarrow> string \<Rightarrow> module_record \<Rightarrow> diagnostic list \<Rightarrow> diagnostic list" where
  "check_action a policy_id m ds =
     (case a of
        ActionAny \<Rightarrow> ds @ [diag_error ''policy.action_unconstrained''
                             [Lit ''ordinary policy '', Dbg policy_id, Lit '' must constrain its actions'']]
      | ActionEq uid \<Rightarrow> check_owned_action (uid_type uid) policy_id m ds
      | ActionIn uids \<Rightarrow> fold (\<lambda>uid. check_owned_action (uid_type uid) policy_id m) uids ds)"

definition check_reference ::
  "string \<Rightarrow> module_record \<Rightarrow> string \<Rightarrow> diagnostic list \<Rightarrow> diagnostic list" where
  "check_reference policy_id m ref ds =
     (if \<not> namespace_owns (mr_namespace m) ref \<and> \<not> list_ex (\<lambda>i. namespace_owns i ref) (mr_imports m)
      then ds @ [diag_error ''policy.namespace_violation''
                   [Lit ''policy '', Dbg policy_id, Lit '' references '', Disp ref,
                    Lit '', outside namespace '', Disp (mr_namespace m), Lit '' and its imports'']]
      else ds)"

definition validate_policy_ownership ::
  "policy \<Rightarrow> string \<Rightarrow> module_record \<Rightarrow> diagnostic list \<Rightarrow> diagnostic list" where
  "validate_policy_ownership p policy_id m ds =
     (case p_pst p of
        Inl e \<Rightarrow> ds @ [diag_error ''policy.structured_representation''
                         [Lit ''policy '', Dbg policy_id,
                          Lit '' cannot be represented structurally: '', Disp e]]
      | Inr body \<Rightarrow>
          if mr_role m = Global then ds
          else fold (check_reference policy_id m) (body_references body)
                 (check_action (pb_action body) policy_id m ds))"

section \<open>The policies of one file\<close>

definition non_empty_id :: "policy \<Rightarrow> string option" where
  "non_empty_id p = (case p_annotation_id p of None \<Rightarrow> None | Some pid \<Rightarrow> if pid = [] then None else Some pid)"

definition not_static :: "policy_set \<Rightarrow> bool" where
  "not_static ps \<longleftrightarrow> ps_templates ps \<noteq> 0 \<or> list_ex (\<lambda>p. \<not> p_static p) (ps_policies ps)"

definition templates_diagnostic :: diagnostic where
  "templates_diagnostic =
     diag_error ''policy.templates_unsupported'' [Lit ''deployable bundles may contain only static policies'']"

definition missing_id_diagnostic :: diagnostic where
  "missing_id_diagnostic =
     diag_error ''policy.missing_id'' [Lit ''every bundled policy requires a non-empty @id annotation'']"

definition duplicate_id_diagnostic :: "string \<Rightarrow> diagnostic" where
  "duplicate_id_diagnostic pid = diag_error ''policy.duplicate_id'' [Lit ''duplicate policy @id '', Dbg pid]"

definition id_prefix_diagnostics :: "string \<Rightarrow> string \<Rightarrow> diagnostic list" where
  "id_prefix_diagnostics pid name =
     (if starts_with pid (name @ ''.'') then []
      else [diag_warning ''policy.id_prefix''
              [Lit ''policy @id '', Dbg pid, Lit '' should start with '', Dbg name,
               Lit '' followed by '', Lit [CHR 0x27, CHR ''.'', CHR 0x27]]])"

text \<open>The body of the loop over the policies: the module's ids, all ids so far, the diagnostics.\<close>

type_synonym id_state = "string list \<times> string list \<times> diagnostic list"

fun check_module_policy :: "module_record \<Rightarrow> string \<Rightarrow> policy \<Rightarrow> id_state \<Rightarrow> id_state" where
  "check_module_policy m path p (module_ids, all_ids, ds) =
     (let place = at_path path \<circ> in_module (mr_name m)
      in case non_empty_id p of
        None \<Rightarrow> (module_ids, all_ids, ds @ [place missing_id_diagnostic])
      | Some pid \<Rightarrow>
          (let (new, all_ids) = bs_insert pid all_ids;
               ds = (if new then ds else ds @ [place (duplicate_id_diagnostic pid)]);
               module_ids = module_ids @ [pid];
               ds = ds @ map place (id_prefix_diagnostics pid (mr_name m));
               start = length ds;
               ds = validate_policy_ownership p pid m ds
           in (module_ids, all_ids, take start ds @ map place (drop start ds))))"

fun validate_module_policies :: "policy_set \<Rightarrow> module_record \<Rightarrow> string \<Rightarrow> id_state \<Rightarrow> id_state" where
  "validate_module_policies ps m path (module_ids, all_ids, ds) =
     (let ds = (if not_static ps
                then ds @ [(at_path path \<circ> in_module (mr_name m)) templates_diagnostic] else ds)
      in fold (check_module_policy m path) (ps_policies ps) (module_ids, all_ids, ds))"

section \<open>Validation against a schema\<close>

fun schema_warning :: "validation_warning \<Rightarrow> diagnostic" where
  "schema_warning (InvalidActionApplication t) = diag_error ''policy.schema_validation'' [Disp t]"
| "schema_warning (Other_warning t) = diag_warning ''policy.schema_warning'' [Disp t]"

definition validate_policy_set :: "policy_set \<Rightarrow> schema \<Rightarrow> diagnostic list \<Rightarrow> diagnostic list" where
  "validate_policy_set ps S ds =
     (let result = sc_validate S ps
      in ds @ map (\<lambda>e. diag_error ''policy.schema_validation'' [Disp e]) (vr_errors result) @
         map schema_warning (vr_warnings result))"

section \<open>Specification\<close>

fun entity_mentions :: "entity_or_slot \<Rightarrow> string set" where
  "entity_mentions (Entity uid) = {uid_type uid}"
| "entity_mentions Slot = {}"

fun expr_mentions :: "expr \<Rightarrow> string set" where
  "expr_mentions (ELiteral_uid uid) = {uid_type uid}"
| "expr_mentions (EUnaryOp e) = expr_mentions e"
| "expr_mentions (EGetAttr e) = expr_mentions e"
| "expr_mentions (EHasAttr e) = expr_mentions e"
| "expr_mentions (ELike e) = expr_mentions e"
| "expr_mentions (EBinaryOp l r) = expr_mentions l \<union> expr_mentions r"
| "expr_mentions (EIs e ty i) = {ty} \<union> expr_mentions e \<union> (\<Union>x \<in> set_option i. expr_mentions x)"
| "expr_mentions (EIfThenElse c t e) = expr_mentions c \<union> expr_mentions t \<union> expr_mentions e"
| "expr_mentions (ESet es) = (\<Union>e \<in> set es. expr_mentions e)"
| "expr_mentions (ERecord fs) = (\<Union>(_, e) \<in> set fs. expr_mentions e)"
| "expr_mentions EOther = {}"

fun scope_mentions :: "scope_constraint \<Rightarrow> string set" where
  "scope_mentions ScopeAny = {}"
| "scope_mentions (ScopeEq v) = entity_mentions v"
| "scope_mentions (ScopeIn v) = entity_mentions v"
| "scope_mentions (ScopeIs ty) = {ty}"
| "scope_mentions (ScopeIsIn ty v) = {ty} \<union> entity_mentions v"

definition mentions :: "policy_body \<Rightarrow> string set" where
  "mentions b =
     scope_mentions (pb_principal b) \<union> scope_mentions (pb_resource b) \<union>
     set (action_references (pb_action b)) \<union> (\<Union>c \<in> set (pb_clauses b). expr_mentions (clause_expr c))"

definition may_mention :: "module_record \<Rightarrow> string \<Rightarrow> bool" where
  "may_mention m ty \<longleftrightarrow> (\<exists>root \<in> insert (mr_namespace m) (set (mr_imports m)). namespace_owns root ty)"

definition policy_ok :: "module_record \<Rightarrow> policy \<Rightarrow> bool" where
  "policy_ok m p \<longleftrightarrow>
     (\<exists>body. p_pst p = Inr body \<and>
        (mr_role m = Ordinary \<longrightarrow>
           pb_action body \<noteq> ActionAny \<and>
           (\<forall>ty \<in> set (action_references (pb_action body)). namespace_owns (mr_namespace m) ty) \<and>
           (\<forall>ty \<in> mentions body. may_mention m ty)))"

section \<open>The collected references are the mentioned types\<close>

lemma set_collect_entity: "set (collect_entity_or_slot v rs) = set rs \<union> entity_mentions v"
  by (cases v) auto

lemma set_collect_scope: "set (collect_scope s rs) = set rs \<union> scope_mentions s"
  by (cases s) (auto simp: set_collect_entity)

lemma set_fold_collect:
  "(\<And>x rs. x \<in> set xs \<Longrightarrow> set (f x rs) = set rs \<union> g x) \<Longrightarrow> set (fold f xs rs) = set rs \<union> (\<Union>x \<in> set xs. g x)"
  by (induction xs arbitrary: rs) auto

lemma set_collect_expr: "set (collect_expr_references e rs) = set rs \<union> expr_mentions e"
proof (induction e arbitrary: rs)
  case (EIs e ty i)
  then show ?case by (cases i) (auto simp: Let_def)
next
  case (ESet es)
  then show ?case by (simp add: set_fold_collect)
next
  case (ERecord fs)
  have "set (fold (\<lambda>(_, e). collect_expr_references e) fs rs) =
      set rs \<union> (\<Union>x \<in> set fs. expr_mentions (snd x))"
    by (rule set_fold_collect) (use ERecord in \<open>fastforce split: prod.splits\<close>)
  then show ?case by (auto simp: case_prod_beta)
qed auto

lemma set_body_references: "set (body_references b) = mentions b"
  by (auto simp: body_references_def mentions_def Let_def set_fold_collect set_collect_expr
      set_collect_scope)

section \<open>The ownership check\<close>

interpretation action_pass: diagnostic_pass "\<lambda>uid. check_owned_action (uid_type uid) policy_id m" for policy_id m
  by unfold_locales (simp add: check_owned_action_def)

interpretation reference_pass: diagnostic_pass "check_reference policy_id m" for policy_id m
  by unfold_locales (simp add: check_reference_def)

lemma check_action_append: "check_action a i m ds = ds @ check_action a i m []"
  by (cases a) (simp_all add: check_action_def check_owned_action_def action_pass.fold_run [of i m _ ds]
      action_pass.fold_run [of i m _ "[]"])

interpretation ownership_pass: diagnostic_pass "\<lambda>p. validate_policy_ownership p policy_id m" for policy_id m
proof unfold_locales
  fix p ds
  show "validate_policy_ownership p policy_id m ds = ds @ validate_policy_ownership p policy_id m []"
  proof (cases "p_pst p")
    case (Inr body)
    then show ?thesis
      using check_action_append [of "pb_action body" policy_id m ds]
      by (simp add: validate_policy_ownership_def reference_pass.fold_run)
  qed (simp add: validate_policy_ownership_def)
qed

lemma check_action_Nil_iff:
  "check_action a i m [] = [] \<longleftrightarrow>
     a \<noteq> ActionAny \<and> (\<forall>ty \<in> set (action_references a). namespace_owns (mr_namespace m) ty)"
  by (cases a) (auto simp: check_action_def check_owned_action_def action_pass.fold_run)

lemma check_reference_Nil_iff: "check_reference i m ref [] = [] \<longleftrightarrow> may_mention m ref"
  by (auto simp: check_reference_def may_mention_def list_ex_iff)

lemma validate_policy_ownership_Nil_iff:
  "validate_policy_ownership p i m [] = [] \<longleftrightarrow> policy_ok m p"
  using module_role.exhaust [of "mr_role m"]
  by (auto simp: validate_policy_ownership_def policy_ok_def reference_pass.fold_run_Nil_iff
      set_body_references check_action_Nil_iff check_reference_Nil_iff split: sum.split)

lemma all_errors_check_action: "all_errors (check_action a i m [])"
  by (cases a) (auto simp: check_action_def check_owned_action_def action_pass.fold_run all_errors_concat)

lemma all_errors_validate_policy_ownership: "all_errors (validate_policy_ownership p i m [])"
proof -
  have "all_errors (check_reference i m ref [])" for ref by (simp add: check_reference_def)
  then show ?thesis
    by (auto simp: validate_policy_ownership_def all_errors_check_action all_errors_concat
        reference_pass.fold_run [of i m _ "check_action _ _ _ _"] split: sum.split)
qed

section \<open>The policies of a file\<close>

abbreviation declared_ids :: "policy list \<Rightarrow> string list" where
  "declared_ids ps \<equiv> List.map_filter non_empty_id ps"

text \<open>What acceptable policies are, given the identifiers already taken.\<close>

definition policies_ok :: "module_record \<Rightarrow> string set \<Rightarrow> policy list \<Rightarrow> bool" where
  "policies_ok m taken ps \<longleftrightarrow>
     distinct (declared_ids ps) \<and> set (declared_ids ps) \<inter> taken = {} \<and>
     (\<forall>p \<in> set ps. non_empty_id p \<noteq> None \<and> policy_ok m p)"

lemma has_error_id_prefix [simp]: "\<not> has_error (id_prefix_diagnostics pid name)"
  by (simp add: id_prefix_diagnostics_def)

lemma placed_ownership:
  "take (length ds) (validate_policy_ownership p i m ds) @
     map place (drop (length ds) (validate_policy_ownership p i m ds)) =
   ds @ map place (validate_policy_ownership p i m [])"
  using ownership_pass.run_append [of p i m ds] by simp

lemma has_error_ownership [simp]:
  "has_error (validate_policy_ownership p i m []) \<longleftrightarrow> \<not> policy_ok m p"
  using all_errors_has_error [OF all_errors_validate_policy_ownership]
  by (simp add: validate_policy_ownership_Nil_iff)

lemma check_module_policy_eq:
  "check_module_policy m path p (mids, ids, ds) =
     (let place = at_path path \<circ> in_module (mr_name m)
      in case non_empty_id p of
        None \<Rightarrow> (mids, ids, ds @ [place missing_id_diagnostic])
      | Some pid \<Rightarrow>
          (mids @ [pid], bs_add pid ids,
           ds @ (if pid \<in> set ids then [place (duplicate_id_diagnostic pid)] else []) @
           map place (id_prefix_diagnostics pid (mr_name m)) @
           map place (validate_policy_ownership p pid m [])))"
  by (simp add: Let_def bs_insert_def placed_ownership split: option.split)

lemma has_error_placed [simp]: "has_error (map (at_path q \<circ> in_module n) ds) = has_error ds"
  by (rule has_error_map) simp

lemma map_filter_Cons: "List.map_filter f (x # xs) = (case f x of None \<Rightarrow> [] | Some y \<Rightarrow> [y]) @ List.map_filter f xs"
  by (simp add: List.map_filter_simps split: option.split)

lemma check_module_policies_spec:
  "fold (check_module_policy m path) ps (mids, ids, ds) = (mids', ids', ds') \<Longrightarrow>
     mids' = mids @ declared_ids ps \<and> ids' = fold bs_add (declared_ids ps) ids \<and>
     (has_error ds' \<longleftrightarrow> has_error ds \<or> \<not> policies_ok m (set ids) ps)"
proof (induction ps arbitrary: mids ids ds)
  case Nil
  then show ?case by (simp add: policies_ok_def List.map_filter_simps)
next
  case (Cons p ps)
  show ?case
  proof (cases "non_empty_id p")
    case None
    with Cons.prems Cons.IH show ?thesis
      by (fastforce simp: check_module_policy_eq missing_id_diagnostic_def policies_ok_def map_filter_Cons
          simp del: check_module_policy.simps)
  next
    case (Some pid)
    define new where "new = (if pid \<in> set ids
        then [(at_path path \<circ> in_module (mr_name m)) (duplicate_id_diagnostic pid)] else []) @
      map (at_path path \<circ> in_module (mr_name m)) (id_prefix_diagnostics pid (mr_name m)) @
      map (at_path path \<circ> in_module (mr_name m)) (validate_policy_ownership p pid m [])"
    have "fold (check_module_policy m path) ps (mids @ [pid], bs_add pid ids, ds @ new) = (mids', ids', ds')"
      using Cons.prems Some
      by (simp add: check_module_policy_eq new_def Let_def del: check_module_policy.simps)
    note IH = Cons.IH [OF this]
    have "has_error new \<longleftrightarrow> pid \<in> set ids \<or> \<not> policy_ok m p"
      by (simp add: new_def duplicate_id_diagnostic_def)
    moreover have "policies_ok m (set ids) (p # ps) \<longleftrightarrow>
        pid \<notin> set ids \<and> policy_ok m p \<and> policies_ok m (insert pid (set ids)) ps"
      using Some by (auto simp: policies_ok_def map_filter_Cons)
    ultimately show ?thesis using IH Some by (auto simp: map_filter_Cons)
  qed
qed

lemma validate_module_policies_spec:
  assumes "validate_module_policies ps m path (mids, ids, ds) = (mids', ids', ds')"
  shows "mids' = mids @ declared_ids (ps_policies ps)"
    "ids' = fold bs_add (declared_ids (ps_policies ps)) ids"
    "has_error ds' \<longleftrightarrow>
       has_error ds \<or> not_static ps \<or> \<not> policies_ok m (set ids) (ps_policies ps)"
  using assms
  by (auto simp: Let_def templates_diagnostic_def dest: check_module_policies_spec split: if_splits)

end
