(* ===== verification/Schemas.thy ===== *)
theory Schemas
  imports Policies
begin

text \<open>
  \<open>src/validation.rs\<close>, schemas: reading a fragment, the namespaces it may declare, and merging the
  fragments of all modules into one JSON schema.

  Merging is three nested loops of the same shape: for each entry of the fragment, take the
  target's entry of that key, update it in place and perhaps report.  \<open>merge_entries\<close> is that
  loop, the locale \<open>keyed_merge\<close> its contract, interpreted at the three levels (declarations,
  fields of a namespace, namespaces).
\<close>

section \<open>Reading and ownership\<close>

definition parse_schema_fragment :: "cedar \<Rightarrow> string \<Rightarrow> string + (fragment \<times> diagnostic list)" where
  "parse_schema_fragment C source =
     (if starts_with (trim_start source) ''{''
      then map_ok (\<lambda>f. (f, [])) (cd_fragment_from_json C source)
      else map_ok (\<lambda>(f, warnings). (f, map (\<lambda>w. diag_warning ''schema.warning'' [Disp w]) warnings))
             (cd_fragment_from_cedar C source))"

definition validate_schema_ownership ::
  "json \<Rightarrow> string \<Rightarrow> string \<Rightarrow> string \<Rightarrow> diagnostic list \<Rightarrow> diagnostic list" where
  "validate_schema_ownership schema_json name namespace path ds =
     (case as_object schema_json of
        None \<Rightarrow> ds
      | Some namespaces \<Rightarrow>
          ds @ map (\<lambda>declared. (at_path path \<circ> in_module name)
                      (diag_error ''schema.namespace_violation''
                         [Lit ''schema namespace '', Dbg declared, Lit '' is outside module namespace '',
                          Dbg namespace]))
                 (filter (\<lambda>declared. \<not> namespace_owns namespace declared) (map fst namespaces)))"

definition validate_aggregate_schema_ownership ::
  "json \<Rightarrow> module_record list \<Rightarrow> diagnostic list \<Rightarrow> diagnostic list" where
  "validate_aggregate_schema_ownership schema_json modules ds =
     (case as_object schema_json of
        None \<Rightarrow> ds
      | Some namespaces \<Rightarrow>
          ds @ map (\<lambda>namespace. diag_error ''schema.namespace_violation''
                      [Lit ''schema namespace '', Dbg namespace, Lit '' is not owned by any module''])
                 (filter (\<lambda>namespace. \<not> list_ex (\<lambda>m. namespace_owns (mr_namespace m) namespace) modules)
                    (map fst namespaces)))"

section \<open>Merging maps entry by entry\<close>

definition merge_entries ::
  "('k \<Rightarrow> 'v option \<Rightarrow> 'w \<Rightarrow> 'd list \<Rightarrow> 'v \<times> 'd list) \<Rightarrow> ('k \<times> 'w) list \<Rightarrow>
     ('k \<times> 'v) list \<times> 'd list \<Rightarrow> ('k \<times> 'v) list \<times> 'd list" where
  "merge_entries step entries s =
     fold (\<lambda>(k, w) (m, ds). case step k (map_of m k) w ds of (u, ds') \<Rightarrow> (im_insert k u m, ds')) entries s"

locale keyed_merge =
  fixes step :: "'k \<Rightarrow> 'v option \<Rightarrow> 'w \<Rightarrow> 'd list \<Rightarrow> 'v \<times> 'd list"
    and merged :: "'k \<Rightarrow> 'v option \<Rightarrow> 'w \<Rightarrow> 'v"
    and reports :: "'k \<Rightarrow> 'v option \<Rightarrow> 'w \<Rightarrow> 'd list"
  assumes step_eq: "step k old w ds = (merged k old w, ds @ reports k old w)"
begin

lemma merge_append:
  "merge_entries step entries (m, ds) =
     (fst (merge_entries step entries (m, [])), ds @ snd (merge_entries step entries (m, [])))"
proof (induction entries rule: rev_induct)
  case Nil
  then show ?case by (simp add: merge_entries_def)
next
  case (snoc e entries)
  obtain k w where e: "e = (k, w)" by fastforce
  obtain m' ds' where "merge_entries step entries (m, []) = (m', ds')" by fastforce
  with snoc show ?case by (simp add: merge_entries_def step_eq e)
qed

lemma merge_list_all:
  "(\<And>k old w. list_all P (reports k old w)) \<Longrightarrow> list_all P ds \<Longrightarrow>
     list_all P (snd (merge_entries step entries (m, ds)))"
proof (induction entries arbitrary: m ds)
  case Nil
  then show ?case by (simp add: merge_entries_def)
next
  case (Cons e entries)
  obtain k w where e: "e = (k, w)" by fastforce
  have "list_all P (ds @ reports k (map_of m k) w)" using Cons.prems by simp
  from Cons.IH [OF Cons.prems(1) this, of "im_insert k (merged k (map_of m k) w) m"]
  show ?case by (simp add: merge_entries_def step_eq e)
qed

lemma merge_spec:
  assumes "distinct (map fst entries)" "merge_entries step entries (m, ds) = (m', ds')"
  shows "map_of m' k =
      (case map_of entries k of None \<Rightarrow> map_of m k | Some w \<Rightarrow> Some (merged k (map_of m k) w))"
    and "ds' = ds @ concat (map (\<lambda>(k, w). reports k (map_of m k) w) entries)"
    and "im_wf m \<Longrightarrow> im_wf m'"
    and "fst ` set m' = fst ` set m \<union> fst ` set entries"
proof -
  from assms have "map_of m' k =
      (case map_of entries k of None \<Rightarrow> map_of m k | Some w \<Rightarrow> Some (merged k (map_of m k) w)) \<and>
    ds' = ds @ concat (map (\<lambda>(k, w). reports k (map_of m k) w) entries) \<and>
    (im_wf m \<longrightarrow> im_wf m') \<and> fst ` set m' = fst ` set m \<union> fst ` set entries"
  proof (induction entries arbitrary: m ds)
    case Nil
    then show ?case by (simp add: merge_entries_def)
  next
    case (Cons e entries)
    obtain j w where e: "e = (j, w)" by fastforce
    let ?m = "im_insert j (merged j (map_of m j) w) m"
    have rest: "merge_entries step entries (?m, ds @ reports j (map_of m j) w) = (m', ds')"
      using Cons.prems(2) by (simp add: merge_entries_def e step_eq)
    have same: "map (\<lambda>(k, w). reports k (map_of ?m k) w) entries =
        map (\<lambda>(k, w). reports k (map_of m k) w) entries"
      using Cons.prems(1) e by (force simp: map_of_im_insert)
    have fresh: "map_of entries j = None" using Cons.prems(1) e by (simp add: map_of_eq_None_iff)
    from Cons.IH [OF _ rest] Cons.prems(1) show ?case
      unfolding same using fresh
      by (auto simp: e map_of_im_insert im_wf_insert fst_set_im_insert split: option.splits)
  qed
  then show "map_of m' k =
      (case map_of entries k of None \<Rightarrow> map_of m k | Some w \<Rightarrow> Some (merged k (map_of m k) w))"
    and "ds' = ds @ concat (map (\<lambda>(k, w). reports k (map_of m k) w) entries)"
    and "im_wf m \<Longrightarrow> im_wf m'" and "fst ` set m' = fst ` set m \<union> fst ` set entries"
    by blast+
qed

end

section \<open>Merging schema fragments\<close>

text \<open>\<open>format!\<close>, \<open>in_module\<close> and \<open>at_path\<close> of the reports: the place is the function \<open>pl\<close>.\<close>

type_synonym place = "diagnostic \<Rightarrow> diagnostic"

definition declaration_step ::
  "place \<Rightarrow> string \<Rightarrow> string \<Rightarrow> string \<Rightarrow> json option \<Rightarrow> json \<Rightarrow> diagnostic list \<Rightarrow> json \<times> diagnostic list" where
  "declaration_step pl namespace field name old declaration ds =
     (declaration,
      if old \<noteq> None
      then ds @ [pl (diag_error ''schema.duplicate_declaration''
                       [Lit ''duplicate '', Disp field, Lit '' declaration '', Disp namespace, Lit ''::'',
                        Disp name])]
      else ds)"

definition is_section :: "string \<Rightarrow> bool" where
  "is_section field \<longleftrightarrow> field \<in> {''entityTypes'', ''actions'', ''commonTypes''}"

definition field_step ::
  "place \<Rightarrow> string \<Rightarrow> string \<Rightarrow> json option \<Rightarrow> json \<Rightarrow> diagnostic list \<Rightarrow> json \<times> diagnostic list" where
  "field_step pl namespace field old value ds =
     (if is_section field
      then (let target = (case old of None \<Rightarrow> JObject [] | Some t \<Rightarrow> t)
            in case as_object target of
                 None \<Rightarrow> (target, ds)
               | Some declarations \<Rightarrow>
                   (case as_object value of
                      None \<Rightarrow> (target, ds)
                    | Some new \<Rightarrow>
                        apfst JObject (merge_entries (declaration_step pl namespace field) new (declarations, ds))))
      else (case old of
              Some existing \<Rightarrow>
                (existing,
                 if \<not> json_eq existing value
                 then ds @ [pl (diag_error ''schema.duplicate_metadata''
                                  [Lit ''conflicting schema namespace field '', Disp namespace, Lit ''.'',
                                   Disp field])]
                 else ds)
            | None \<Rightarrow> (value, ds)))"

definition namespace_step ::
  "place \<Rightarrow> string \<Rightarrow> json option \<Rightarrow> json \<Rightarrow> diagnostic list \<Rightarrow> json \<times> diagnostic list" where
  "namespace_step pl namespace old definition' ds =
     (let target = (case old of None \<Rightarrow> JObject [] | Some t \<Rightarrow> t)
      in case as_object target of
           None \<Rightarrow> (target, ds)
         | Some target_fields \<Rightarrow>
             (case as_object definition' of
                None \<Rightarrow> (target, ds)
              | Some new \<Rightarrow> apfst JObject (merge_entries (field_step pl namespace) new (target_fields, ds))))"

definition merge_schema_fragment ::
  "json \<Rightarrow> json \<Rightarrow> string \<Rightarrow> string \<Rightarrow> diagnostic list \<Rightarrow> json \<times> diagnostic list" where
  "merge_schema_fragment target fragment name path ds =
     (case as_object target of
        None \<Rightarrow> (target, ds)
      | Some namespaces \<Rightarrow>
          (case as_object fragment of
             None \<Rightarrow> (target, ds)
           | Some new \<Rightarrow>
               apfst JObject (merge_entries (namespace_step (at_path path \<circ> in_module name)) new (namespaces, ds))))"

section \<open>The three levels\<close>

interpretation declarations: keyed_merge "declaration_step pl namespace field" "\<lambda>_ _ d. d"
  "\<lambda>name old d. snd (declaration_step pl namespace field name old d [])" for pl namespace field
  by unfold_locales (simp add: declaration_step_def)

interpretation fields: keyed_merge "field_step pl namespace"
  "\<lambda>f old v. fst (field_step pl namespace f old v [])" "\<lambda>f old v. snd (field_step pl namespace f old v [])"
  for pl namespace
proof unfold_locales
  fix f old v ds
  show "field_step pl namespace f old v ds =
      (fst (field_step pl namespace f old v []), ds @ snd (field_step pl namespace f old v []))"
    by (simp add: field_step_def Let_def apfst_def map_prod_def
        declarations.merge_append [of _ _ _ _ _ ds] split: option.split prod.split)
qed

interpretation namespaces: keyed_merge "namespace_step pl"
  "\<lambda>n old v. fst (namespace_step pl n old v [])" "\<lambda>n old v. snd (namespace_step pl n old v [])"
  for pl
proof unfold_locales
  fix n old v ds
  show "namespace_step pl n old v ds =
      (fst (namespace_step pl n old v []), ds @ snd (namespace_step pl n old v []))"
    by (simp add: namespace_step_def Let_def apfst_def map_prod_def
        fields.merge_append [of _ _ _ _ ds] split: option.split prod.split)
qed

section \<open>What a merge does\<close>

text \<open>
  A shaped schema is what \<open>SchemaFragment::to_json_value\<close> gives: namespaces are objects and their
  sections are objects of declarations.
\<close>

definition object_of :: "(string \<Rightarrow> json \<Rightarrow> bool) \<Rightarrow> json \<Rightarrow> bool" where
  "object_of ok v \<longleftrightarrow> (\<exists>m. v = JObject m \<and> im_wf m \<and> list_all (\<lambda>(k, w). ok k w) m)"

abbreviation section_shaped :: "json \<Rightarrow> bool" where
  "section_shaped \<equiv> object_of (\<lambda>_ _. True)"

abbreviation namespace_shaped :: "json \<Rightarrow> bool" where
  "namespace_shaped \<equiv> object_of (\<lambda>f v. is_section f \<longrightarrow> section_shaped v)"

abbreviation schema_shaped :: "json \<Rightarrow> bool" where
  "schema_shaped \<equiv> object_of (\<lambda>_. namespace_shaped)"

abbreviation old_get :: "json option \<Rightarrow> string \<Rightarrow> json option" where
  "old_get old k \<equiv> Option.bind old (\<lambda>v. json_get v k)"

definition old_declaration :: "json option \<Rightarrow> string \<Rightarrow> string \<Rightarrow> json option" where
  "old_declaration old f nm = Option.bind (old_get old f) (\<lambda>v. json_get v nm)"

lemma old_declaration_None [simp]: "old_declaration None f nm = None"
  by (simp add: old_declaration_def)

definition field_of :: "json \<Rightarrow> string \<Rightarrow> string \<Rightarrow> json option" where
  "field_of S namespace field = old_get (json_get S namespace) field"

definition declaration_of :: "json \<Rightarrow> string \<Rightarrow> string \<Rightarrow> string \<Rightarrow> json option" where
  "declaration_of S namespace field name = old_declaration (json_get S namespace) field name"

text \<open>The two fragments agree: no declaration twice, no metadata with two values.\<close>

definition compatible :: "json \<Rightarrow> json \<Rightarrow> bool" where
  "compatible T F \<longleftrightarrow>
     (\<forall>ns f nm. is_section f \<longrightarrow> declaration_of T ns f nm = None \<or> declaration_of F ns f nm = None) \<and>
     (\<forall>ns f a b. \<not> is_section f \<longrightarrow> field_of T ns f = Some a \<longrightarrow> field_of F ns f = Some b \<longrightarrow> json_eq a b)"

lemma json_get_JObject [simp]: "json_get (JObject m) k = map_of m k"
  by (simp add: json_get_def)

lemma object_ofE:
  assumes "object_of ok v"
  obtains m where "v = JObject m" "im_wf m" "\<And>k w. (k, w) \<in> set m \<Longrightarrow> ok k w"
  using assms by (auto simp: object_of_def list_all_iff)

lemma object_of_get: "object_of ok v \<Longrightarrow> json_get v k = Some w \<Longrightarrow> ok k w"
  by (auto elim!: object_ofE dest: map_of_SomeD)

lemma object_ofI: "im_wf m \<Longrightarrow> (\<And>k w. map_of m k = Some w \<Longrightarrow> ok k w) \<Longrightarrow> object_of ok (JObject m)"
  by (auto simp: object_of_def list_all_iff)

lemma concat_map_Nil_iff: "concat (map f xs) = [] \<longleftrightarrow> (\<forall>x \<in> set xs. f x = [])"
  by auto

lemma all_entries:
  "im_wf m \<Longrightarrow> (\<forall>(k, w) \<in> set m. P k w) \<longleftrightarrow> (\<forall>k w. map_of m k = Some w \<longrightarrow> P k w)"
  by auto

lemma reports_Nil_iff:
  "im_wf m \<Longrightarrow> [] @ concat (map (\<lambda>(k, w). g k w) m) = [] \<longleftrightarrow> (\<forall>k w. map_of m k = Some w \<longrightarrow> g k w = [])"
  using all_entries [of m "\<lambda>k w. g k w = []"] by (auto simp: concat_map_Nil_iff)

lemma obtain_target:
  assumes "\<And>o'. old = Some o' \<Longrightarrow> object_of ok o'"
  obtains t where "(case old of None \<Rightarrow> JObject [] | Some t \<Rightarrow> t) = JObject t" "im_wf t"
    "\<And>k. map_of t k = old_get old k" "\<And>k w. old_get old k = Some w \<Longrightarrow> ok k w"
proof (cases old)
  case None
  show ?thesis by (rule that [of "[]"]) (simp_all add: None)
next
  case (Some o')
  with assms obtain t where "o' = JObject t" "im_wf t" "\<And>k w. (k, w) \<in> set t \<Longrightarrow> ok k w"
    by (auto elim: object_ofE)
  with Some show ?thesis by (intro that [of t]) (auto dest: map_of_SomeD)
qed

text \<open>One entry of a namespace.\<close>

lemma section_merge:
  assumes f: "is_section f" and old: "\<And>o'. old = Some o' \<Longrightarrow> section_shaped o'" and v: "section_shaped v"
    and m: "field_step pl ns f old v [] = (r, ds)"
  shows "section_shaped r"
    and "json_get r nm = (case json_get v nm of None \<Rightarrow> old_get old nm | Some d \<Rightarrow> Some d)"
    and "ds = [] \<longleftrightarrow> (\<forall>nm. json_get v nm = None \<or> old_get old nm = None)"
proof -
  obtain t where t: "(case old of None \<Rightarrow> JObject [] | Some t \<Rightarrow> t) = JObject t" "im_wf t"
    "\<And>k. map_of t k = old_get old k"
    using obtain_target [OF old] by metis
  from v obtain new where new: "v = JObject new" "im_wf new" by (auto elim: object_ofE)
  obtain t' ds' where g: "merge_entries (declaration_step pl ns f) new (t, []) = (t', ds')" by fastforce
  with m f t new have r: "r = JObject t'" "ds = ds'" by (auto simp: field_step_def apfst_def)
  have d: "distinct (map fst new)" using new by simp
  note sp = declarations.merge_spec [OF d g]
  show "section_shaped r" using sp(3) t(2) by (auto simp: r intro: object_ofI)
  show "json_get r nm = (case json_get v nm of None \<Rightarrow> old_get old nm | Some d \<Rightarrow> Some d)"
    unfolding r new json_get_JObject sp(1) t(3) by (simp split: option.split)
  show "ds = [] \<longleftrightarrow> (\<forall>nm. json_get v nm = None \<or> old_get old nm = None)"
    unfolding r sp(2) reports_Nil_iff [OF new(2)] new(1) json_get_JObject t(3)
    by (auto simp: declaration_step_def)
qed

lemma metadata_merge:
  assumes "\<not> is_section f" "field_step pl ns f old v [] = (r, ds)"
  shows "r = (case old of None \<Rightarrow> v | Some e \<Rightarrow> e)"
    and "ds = [] \<longleftrightarrow> (\<forall>e. old = Some e \<longrightarrow> json_eq e v)"
  using assms by (auto simp: field_step_def split: option.splits if_splits)

text \<open>One namespace.\<close>

definition namespace_compatible :: "json option \<Rightarrow> json \<Rightarrow> bool" where
  "namespace_compatible old v \<longleftrightarrow>
     (\<forall>f nm. is_section f \<longrightarrow> old_declaration (Some v) f nm = None \<or> old_declaration old f nm = None) \<and>
     (\<forall>f a b. \<not> is_section f \<longrightarrow> old_get old f = Some a \<longrightarrow> json_get v f = Some b \<longrightarrow> json_eq a b)"

lemma compatible_iff:
  "compatible T F \<longleftrightarrow> (\<forall>n v. json_get F n = Some v \<longrightarrow> namespace_compatible (json_get T n) v)"
proof -
  have "declaration_of T ns f nm = None \<or> declaration_of F ns f nm = None \<longleftrightarrow>
      (\<forall>v. json_get F ns = Some v \<longrightarrow> old_declaration (Some v) f nm = None \<or> old_declaration (json_get T ns) f nm = None)"
    for ns f nm by (cases "json_get F ns") (simp_all add: declaration_of_def disj_commute)
  moreover have "(\<forall>a b. field_of T ns f = Some a \<longrightarrow> field_of F ns f = Some b \<longrightarrow> json_eq a b) \<longleftrightarrow>
      (\<forall>v. json_get F ns = Some v \<longrightarrow>
         (\<forall>a b. old_get (json_get T ns) f = Some a \<longrightarrow> json_get v f = Some b \<longrightarrow> json_eq a b))"
    for ns f by (cases "json_get F ns") (simp_all add: field_of_def)
  ultimately show ?thesis unfolding compatible_def namespace_compatible_def by meson
qed

lemma namespace_compatible_iff:
  "namespace_compatible old v \<longleftrightarrow>
     (\<forall>f w. json_get v f = Some w \<longrightarrow>
        (if is_section f then \<forall>nm. json_get w nm = None \<or> old_declaration old f nm = None
         else \<forall>a. old_get old f = Some a \<longrightarrow> json_eq a w))"
proof -
  have "(is_section f \<longrightarrow> (\<forall>nm. old_declaration (Some v) f nm = None \<or> old_declaration old f nm = None)) \<and>
      (\<not> is_section f \<longrightarrow> (\<forall>a b. old_get old f = Some a \<longrightarrow> json_get v f = Some b \<longrightarrow> json_eq a b)) \<longleftrightarrow>
      (\<forall>w. json_get v f = Some w \<longrightarrow>
         (if is_section f then \<forall>nm. json_get w nm = None \<or> old_declaration old f nm = None
          else \<forall>a. old_get old f = Some a \<longrightarrow> json_eq a w))" for f
    by (cases "json_get v f"; cases "is_section f") (simp_all add: old_declaration_def)
  note per = this [symmetric]
  show ?thesis unfolding namespace_compatible_def per by (simp only: all_conj_distrib imp_conjR all_simps) 
qed

text \<open>What a fragment's entry becomes, and what it reports: one level of the merge.\<close>

lemma namespace_step_lookup:
  assumes old: "\<And>o'. old = Some o' \<Longrightarrow> namespace_shaped o'" and v: "namespace_shaped v"
    and m: "namespace_step pl ns old v [] = (r, ds)"
  shows "\<exists>t. r = JObject t \<and> im_wf t"
    and "json_get r f = (case json_get v f of None \<Rightarrow> old_get old f
      | Some w \<Rightarrow> Some (fst (field_step pl ns f (old_get old f) w [])))"
    and "ds = [] \<longleftrightarrow> (\<forall>f w. json_get v f = Some w \<longrightarrow> snd (field_step pl ns f (old_get old f) w []) = [])"
proof -
  obtain t where t: "(case old of None \<Rightarrow> JObject [] | Some t \<Rightarrow> t) = JObject t" "im_wf t"
    "\<And>k. map_of t k = old_get old k"
    using obtain_target [OF old] by metis
  from v obtain new where new: "v = JObject new" "im_wf new" by (auto elim!: object_ofE)
  obtain t' ds' where g: "merge_entries (field_step pl ns) new (t, []) = (t', ds')" by fastforce
  with m t new have r: "r = JObject t'" "ds = ds'" by (auto simp: namespace_step_def apfst_def)
  have d: "distinct (map fst new)" using new by simp
  note sp = fields.merge_spec [OF d g]
  show "\<exists>t. r = JObject t \<and> im_wf t" using sp(3) t(2) r by blast
  show "json_get r f = (case json_get v f of None \<Rightarrow> old_get old f
      | Some w \<Rightarrow> Some (fst (field_step pl ns f (old_get old f) w [])))"
    unfolding r new json_get_JObject sp(1) t(3) by (rule refl)
  show "ds = [] \<longleftrightarrow> (\<forall>f w. json_get v f = Some w \<longrightarrow> snd (field_step pl ns f (old_get old f) w []) = [])"
    unfolding r sp(2) reports_Nil_iff [OF new(2)] new(1) json_get_JObject t(3) by (rule refl)
qed

lemma section_field:
  assumes "is_section f" "\<And>o'. old = Some o' \<Longrightarrow> section_shaped o'" "section_shaped w"
  shows "section_shaped (fst (field_step pl ns f old w []))"
    and "json_get (fst (field_step pl ns f old w [])) nm =
      (case json_get w nm of None \<Rightarrow> old_get old nm | Some d \<Rightarrow> Some d)"
    and "snd (field_step pl ns f old w []) = [] \<longleftrightarrow> (\<forall>nm. json_get w nm = None \<or> old_get old nm = None)"
proof -
  have step: "field_step pl ns f old w [] = (fst (field_step pl ns f old w []), snd (field_step pl ns f old w []))"
    by simp
  note m = section_merge [OF assms(1) assms(2) assms(3) step]
  show "section_shaped (fst (field_step pl ns f old w []))" by (rule m(1))
  show "json_get (fst (field_step pl ns f old w [])) nm =
      (case json_get w nm of None \<Rightarrow> old_get old nm | Some d \<Rightarrow> Some d)" by (rule m(2))
  show "snd (field_step pl ns f old w []) = [] \<longleftrightarrow> (\<forall>nm. json_get w nm = None \<or> old_get old nm = None)"
    by (rule m(3))
qed

lemma metadata_field:
  assumes "\<not> is_section f"
  shows "fst (field_step pl ns f old w []) = (case old of None \<Rightarrow> w | Some e \<Rightarrow> e)"
    and "snd (field_step pl ns f old w []) = [] \<longleftrightarrow> (\<forall>e. old = Some e \<longrightarrow> json_eq e w)"
  by (rule metadata_merge [OF assms prod.collapse [symmetric]])+

lemma namespace_merge:
  assumes old: "\<And>o'. old = Some o' \<Longrightarrow> namespace_shaped o'" and v: "namespace_shaped v"
    and m: "namespace_step pl ns old v [] = (r, ds)"
  shows "namespace_shaped r"
    and "is_section f \<Longrightarrow> old_declaration (Some r) f nm =
      (case old_declaration (Some v) f nm of None \<Rightarrow> old_declaration old f nm | Some d \<Rightarrow> Some d)"
    and "\<not> is_section f \<Longrightarrow> json_get r f =
      (case old_get old f of None \<Rightarrow> json_get v f | Some a \<Rightarrow> Some a)"
    and "ds = [] \<longleftrightarrow> namespace_compatible old v"
proof -
  note lk = namespace_step_lookup [OF old v m]
  have tok: "section_shaped w" if "is_section k" "old_get old k = Some w" for k w
    using that old object_of_get by (cases old) fastforce+
  have vok: "section_shaped w" if "is_section k" "json_get v k = Some w" for k w
    using object_of_get [OF v that(2)] that(1) by simp
  have sec: "section_shaped (fst (field_step pl ns f (old_get old f) w []))"
    "json_get (fst (field_step pl ns f (old_get old f) w [])) nm =
      (case json_get w nm of None \<Rightarrow> old_declaration old f nm | Some d \<Rightarrow> Some d)"
    "snd (field_step pl ns f (old_get old f) w []) = [] \<longleftrightarrow>
      (\<forall>nm. json_get w nm = None \<or> old_declaration old f nm = None)"
    if "is_section f" "json_get v f = Some w" for f w nm
    unfolding old_declaration_def by (rule section_field [OF that(1) tok [OF that(1)] vok [OF that]]; assumption)+
  have "section_shaped w" if "json_get r f = Some w" "is_section f" for f w
    using that lk(2) [of f] tok [of f] sec(1) [of f] by (auto split: option.splits)
  then show "namespace_shaped r" using lk(1) by (auto intro!: object_ofI)
  show "old_declaration (Some r) f nm =
      (case old_declaration (Some v) f nm of None \<Rightarrow> old_declaration old f nm | Some d \<Rightarrow> Some d)"
    if "is_section f"
    using lk(2) [of f] sec(2) [OF that] by (cases "json_get v f") (simp_all add: old_declaration_def)
  show "json_get r f = (case old_get old f of None \<Rightarrow> json_get v f | Some a \<Rightarrow> Some a)"
    if "\<not> is_section f"
    using lk(2) [of f] by (auto simp: metadata_field [OF that] split: option.split)
  have "snd (field_step pl ns f (old_get old f) w []) = [] \<longleftrightarrow>
      (if is_section f then \<forall>nm. json_get w nm = None \<or> old_declaration old f nm = None
       else \<forall>a. old_get old f = Some a \<longrightarrow> json_eq a w)" if "json_get v f = Some w" for f w
    using sec(3) [OF _ that] by (simp add: metadata_field)
  then show "ds = [] \<longleftrightarrow> namespace_compatible old v"
    by (simp only: lk(3) namespace_compatible_iff cong: imp_cong)
qed

text \<open>Merging only adds errors, and the merged schema does not depend on what was reported before.\<close>

lemma merge_all_errors:
  "all_errors (snd (declaration_step pl ns f nm old d []))"
  "all_errors (snd (field_step pl ns f old v []))"
  "all_errors (snd (namespace_step pl ns old v []))" if pl: "\<And>d. d_severity (pl d) = d_severity d"
proof -
  have d: "list_all (\<lambda>d. d_severity d = Error) (snd (declaration_step pl ns f nm old d []))"
    for ns f nm old d by (simp add: declaration_step_def pl)
  have f: "list_all (\<lambda>d. d_severity d = Error) (snd (field_step pl ns f old v []))" for ns f old v
    using declarations.merge_list_all [OF d, where ds = "[]"]
    by (auto simp: field_step_def Let_def pl split: option.split)
  have n: "list_all (\<lambda>d. d_severity d = Error) (snd (namespace_step pl ns old v []))" for ns old v
    using fields.merge_list_all [OF f, where ds = "[]"]
    by (auto simp: namespace_step_def Let_def split: option.split)
  from d f n show "all_errors (snd (declaration_step pl ns f nm old d []))"
    "all_errors (snd (field_step pl ns f old v []))"
    "all_errors (snd (namespace_step pl ns old v []))" by (simp_all add: all_errors_def)
qed

lemma merge_schema_fragment_append:
  assumes "merge_schema_fragment T F name path ds = (R, ds')"
  shows "\<exists>new. ds' = ds @ new \<and> all_errors new"
proof (cases "(as_object T, as_object F)")
  case (Pair t f)
  show ?thesis
  proof (cases t; cases f)
    fix t' f' assume "t = Some t'" "f = Some f'"
    let ?pl = "at_path path \<circ> in_module name"
    let ?new = "snd (merge_entries (namespace_step ?pl) f' (t', []))"
    have "all_errors ?new"
      unfolding all_errors_def
      using namespaces.merge_list_all [where P = "\<lambda>d. d_severity d = Error" and ds = "[]" and pl = ?pl and entries = f' and m = t']
        merge_all_errors(3) [of ?pl] by (simp add: all_errors_def)
    moreover have "ds' = ds @ ?new"
      using assms Pair \<open>t = Some t'\<close> \<open>f = Some f'\<close> namespaces.merge_append [of ?pl f' t' ds]
      by (auto simp: merge_schema_fragment_def)
    ultimately show ?thesis by blast
  qed (use assms Pair in \<open>auto simp: merge_schema_fragment_def\<close>)
qed

text \<open>The whole fragment.\<close>

lemma merge_fragment_lookup:
  assumes T: "schema_shaped T" and F: "schema_shaped F"
    and m: "merge_schema_fragment T F name path ds = (R, ds')"
  defines "step \<equiv> \<lambda>n v. namespace_step (at_path path \<circ> in_module name) n (json_get T n) v []"
  shows "\<exists>t. R = JObject t \<and> im_wf t"
    and "json_get R n = (case json_get F n of None \<Rightarrow> json_get T n | Some v \<Rightarrow> Some (fst (step n v)))"
    and "\<exists>new. ds' = ds @ new \<and> (new = [] \<longleftrightarrow> (\<forall>n v. json_get F n = Some v \<longrightarrow> snd (step n v) = []))"
proof -
  let ?pl = "at_path path \<circ> in_module name"
  obtain t where t: "T = JObject t" "im_wf t" using T by (auto elim: object_ofE)
  obtain new where new: "F = JObject new" "im_wf new" using F by (auto elim: object_ofE)
  obtain t' ds1 where g: "merge_entries (namespace_step ?pl) new (t, ds) = (t', ds1)" by fastforce
  with m t new have r: "R = JObject t'" "ds' = ds1" by (auto simp: merge_schema_fragment_def)
  have d: "distinct (map fst new)" using new by simp
  note sp = namespaces.merge_spec [OF d g]
  show "\<exists>t. R = JObject t \<and> im_wf t" using sp(3) t(2) r by blast
  show "json_get R n = (case json_get F n of None \<Rightarrow> json_get T n | Some v \<Rightarrow> Some (fst (step n v)))"
    unfolding r new json_get_JObject sp(1) t(1) step_def by (rule refl)
  have "ds' = ds @ concat (map (\<lambda>(n, v). snd (step n v)) new)"
    unfolding r sp(2) step_def t(1) json_get_JObject by (rule refl)
  moreover have "concat (map (\<lambda>(n, v). snd (step n v)) new) = [] \<longleftrightarrow>
      (\<forall>n v. json_get F n = Some v \<longrightarrow> snd (step n v) = [])"
    using reports_Nil_iff [OF new(2), of "\<lambda>n v. snd (step n v)"] by (simp add: new(1))
  ultimately show "\<exists>new. ds' = ds @ new \<and> (new = [] \<longleftrightarrow> (\<forall>n v. json_get F n = Some v \<longrightarrow> snd (step n v) = []))"
    by blast
qed

lemma merge_schema_fragment_spec:
  assumes T: "schema_shaped T" and F: "schema_shaped F"
    and m: "merge_schema_fragment T F name path ds = (R, ds')"
  shows "schema_shaped R"
    and "is_section f \<Longrightarrow> declaration_of R ns f nm =
      (case declaration_of F ns f nm of None \<Rightarrow> declaration_of T ns f nm | Some d \<Rightarrow> Some d)"
    and "\<not> is_section f \<Longrightarrow> field_of R ns f =
      (case field_of T ns f of None \<Rightarrow> field_of F ns f | Some a \<Rightarrow> Some a)"
    and "json_get R ns = None \<longleftrightarrow> json_get T ns = None \<and> json_get F ns = None"
    and "\<exists>new. ds' = ds @ new \<and> (new = [] \<longleftrightarrow> compatible T F)"
proof -
  define N where "N = (\<lambda>n v. namespace_step (at_path path \<circ> in_module name) n (json_get T n) v [])"
  have N_app: "N n v = namespace_step (at_path path \<circ> in_module name) n (json_get T n) v []" for n v
    by (simp only: N_def)
  note lk = merge_fragment_lookup [OF T F m, folded N_app]
  have step: "namespace_step (at_path path \<circ> in_module name) n (json_get T n) v [] = (fst (N n v), snd (N n v))"
    for n v by (simp add: N_def)
  have nm: "namespace_shaped (fst (N n v))"
    "is_section f \<Longrightarrow> old_declaration (Some (fst (N n v))) f nm =
      (case old_declaration (Some v) f nm of None \<Rightarrow> old_declaration (json_get T n) f nm | Some d \<Rightarrow> Some d)"
    "\<not> is_section f \<Longrightarrow> json_get (fst (N n v)) f =
      (case old_get (json_get T n) f of None \<Rightarrow> json_get v f | Some a \<Rightarrow> Some a)"
    "snd (N n v) = [] \<longleftrightarrow> namespace_compatible (json_get T n) v"
    if "json_get F n = Some v" for n v f nm
    using namespace_merge [OF object_of_get [OF T] object_of_get [OF F that] step [of n v]] by simp_all
  have "namespace_shaped w" if "json_get R n = Some w" for n w
    using that lk(2) [of n] object_of_get [OF T] nm(1) by (auto split: option.splits)
  then show "schema_shaped R" using lk(1) by (auto intro!: object_ofI)
  show "declaration_of R ns f nm =
      (case declaration_of F ns f nm of None \<Rightarrow> declaration_of T ns f nm | Some d \<Rightarrow> Some d)"
    if "is_section f"
    using nm(2) [OF _ that] by (cases "json_get F ns") (simp_all add: declaration_of_def lk(2) split: option.split)
  show "field_of R ns f = (case field_of T ns f of None \<Rightarrow> field_of F ns f | Some a \<Rightarrow> Some a)"
    if "\<not> is_section f"
    using nm(3) [OF _ that] by (cases "json_get F ns") (simp_all add: field_of_def lk(2) split: option.split)
  show "json_get R ns = None \<longleftrightarrow> json_get T ns = None \<and> json_get F ns = None"
    by (simp add: lk(2) split: option.split)
  show "\<exists>new. ds' = ds @ new \<and> (new = [] \<longleftrightarrow> compatible T F)"
    using lk(3) by (simp only: compatible_iff nm(4) cong: imp_cong)
qed

text \<open>\<open>R\<close> is the disjoint union of \<open>T\<close> and \<open>F\<close>.\<close>

definition merged_with :: "json \<Rightarrow> json \<Rightarrow> json \<Rightarrow> bool" where
  "merged_with T F R \<longleftrightarrow>
     schema_shaped R \<and> compatible T F \<and>
     (\<forall>ns f nm. is_section f \<longrightarrow> declaration_of R ns f nm =
        (case declaration_of F ns f nm of None \<Rightarrow> declaration_of T ns f nm | Some d \<Rightarrow> Some d)) \<and>
     (\<forall>ns f. \<not> is_section f \<longrightarrow> field_of R ns f =
        (case field_of T ns f of None \<Rightarrow> field_of F ns f | Some a \<Rightarrow> Some a)) \<and>
     (\<forall>ns. json_get R ns = None \<longleftrightarrow> json_get T ns = None \<and> json_get F ns = None)"

lemma merge_schema_fragment_silent:
  assumes "schema_shaped T" "schema_shaped F"
  shows "merge_schema_fragment T F name path ds = (R, ds) \<Longrightarrow> merged_with T F R"
  using merge_schema_fragment_spec [OF assms, of name path ds R ds]
  unfolding merged_with_def by simp

section \<open>Namespace ownership of a schema\<close>

definition declared_namespaces :: "json \<Rightarrow> string set" where
  "declared_namespaces S = (case S of JObject m \<Rightarrow> fst ` set m | _ \<Rightarrow> {})"

lemma declared_namespaces_get: "ns \<in> declared_namespaces S \<longleftrightarrow> json_get S ns \<noteq> None"
  by (cases S) (auto simp: declared_namespaces_def json_get_def map_of_eq_None_iff)

lemma has_error_all_errors_map:
  "(\<And>x. d_severity (f x) = Error) \<Longrightarrow> has_error (map f xs) \<longleftrightarrow> xs \<noteq> []"
  by (cases xs) auto

lemma validate_schema_ownership_iff:
  "has_error (validate_schema_ownership S name root path ds) \<longleftrightarrow>
     has_error ds \<or> (\<exists>ns \<in> declared_namespaces S. \<not> namespace_owns root ns)"
  by (cases S) (force simp: validate_schema_ownership_def as_object_def declared_namespaces_def
      has_error_all_errors_map filter_empty_conv)+

lemma validate_aggregate_schema_ownership_iff:
  "has_error (validate_aggregate_schema_ownership S modules ds) \<longleftrightarrow>
     has_error ds \<or>
     (\<exists>ns \<in> declared_namespaces S. \<forall>m \<in> set modules. \<not> namespace_owns (mr_namespace m) ns)"
  by (cases S) (force simp: validate_aggregate_schema_ownership_def as_object_def declared_namespaces_def
      has_error_all_errors_map filter_empty_conv list_ex_iff)+

end
