(* ===== verification/Labels.thy ===== *)
theory Labels
  imports Cedar
begin

text \<open>
  \<open>src/labels.rs\<close>, parsing part: the label document, its limits, its rules and their compiled
  patterns, and the combination of several documents.

  The regular-expression engine (\<open>regex_lib\<close>) and the label types of \<open>treetop_core\<close>
  (\<open>label_core\<close>) are parameters: a compiled expression is the predicate of the texts it matches,
  a compiled set the function to the indices of the expressions that match.
\<close>

section \<open>Limits\<close>

definition MAX_LABEL_RULES :: nat where "MAX_LABEL_RULES = 256"
definition MAX_PATTERNS_PER_RULE :: nat where "MAX_PATTERNS_PER_RULE = 1024"
definition MAX_TOTAL_PATTERNS :: nat where "MAX_TOTAL_PATTERNS = 4096"
definition MAX_REGEX_BYTES :: nat where "MAX_REGEX_BYTES = 16 * 1024"
definition MAX_TOTAL_REGEX_BYTES :: nat where "MAX_TOTAL_REGEX_BYTES = 1024 * 1024"
definition REGEX_SET_SIZE_LIMIT :: nat where "REGEX_SET_SIZE_LIMIT = 2 * 1024 * 1024"
definition REGEX_SET_DFA_SIZE_LIMIT :: nat where "REGEX_SET_DFA_SIZE_LIMIT = 1024 * 1024"
definition INDIVIDUAL_REGEX_THRESHOLD :: nat where "INDIVIDUAL_REGEX_THRESHOLD = 4"
definition INDIVIDUAL_REGEX_SIZE_LIMIT :: nat where
  "INDIVIDUAL_REGEX_SIZE_LIMIT = REGEX_SET_SIZE_LIMIT div INDIVIDUAL_REGEX_THRESHOLD"
definition INDIVIDUAL_REGEX_DFA_SIZE_LIMIT :: nat where
  "INDIVIDUAL_REGEX_DFA_SIZE_LIMIT = REGEX_SET_DFA_SIZE_LIMIT div INDIVIDUAL_REGEX_THRESHOLD"

section \<open>Data\<close>

record label_pattern =
  lp_name :: string
  lp_regex :: string

record raw_label_target =
  rt_resource_type :: string
  rt_attribute :: string

record raw_label_rule =
  rr_target :: raw_label_target
  rr_field :: string
  rr_patterns :: "label_pattern list"

record label_target =
  lt_resource_type :: string
  lt_attribute :: string

datatype attr_value = AString string | ASet "attr_value list" | AOther

record resource =
  res_attributes :: "string \<Rightarrow> attr_value option"

text \<open>\<open>Labeler::derive\<close> may panic, on an index out of bounds.\<close>

datatype 'a outcome = Panic | Value 'a

record labeler =
  lb_target :: label_target
  lb_derive :: "resource \<Rightarrow> attr_value option outcome"

record label_rule =
  lr_field :: string
  lr_patterns :: "label_pattern list"
  lr_runtime :: labeler

type_synonym label_set = "label_rule list"
type_synonym regex = "string \<Rightarrow> bool"
type_synonym regex_set = "string \<Rightarrow> nat list"

datatype compiled_patterns = Individual "regex list" | Set regex_set

record regex_lib =
  rx_build :: "nat \<Rightarrow> nat \<Rightarrow> string \<Rightarrow> string + regex"
  rx_build_set :: "nat \<Rightarrow> nat \<Rightarrow> string list \<Rightarrow> string + regex_set"

text \<open>
  \<open>LabelTarget::new(type, attribute)\<close> validates its arguments: \<open>Some\<close> is the text of its error.
  \<open>RegexLabeler::new\<close> makes the labeler of individually compiled patterns.
\<close>

record label_core =
  lc_target_error :: "string \<Rightarrow> string \<Rightarrow> string option"
  lc_target_json :: "label_target \<Rightarrow> json"
  lc_regex_labeler :: "label_target \<Rightarrow> string \<Rightarrow> (string \<times> regex) list \<Rightarrow> string + labeler"

record label_env =
  le_regex :: regex_lib
  le_core :: label_core
  le_json :: json_lib

abbreviation lr_target :: "label_rule \<Rightarrow> label_target" where
  "lr_target r \<equiv> lb_target (lr_runtime r)"

text \<open>\<open>LabelRule == LabelRule\<close> ignores the compiled labeler but for its target.\<close>

definition label_rule_eq :: "label_rule \<Rightarrow> label_rule \<Rightarrow> bool" where
  "label_rule_eq a b \<longleftrightarrow>
     lr_target a = lr_target b \<and> lr_field a = lr_field b \<and> lr_patterns a = lr_patterns b"

section \<open>Reading a document\<close>

definition decode_pattern :: "json \<Rightarrow> label_pattern option" where
  "decode_pattern v =
     (case decode_fields [''name'', ''regex''] v of
        Some [n, r] \<Rightarrow>
          (case (required as_str n, required as_str r) of
             (Some name, Some regex) \<Rightarrow> Some \<lparr>lp_name = name, lp_regex = regex\<rparr>
           | _ \<Rightarrow> None)
      | _ \<Rightarrow> None)"

definition decode_target :: "json \<Rightarrow> raw_label_target option" where
  "decode_target v =
     (case decode_fields [''resource_type'', ''attribute''] v of
        Some [t, a] \<Rightarrow>
          (case (required as_str t, required as_str a) of
             (Some ty, Some attr) \<Rightarrow> Some \<lparr>rt_resource_type = ty, rt_attribute = attr\<rparr>
           | _ \<Rightarrow> None)
      | _ \<Rightarrow> None)"

definition decode_rule :: "json \<Rightarrow> raw_label_rule option" where
  "decode_rule v =
     (case decode_fields [''target'', ''field'', ''patterns''] v of
        Some [t, f, p] \<Rightarrow>
          (case (required decode_target t, required as_str f, required (decode_vec decode_pattern) p) of
             (Some target, Some field, Some patterns) \<Rightarrow>
               Some \<lparr>rr_target = target, rr_field = field, rr_patterns = patterns\<rparr>
           | _ \<Rightarrow> None)
      | _ \<Rightarrow> None)"

definition total_patterns :: "label_pattern list list \<Rightarrow> nat" where
  "total_patterns pss = saturating_total (map length pss)"

definition total_regex_bytes :: "label_pattern list list \<Rightarrow> nat" where
  "total_regex_bytes pss = saturating_total (map (length \<circ> lp_regex) (concat pss))"

text \<open>
  \<open>validate_document_limits\<close> and \<open>validate_combined_limits\<close> are the same three tests on the
  patterns of the rules, with messages that name a document or the combined document.
\<close>

definition check_limits :: "string \<Rightarrow> label_pattern list list \<Rightarrow> bundle_error + unit" where
  "check_limits what pss =
     and_then (ensure (length pss \<le> MAX_LABEL_RULES)
       (invalid ''labels.too_many_rules''
          [Disp what, Lit '' contains more than '', Num MAX_LABEL_RULES, Lit '' rules''])) (\<lambda>_.
     and_then (ensure (total_patterns pss \<le> MAX_TOTAL_PATTERNS)
       (invalid ''labels.too_many_patterns''
          [Disp what, Lit '' contains more than '', Num MAX_TOTAL_PATTERNS, Lit '' patterns''])) (\<lambda>_.
     ensure (total_regex_bytes pss \<le> MAX_TOTAL_REGEX_BYTES)
       (invalid ''labels.regex_budget_exceeded''
          [Disp what, Lit '' regex sources exceed '', Num MAX_TOTAL_REGEX_BYTES, Lit '' total bytes''])))"

definition validate_document_limits :: "raw_label_rule list \<Rightarrow> bundle_error + unit" where
  "validate_document_limits raw = check_limits ''label document'' (map rr_patterns raw)"

definition validate_combined_limits :: "label_rule list \<Rightarrow> bundle_error + unit" where
  "validate_combined_limits rules = check_limits ''combined label document'' (map lr_patterns rules)"

section \<open>Compiling the patterns of a rule\<close>

definition compile_patterns :: "regex_lib \<Rightarrow> label_pattern list \<Rightarrow> string + compiled_patterns" where
  "compile_patterns R patterns =
     (if length patterns \<le> INDIVIDUAL_REGEX_THRESHOLD
      then map_ok Individual
             (try_map (\<lambda>p. rx_build R INDIVIDUAL_REGEX_SIZE_LIMIT INDIVIDUAL_REGEX_DFA_SIZE_LIMIT
                             (lp_regex p)) patterns)
      else map_ok Set
             (rx_build_set R REGEX_SET_SIZE_LIMIT REGEX_SET_DFA_SIZE_LIMIT (map lp_regex patterns)))"

text \<open>\<open>RegexSetLabeler::derive\<close>.\<close>

fun name_at :: "string list \<Rightarrow> nat \<Rightarrow> string option" where
  "name_at names i = (if i < length names then Some (names ! i) else None)"

definition regex_set_derive ::
  "string \<Rightarrow> string list \<Rightarrow> regex_set \<Rightarrow> resource \<Rightarrow> attr_value option outcome" where
  "regex_set_derive field names compiled resource =
     (case res_attributes resource field of
        Some (AString value) \<Rightarrow>
          (case those (map (name_at names) (compiled value)) of
             None \<Rightarrow> Panic
           | Some labels \<Rightarrow> Value (Some (ASet (map AString labels))))
      | _ \<Rightarrow> Value None)"

definition runtime_labeler ::
  "label_core \<Rightarrow> label_target \<Rightarrow> string \<Rightarrow> label_pattern list \<Rightarrow> compiled_patterns \<Rightarrow> string + labeler"
where
  "runtime_labeler L target field patterns compiled =
     (case compiled of
        Individual regexes \<Rightarrow> lc_regex_labeler L target field (zip (map lp_name patterns) regexes)
      | Set matches \<Rightarrow>
          Inr \<lparr>lb_target = target, lb_derive = regex_set_derive field (map lp_name patterns) matches\<rparr>)"

section \<open>Validating a document\<close>

definition rule_at :: "nat \<Rightarrow> message" where
  "rule_at i = [Lit ''labels['', Num i, Lit '']'']"

definition pattern_at :: "nat \<Rightarrow> nat \<Rightarrow> message" where
  "pattern_at i j = rule_at i @ [Lit ''.patterns['', Num j, Lit '']'']"

text \<open>The body of the loop over the patterns of rule \<open>i\<close>: names seen, still compilable, diagnostics.\<close>

fun check_pattern ::
  "nat \<Rightarrow> nat \<times> label_pattern \<Rightarrow> string set \<times> bool \<times> diagnostic list \<Rightarrow>
     string set \<times> bool \<times> diagnostic list" where
  "check_pattern i (j, p) (names, valid, ds) =
     (let ds = (if is_blank (lp_name p)
                then ds @ [diag_error ''labels.empty_pattern_name''
                             (pattern_at i j @ [Lit ''.name must not be empty''])] else ds);
          (new, names) = hs_insert (lp_name p) names;
          ds = (if new then ds
                else ds @ [diag_error ''labels.duplicate_pattern_name''
                             ([Lit ''duplicate pattern name '', Dbg (lp_name p), Lit '' in ''] @ rule_at i)])
      in if lp_regex p = []
         then (names, False, ds @ [diag_error ''labels.empty_regex''
                                     (pattern_at i j @ [Lit ''.regex must not be empty''])])
         else if length (lp_regex p) > MAX_REGEX_BYTES
         then (names, False, ds @ [diag_error ''labels.regex_too_large''
                                     (pattern_at i j @ [Lit ''.regex exceeds '', Num MAX_REGEX_BYTES,
                                                        Lit '' bytes''])])
         else (names, valid, ds))"

definition duplicate_destination :: "label_target \<Rightarrow> diagnostic" where
  "duplicate_destination t =
     diag_error ''labels.duplicate_destination''
       [Lit ''duplicate label destination ('', Disp (lt_resource_type t), Lit '', '',
        Disp (lt_attribute t), Lit '')'']"

text \<open>Compiling the rule once its patterns are known to be compilable.\<close>

definition build_rule ::
  "label_env \<Rightarrow> nat \<Rightarrow> label_target \<Rightarrow> raw_label_rule \<Rightarrow> diagnostic + label_rule" where
  "build_rule E i target raw =
     (case compile_patterns (le_regex E) (rr_patterns raw) of
        Inl e \<Rightarrow> Inl (diag_error ''labels.invalid_regex''
                        (rule_at i @ [Lit ''.patterns cannot be compiled safely: '', Disp e]))
      | Inr compiled \<Rightarrow>
          (case runtime_labeler (le_core E) target (rr_field raw) (rr_patterns raw) compiled of
             Inl e \<Rightarrow> Inl (diag_error ''labels.invalid_configuration'' (rule_at i @ [Lit '': '', Disp e]))
           | Inr runtime \<Rightarrow>
               Inr \<lparr>lr_field = rr_field raw, lr_patterns = rr_patterns raw, lr_runtime = runtime\<rparr>))"

text \<open>The body of the loop over the rules: destinations seen, rules built, diagnostics.\<close>

fun check_rule ::
  "label_env \<Rightarrow> nat \<times> raw_label_rule \<Rightarrow> label_target set \<times> label_rule list \<times> diagnostic list \<Rightarrow>
     label_target set \<times> label_rule list \<times> diagnostic list" where
  "check_rule E (i, raw) (destinations, rules, ds) =
     (let ty = rt_resource_type (rr_target raw); attr = rt_attribute (rr_target raw)
      in case lc_target_error (le_core E) ty attr of
        Some e \<Rightarrow>
          (destinations, rules,
           ds @ [diag_error ''labels.invalid_target'' (rule_at i @ [Lit ''.target: '', Disp e])])
      | None \<Rightarrow>
          (let target = \<lparr>lt_resource_type = ty, lt_attribute = attr\<rparr>;
               ds = (if is_blank (rr_field raw)
                     then ds @ [diag_error ''labels.empty_field''
                                  (rule_at i @ [Lit ''.field must not be empty''])] else ds);
               ds = (if rr_field raw = lt_attribute target
                     then ds @ [diag_error ''labels.input_is_output''
                                  (rule_at i @ [Lit ''.field and target.attribute must be different''])]
                     else ds);
               (new, destinations) = hs_insert target destinations;
               ds = (if new then ds else ds @ [duplicate_destination target]);
               ds = (if rr_patterns raw = []
                     then ds @ [diag_error ''labels.empty_patterns''
                                  (rule_at i @ [Lit ''.patterns must not be empty''])] else ds);
               ds = (if length (rr_patterns raw) > MAX_PATTERNS_PER_RULE
                     then ds @ [diag_error ''labels.too_many_patterns''
                                  (rule_at i @ [Lit ''.patterns contains more than '',
                                                Num MAX_PATTERNS_PER_RULE, Lit '' entries''])] else ds);
               valid = (rr_patterns raw \<noteq> [] \<and> length (rr_patterns raw) \<le> MAX_PATTERNS_PER_RULE);
               (_, valid, ds) = fold (check_pattern i) (enumerate 0 (rr_patterns raw)) ({}, valid, ds)
           in if valid
              then (case build_rule E i target raw of
                      Inl d \<Rightarrow> (destinations, rules, ds @ [d])
                    | Inr rule \<Rightarrow> (destinations, rules @ [rule], ds))
              else (destinations, rules, ds)))"

definition from_raw :: "label_env \<Rightarrow> raw_label_rule list \<Rightarrow> bundle_error + label_set" where
  "from_raw E raw =
     and_then (validate_document_limits raw) (\<lambda>_.
       let (_, rules, ds) = fold (check_rule E) (enumerate 0 raw) ({}, [], [])
       in if ds = [] then Inr rules else Inl (Validation ds))"

definition invalid_json_diagnostic :: "json_error \<Rightarrow> diagnostic" where
  "invalid_json_diagnostic e =
     (diag_error ''labels.invalid_json'' [Disp (je_text e)])
       \<lparr>d_line := Some (je_line e), d_column := Some (je_column e)\<rparr>"

definition from_json_str :: "label_env \<Rightarrow> string \<Rightarrow> bundle_error + label_set" where
  "from_json_str E input =
     and_then (map_err (\<lambda>e. Validation [invalid_json_diagnostic e])
                 (from_str (le_json E) ''Vec<RawLabelRule>'' (decode_vec decode_rule) input))
       (from_raw E)"

definition combine :: "label_set list \<Rightarrow> bundle_error + label_set" where
  "combine sets =
     (let rules = concat sets
      in and_then (validate_combined_limits rules) (\<lambda>_.
           let ds = map (\<lambda>r. duplicate_destination (lr_target r)) (scan_repeats hs_insert lr_target {} rules)
           in if ds = [] then Inr rules else Inl (Validation ds)))"

definition to_labelers :: "label_set \<Rightarrow> labeler list" where
  "to_labelers rules = map lr_runtime rules"

section \<open>Writing a document\<close>

definition pattern_to_json :: "label_pattern \<Rightarrow> json" where
  "pattern_to_json p = JObject [(''name'', JString (lp_name p)), (''regex'', JString (lp_regex p))]"

definition rule_to_json :: "label_core \<Rightarrow> label_rule \<Rightarrow> json" where
  "rule_to_json L r =
     JObject [(''target'', lc_target_json L (lr_target r)), (''field'', JString (lr_field r)),
              (''patterns'', JArray (map pattern_to_json (lr_patterns r)))]"

definition label_set_to_json :: "label_core \<Rightarrow> label_set \<Rightarrow> json" where
  "label_set_to_json L rules = JArray (map (rule_to_json L) rules)"

section \<open>Limits\<close>

definition limits_ok :: "label_pattern list list \<Rightarrow> bool" where
  "limits_ok pss \<longleftrightarrow>
     length pss \<le> 256 \<and> sum_list (map length pss) \<le> 4096 \<and>
     sum_list (map (length \<circ> lp_regex) (concat pss)) \<le> 1048576"

lemma check_limits_Inr_iff: "check_limits what pss = Inr u \<longleftrightarrow> limits_ok pss"
proof -
  have "total_patterns pss \<le> MAX_TOTAL_PATTERNS \<longleftrightarrow> sum_list (map length pss) \<le> 4096"
    using saturating_total_exceeds [of 4096 "map length pss"]
    by (simp add: total_patterns_def MAX_TOTAL_PATTERNS_def usize_max_def not_less [symmetric])
  moreover have "total_regex_bytes pss \<le> MAX_TOTAL_REGEX_BYTES \<longleftrightarrow>
      sum_list (map (length \<circ> lp_regex) (concat pss)) \<le> 1048576"
    using saturating_total_exceeds [of 1048576 "map (length \<circ> lp_regex) (concat pss)"]
    by (simp add: total_regex_bytes_def MAX_TOTAL_REGEX_BYTES_def usize_max_def not_less [symmetric])
  ultimately show ?thesis
    by (simp add: check_limits_def result_iff limits_ok_def MAX_LABEL_RULES_def)
qed

lemma check_limits_Inl:
  "check_limits what pss = Inl e \<Longrightarrow> \<exists>d. e = Validation [d] \<and> d_severity d = Error"
  by (auto simp: check_limits_def result_iff invalid_def)

section \<open>Patterns\<close>

definition pattern_ok :: "label_pattern \<Rightarrow> bool" where
  "pattern_ok p \<longleftrightarrow> \<not> is_blank (lp_name p) \<and> lp_regex p \<noteq> [] \<and> length (lp_regex p) \<le> MAX_REGEX_BYTES"

definition compilable :: "label_pattern \<Rightarrow> bool" where
  "compilable p \<longleftrightarrow> lp_regex p \<noteq> [] \<and> length (lp_regex p) \<le> MAX_REGEX_BYTES"

lemma enumerate_Cons: "enumerate n (x # xs) = (n, x) # enumerate (Suc n) xs"
  by (simp add: enumerate_simps)

lemma check_patterns_spec:
  "fold (check_pattern i) (enumerate n ps) (names, valid, ds) = (names', valid', ds') \<Longrightarrow>
     (ds' = [] \<longleftrightarrow> ds = [] \<and> (\<forall>p \<in> set ps. pattern_ok p) \<and> distinct (map lp_name ps) \<and>
        names \<inter> lp_name ` set ps = {}) \<and>
     (valid' \<longleftrightarrow> valid \<and> (\<forall>p \<in> set ps. compilable p)) \<and>
     (all_errors ds' \<longleftrightarrow> all_errors ds)"
proof (induction ps arbitrary: n names valid ds)
  case Nil
  then show ?case by simp
next
  case (Cons p ps)
  obtain names1 valid1 ds1 where step: "check_pattern i (n, p) (names, valid, ds) = (names1, valid1, ds1)"
    by (metis prod_cases3)
  then have 1: "names1 = insert (lp_name p) names"
    "ds1 = [] \<longleftrightarrow> ds = [] \<and> pattern_ok p \<and> lp_name p \<notin> names"
    "valid1 \<longleftrightarrow> valid \<and> compilable p" "all_errors ds1 \<longleftrightarrow> all_errors ds"
    by (auto simp: hs_insert_def Let_def pattern_ok_def compilable_def split: if_splits)
  have "fold (check_pattern i) (enumerate (Suc n) ps) (names1, valid1, ds1) = (names', valid', ds')"
    using Cons.prems step by (simp add: enumerate_Cons del: check_pattern.simps)
  from Cons.IH [OF this] 1 show ?case by auto
qed

section \<open>Rules\<close>

definition raw_target :: "raw_label_rule \<Rightarrow> label_target" where
  "raw_target raw = \<lparr>lt_resource_type = rt_resource_type (rr_target raw),
                      lt_attribute = rt_attribute (rr_target raw)\<rparr>"

text \<open>Rule \<open>r\<close> is what the document's rule \<open>raw\<close> describes, and \<open>raw\<close> is acceptable.\<close>

definition rule_of :: "label_env \<Rightarrow> raw_label_rule \<Rightarrow> label_rule \<Rightarrow> bool" where
  "rule_of E raw r \<longleftrightarrow>
     lc_target_error (le_core E) (lt_resource_type (raw_target raw)) (lt_attribute (raw_target raw)) = None \<and>
     \<not> is_blank (rr_field raw) \<and> rr_field raw \<noteq> lt_attribute (raw_target raw) \<and>
     rr_patterns raw \<noteq> [] \<and> length (rr_patterns raw) \<le> MAX_PATTERNS_PER_RULE \<and>
     (\<forall>p \<in> set (rr_patterns raw). pattern_ok p) \<and> distinct (map lp_name (rr_patterns raw)) \<and>
     lr_field r = rr_field raw \<and> lr_patterns r = rr_patterns raw \<and>
     (\<exists>compiled. compile_patterns (le_regex E) (rr_patterns raw) = Inr compiled \<and>
        runtime_labeler (le_core E) (raw_target raw) (rr_field raw) (rr_patterns raw) compiled =
          Inr (lr_runtime r))"

lemma rule_of_unique: "rule_of E raw r \<Longrightarrow> rule_of E raw r' \<Longrightarrow> r = r'"
  by (auto simp: rule_of_def)

lemma rules_of_unique:
  "list_all2 (rule_of E) raws rules \<Longrightarrow> list_all2 (rule_of E) raws rules' \<Longrightarrow> rules = rules'"
proof (induction raws arbitrary: rules rules')
  case Nil
  then show ?case by simp
next
  case (Cons raw raws)
  from Cons.prems obtain r rs r' rs' where
    e: "rules = r # rs" "rules' = r' # rs'" and rules: "rule_of E raw r" "rule_of E raw r'"
    and rest: "list_all2 (rule_of E) raws rs" "list_all2 (rule_of E) raws rs'"
    by (auto simp: list_all2_Cons1)
  from rule_of_unique [OF rules] Cons.IH [OF rest] show ?case by (simp add: e)
qed

lemma build_rule_cases:
  "(\<exists>d. build_rule E i t raw = Inl d \<and> d_severity d = Error) \<or> (\<exists>r. build_rule E i t raw = Inr r)"
  by (auto simp: build_rule_def split: sum.splits)

lemma build_rule_Inr:
  "build_rule E i t raw = Inr r \<longleftrightarrow>
     lr_field r = rr_field raw \<and> lr_patterns r = rr_patterns raw \<and>
     (\<exists>compiled. compile_patterns (le_regex E) (rr_patterns raw) = Inr compiled \<and>
        runtime_labeler (le_core E) t (rr_field raw) (rr_patterns raw) compiled = Inr (lr_runtime r))"
  by (cases r) (auto simp: build_rule_def split: sum.splits)

text \<open>The complaints one rule draws before its patterns are looked at.\<close>

definition rule_faults :: "nat \<Rightarrow> raw_label_rule \<Rightarrow> label_target set \<Rightarrow> diagnostic list" where
  "rule_faults i raw dests =
    (if is_blank (rr_field raw) then [diag_error ''labels.empty_field''
            (rule_at i @ [Lit ''.field must not be empty''])] else []) @
    (if rr_field raw = lt_attribute (raw_target raw) then [diag_error ''labels.input_is_output''
            (rule_at i @ [Lit ''.field and target.attribute must be different''])] else []) @
    (if raw_target raw \<notin> dests then [] else [duplicate_destination (raw_target raw)]) @
    (if rr_patterns raw = [] then [diag_error ''labels.empty_patterns''
            (rule_at i @ [Lit ''.patterns must not be empty''])] else []) @
    (if length (rr_patterns raw) > MAX_PATTERNS_PER_RULE then [diag_error ''labels.too_many_patterns''
            (rule_at i @ [Lit ''.patterns contains more than '', Num MAX_PATTERNS_PER_RULE,
                          Lit '' entries''])] else [])"

definition patterns_counted :: "raw_label_rule \<Rightarrow> bool" where
  "patterns_counted raw \<longleftrightarrow> rr_patterns raw \<noteq> [] \<and> length (rr_patterns raw) \<le> MAX_PATTERNS_PER_RULE"

lemma rule_faults_spec:
  "all_errors (rule_faults i raw dests)"
  "rule_faults i raw dests = [] \<longleftrightarrow> \<not> is_blank (rr_field raw) \<and>
     rr_field raw \<noteq> lt_attribute (raw_target raw) \<and> raw_target raw \<notin> dests \<and> patterns_counted raw"
  by (auto simp: rule_faults_def patterns_counted_def duplicate_destination_def)

lemma check_rule_target_ok:
  assumes "lc_target_error (le_core E) (rt_resource_type (rr_target raw)) (rt_attribute (rr_target raw)) = None"
    and "fold (check_pattern i) (enumerate 0 (rr_patterns raw))
      ({}, patterns_counted raw, ds @ rule_faults i raw dests) = (names, valid, ds3)"
  shows "check_rule E (i, raw) (dests, rules, ds) = (insert (raw_target raw) dests,
      if valid then (case build_rule E i (raw_target raw) raw of Inl d \<Rightarrow> rules | Inr r \<Rightarrow> rules @ [r]) else rules,
      if valid then (case build_rule E i (raw_target raw) raw of Inl d \<Rightarrow> ds3 @ [d] | Inr r \<Rightarrow> ds3) else ds3)"
  using assms
  by (simp add: rule_faults_def patterns_counted_def raw_target_def hs_insert_def Let_def split: if_splits sum.splits)

lemma rule_of_iff:
  assumes "lc_target_error (le_core E) (rt_resource_type (rr_target raw)) (rt_attribute (rr_target raw)) = None"
  shows "rule_of E raw r \<longleftrightarrow> \<not> is_blank (rr_field raw) \<and> rr_field raw \<noteq> lt_attribute (raw_target raw) \<and>
      patterns_counted raw \<and> (\<forall>p \<in> set (rr_patterns raw). pattern_ok p) \<and>
      distinct (map lp_name (rr_patterns raw)) \<and> build_rule E i (raw_target raw) raw = Inr r"
  using assms by (auto simp: rule_of_def build_rule_Inr raw_target_def patterns_counted_def)

lemma check_rule_step:
  assumes "check_rule E (i, raw) (dests, rules, ds) = (dests', rules', ds')"
  shows "(all_errors ds' \<longleftrightarrow> all_errors ds) \<and>
    (ds' = [] \<longleftrightarrow> ds = [] \<and> raw_target raw \<notin> dests \<and> (\<exists>r. rule_of E raw r)) \<and>
    (ds' = [] \<longrightarrow> dests' = insert (raw_target raw) dests \<and>
       (\<exists>r. rule_of E raw r \<and> rules' = rules @ [r]))"
proof (cases "lc_target_error (le_core E) (rt_resource_type (rr_target raw)) (rt_attribute (rr_target raw))")
  case (Some e)
  with assms show ?thesis by (auto simp: Let_def rule_of_def raw_target_def)
next
  case None
  let ?ds2 = "ds @ rule_faults i raw dests"
  obtain names valid ds3 where
    pats: "fold (check_pattern i) (enumerate 0 (rr_patterns raw)) ({}, patterns_counted raw, ?ds2) = (names, valid, ds3)"
    by (metis prod_cases3)
  note res = check_rule_target_ok [OF None pats, of rules, unfolded assms]
  have ds2: "all_errors ?ds2 \<longleftrightarrow> all_errors ds"
    "?ds2 = [] \<longleftrightarrow> ds = [] \<and> \<not> is_blank (rr_field raw) \<and> rr_field raw \<noteq> lt_attribute (raw_target raw) \<and>
       raw_target raw \<notin> dests \<and> patterns_counted raw"
    by (auto simp: rule_faults_spec)
  from check_patterns_spec [OF pats] have p: "ds3 = [] \<longleftrightarrow> ?ds2 = [] \<and>
      (\<forall>p \<in> set (rr_patterns raw). pattern_ok p) \<and> distinct (map lp_name (rr_patterns raw))"
    "valid \<longleftrightarrow> patterns_counted raw \<and> (\<forall>p \<in> set (rr_patterns raw). compilable p)"
    "all_errors ds3 \<longleftrightarrow> all_errors ?ds2" by auto
  note p = p(1) [unfolded ds2(2)] p(2) p(3) [unfolded ds2(1)]
  have ok: "pattern_ok p \<Longrightarrow> compilable p" for p by (simp add: pattern_ok_def compilable_def)
  show ?thesis
  proof (cases "build_rule E i (raw_target raw) raw")
    case (Inl d)
    with build_rule_cases [of E i "raw_target raw" raw] have "d_severity d = Error" by auto
    with Inl res p ok show ?thesis unfolding rule_of_iff [OF None, of _ i] by (auto split: if_splits)
  next
    case (Inr r)
    with res p ok show ?thesis unfolding rule_of_iff [OF None, of _ i] by (auto split: if_splits)
  qed
qed

lemma check_rules_spec:
  "fold (check_rule E) (enumerate n raws) (dests, rules, ds) = (dests', rules', ds') \<Longrightarrow>
     (all_errors ds' \<longleftrightarrow> all_errors ds) \<and>
     (ds' = [] \<longleftrightarrow> ds = [] \<and> (\<forall>raw \<in> set raws. \<exists>r. rule_of E raw r) \<and>
        distinct (map raw_target raws) \<and> dests \<inter> raw_target ` set raws = {}) \<and>
     (ds' = [] \<longrightarrow> (\<exists>new. rules' = rules @ new \<and> list_all2 (rule_of E) raws new))"
proof (induction raws arbitrary: n dests rules ds)
  case Nil
  then show ?case by simp
next
  case (Cons raw raws)
  obtain dests1 rules1 ds1 where
    step: "check_rule E (n, raw) (dests, rules, ds) = (dests1, rules1, ds1)"
    by (metis prod_cases3)
  have rest: "fold (check_rule E) (enumerate (Suc n) raws) (dests1, rules1, ds1) = (dests', rules', ds')"
    using Cons.prems step by (simp add: enumerate_Cons del: check_rule.simps)
  note s = check_rule_step [OF step] and IH = Cons.IH [OF rest]
  show ?case
  proof (cases "ds1 = []")
    case False
    with s IH show ?thesis by auto
  next
    case True
    with s obtain r where r: "dests1 = insert (raw_target raw) dests" "rule_of E raw r"
      "rules1 = rules @ [r]" "ds = []" "raw_target raw \<notin> dests" by auto
    have "\<exists>new. rules' = rules @ new \<and> list_all2 (rule_of E) (raw # raws) new" if nil: "ds' = []"
    proof -
      from IH nil obtain new where "rules' = rules1 @ new" "list_all2 (rule_of E) raws new" by auto
      with r show ?thesis by (intro exI [of _ "r # new"]) simp
    qed
    with r True s IH show ?thesis by auto
  qed
qed

lemma from_raw_Inr_iff:
  "from_raw E raw = Inr rules \<longleftrightarrow>
     limits_ok (map rr_patterns raw) \<and> list_all2 (rule_of E) raw rules \<and>
     distinct (map raw_target raw)"
proof -
  obtain dests built ds where
    f: "fold (check_rule E) (enumerate 0 raw) ({}, [], []) = (dests, built, ds)"
    by (metis prod_cases3)
  note spec = check_rules_spec [OF f]
  have eq: "from_raw E raw = Inr rules \<longleftrightarrow> limits_ok (map rr_patterns raw) \<and> ds = [] \<and> built = rules"
    by (auto simp: from_raw_def result_iff f validate_document_limits_def check_limits_Inr_iff
        split: if_splits)
  show ?thesis
  proof
    assume "from_raw E raw = Inr rules"
    with eq spec show "limits_ok (map rr_patterns raw) \<and> list_all2 (rule_of E) raw rules \<and>
        distinct (map raw_target raw)" by auto
  next
    assume r: "limits_ok (map rr_patterns raw) \<and> list_all2 (rule_of E) raw rules \<and>
        distinct (map raw_target raw)"
    then have "\<forall>x \<in> set raw. \<exists>y. rule_of E x y" by (metis list_all2_conv_all_nth in_set_conv_nth)
    with r spec have "ds = []" by auto
    with spec have "list_all2 (rule_of E) raw built" by auto
    with r have "built = rules" by (blast intro: rules_of_unique)
    with r \<open>ds = []\<close> eq show "from_raw E raw = Inr rules" by simp
  qed
qed

lemma from_raw_Inl:
  "from_raw E raw = Inl e \<Longrightarrow> \<exists>ds. e = Validation ds \<and> ds \<noteq> [] \<and> all_errors ds"
proof -
  obtain dests built ds where
    f: "fold (check_rule E) (enumerate 0 raw) ({}, [], []) = (dests, built, ds)"
    by (metis prod_cases3)
  from check_rules_spec [OF f] have "all_errors ds" by simp
  then show "from_raw E raw = Inl e \<Longrightarrow> \<exists>ds. e = Validation ds \<and> ds \<noteq> [] \<and> all_errors ds"
    by (fastforce simp: from_raw_def result_iff f validate_document_limits_def
        dest: check_limits_Inl split: if_splits)
qed

lemma from_json_str_Inl:
  "from_json_str E text = Inl e \<Longrightarrow> \<exists>ds. e = Validation ds \<and> ds \<noteq> [] \<and> all_errors ds"
  by (auto simp: from_json_str_def result_iff map_err_def invalid_json_diagnostic_def diag_error_def
      split: sum.splits dest: from_raw_Inl)

end
