(* ===== verification/Label_Runtime.thy ===== *)
theory Label_Runtime
  imports Labels
begin

text \<open>
  \<open>src/labels.rs\<close>, what a validated label set means: combining documents, the labels its
  labelers derive on both regular-expression backends, and reading back what it is written as.

  The locale \<open>label_backend\<close> is the contract of a backend: the derived labels are the names of
  the patterns that match, in document order.  It is interpreted on \<open>regex_set_derive\<close> (the
  program's own labeler for more than four patterns) and on the documented behaviour of
  \<open>treetop_core::RegexLabeler\<close>.
\<close>

section \<open>Combining documents\<close>

lemma combine_Inr_iff:
  "combine sets = Inr rules \<longleftrightarrow>
     rules = concat sets \<and> limits_ok (map lr_patterns rules) \<and> distinct (map lr_target rules)"
  by (auto simp: combine_def Let_def result_iff validate_combined_limits_def check_limits_Inr_iff
      hash_set.scan_repeats_empty_iff split: if_splits)

lemma all_errors_duplicates: "all_errors (map (\<lambda>r. duplicate_destination (f r)) rs)"
  by (induction rs) (auto simp: duplicate_destination_def)

lemma combine_Inl:
  "combine sets = Inl e \<Longrightarrow> \<exists>ds. e = Validation ds \<and> ds \<noteq> [] \<and> all_errors ds"
  by (fastforce simp: combine_def Let_def result_iff validate_combined_limits_def
      all_errors_duplicates dest: check_limits_Inl split: if_splits)

section \<open>The backends\<close>

text \<open>The labels of a value: the names of the patterns that match, in document order.\<close>

definition labels_for :: "(string \<Rightarrow> regex) \<Rightarrow> label_pattern list \<Rightarrow> string \<Rightarrow> string list" where
  "labels_for lang patterns v = map lp_name (filter (\<lambda>p. lang (lp_regex p) v) patterns)"

definition derived ::
  "(string \<Rightarrow> regex) \<Rightarrow> string \<Rightarrow> label_pattern list \<Rightarrow> resource \<Rightarrow> attr_value option" where
  "derived lang field patterns r =
     (case res_attributes r field of
        Some (AString v) \<Rightarrow> Some (ASet (map AString (labels_for lang patterns v)))
      | _ \<Rightarrow> None)"

locale label_backend =
  fixes lang :: "string \<Rightarrow> regex"
    and derive :: "string \<Rightarrow> label_pattern list \<Rightarrow> resource \<Rightarrow> attr_value option outcome"
  assumes derive_spec: "derive field patterns r = Value (derived lang field patterns r)"
begin

lemma no_panic: "derive field patterns r \<noteq> Panic"
  by (simp add: derive_spec)

lemma only_strings:
  "res_attributes r field = Some a \<Longrightarrow> (\<And>v. a \<noteq> AString v) \<Longrightarrow> derive field patterns r = Value None"
  by (cases a) (auto simp: derive_spec derived_def)

lemma derives_declared_names:
  "derive field patterns r = Value (Some a) \<Longrightarrow>
     \<exists>names. a = ASet (map AString names) \<and> set names \<subseteq> lp_name ` set patterns"
  by (auto simp: derive_spec derived_def labels_for_def split: option.splits attr_value.splits
      intro!: exI [of _ "map lp_name _"])

lemma derive_append:
  "res_attributes r field = Some (AString v) \<Longrightarrow>
     derive field (ps @ qs) r =
       Value (Some (ASet (map AString (labels_for lang ps v @ labels_for lang qs v))))"
  by (simp add: derive_spec derived_def labels_for_def)

end

text \<open>\<open>RegexSet::matches\<close>: the indices of the expressions that match, in ascending order.\<close>

definition set_matches :: "(string \<Rightarrow> regex) \<Rightarrow> string list \<Rightarrow> regex_set" where
  "set_matches lang sources v = filter (\<lambda>i. lang (sources ! i) v) [0..<length sources]"

text \<open>\<open>RegexLabeler::derive\<close> of \<open>treetop_core\<close>, as documented.\<close>

definition individual_derive ::
  "string \<Rightarrow> (string \<times> regex) list \<Rightarrow> resource \<Rightarrow> attr_value option outcome" where
  "individual_derive field named r =
     (case res_attributes r field of
        Some (AString v) \<Rightarrow> Value (Some (ASet (map (AString \<circ> fst) (filter (\<lambda>(_, rx). rx v) named))))
      | _ \<Rightarrow> Value None)"

lemma those_name_at:
  "\<forall>i \<in> set is. i < length names \<Longrightarrow> those (map (name_at names) is) = Some (map ((!) names) is)"
  by (induction "is") auto

lemma filter_by_index: "filter P xs = map ((!) xs) (filter (\<lambda>i. P (xs ! i)) [0..<length xs])"
  by (subst (1) map_nth [symmetric]) (simp only: filter_map comp_def)

lemma set_matches_names:
  "those (map (name_at (map lp_name ps)) (set_matches lang (map lp_regex ps) v)) =
     Some (labels_for lang ps v)"
proof -
  let ?is = "filter (\<lambda>i. lang (lp_regex (ps ! i)) v) [0..<length ps]"
  have "set_matches lang (map lp_regex ps) v = ?is"
    by (auto simp: set_matches_def intro: filter_cong)
  moreover have "map ((!) (map lp_name ps)) ?is = labels_for lang ps v"
    by (simp add: labels_for_def filter_by_index [of _ ps])
  moreover have "those (map (name_at (map lp_name ps)) ?is) = Some (map ((!) (map lp_name ps)) ?is)"
    by (rule those_name_at) simp
  ultimately show ?thesis by simp
qed

interpretation set_backend: label_backend lang
  "\<lambda>field ps. regex_set_derive field (map lp_name ps) (set_matches lang (map lp_regex ps))" for lang
  by unfold_locales
    (auto simp: regex_set_derive_def derived_def set_matches_names simp del: map_map
      split: option.split attr_value.split)

lemma filter_zip_map:
  "map fst (filter (\<lambda>(_, rx). rx v) (zip (map f ps) (map (\<lambda>p. g (h p)) ps))) =
     map f (filter (\<lambda>p. g (h p) v) ps)"
  by (induction ps) auto

interpretation individual_backend: label_backend lang
  "\<lambda>field ps. individual_derive field (zip (map lp_name ps) (map (\<lambda>p. lang (lp_regex p)) ps))" for lang
  by unfold_locales
    (auto simp: individual_derive_def derived_def labels_for_def filter_zip_map [symmetric]
      split: option.split attr_value.split)

section \<open>Validated rules\<close>

text \<open>
  The documented behaviour of the crates: an expression denotes a language, whatever size limits
  it was compiled with; a set reports the members that match; \<open>RegexLabeler\<close> keeps its target
  and derives as above; a target is written as the two fields it is read from.
\<close>

definition regex_documented :: "regex_lib \<Rightarrow> (string \<Rightarrow> regex) \<Rightarrow> bool" where
  "regex_documented R lang \<longleftrightarrow>
     (\<forall>a b s rx. rx_build R a b s = Inr rx \<longrightarrow> rx = lang s) \<and>
     (\<forall>a b ss m. rx_build_set R a b ss = Inr m \<longrightarrow> m = set_matches lang ss)"

definition target_to_json :: "label_target \<Rightarrow> json" where
  "target_to_json t =
     JObject [(''resource_type'', JString (lt_resource_type t)), (''attribute'', JString (lt_attribute t))]"

definition core_documented :: "label_core \<Rightarrow> bool" where
  "core_documented L \<longleftrightarrow>
     (\<forall>t f named lb. lc_regex_labeler L t f named = Inr lb \<longrightarrow>
        lb_target lb = t \<and> lb_derive lb = individual_derive f named) \<and>
     (\<forall>t. lc_target_json L t = target_to_json t)"

lemma runtime_target:
  "core_documented L \<Longrightarrow> runtime_labeler L t f ps c = Inr lb \<Longrightarrow> lb_target lb = t"
  by (auto simp: runtime_labeler_def core_documented_def split: compiled_patterns.splits)

lemma compile_individual:
  assumes "regex_documented R lang" "compile_patterns R ps = Inr (Individual rxs)"
  shows "rxs = map (\<lambda>p. lang (lp_regex p)) ps"
  using assms
  by (auto simp: compile_patterns_def regex_documented_def result_iff try_map_Inr_iff
      list_all2_conv_all_nth intro!: nth_equalityI split: if_splits)

lemma compile_set:
  assumes "regex_documented R lang" "compile_patterns R ps = Inr (Set m)"
  shows "m = set_matches lang (map lp_regex ps)"
  using assms by (auto simp: compile_patterns_def regex_documented_def result_iff split: if_splits)

lemma runtime_derive:
  assumes "regex_documented R lang" "core_documented L"
    and "compile_patterns R ps = Inr c" "runtime_labeler L t f ps c = Inr lb"
  shows "lb_derive lb r = Value (derived lang f ps r)"
proof (cases c)
  case (Individual rxs)
  with assms have "lb_derive lb = individual_derive f (zip (map lp_name ps) rxs)"
    "rxs = map (\<lambda>p. lang (lp_regex p)) ps"
    by (auto simp: runtime_labeler_def core_documented_def compile_individual)
  then show ?thesis by (simp only: individual_backend.derive_spec)
next
  case (Set m)
  with assms have "lb_derive lb = regex_set_derive f (map lp_name ps) m"
    "m = set_matches lang (map lp_regex ps)"
    by (auto simp: runtime_labeler_def compile_set)
  then show ?thesis by (simp only: set_backend.derive_spec)
qed

text \<open>The document's rule that a validated rule stands for.\<close>

definition raw_of :: "label_rule \<Rightarrow> raw_label_rule" where
  "raw_of r =
     \<lparr>rr_target = \<lparr>rt_resource_type = lt_resource_type (lr_target r), rt_attribute = lt_attribute (lr_target r)\<rparr>,
      rr_field = lr_field r, rr_patterns = lr_patterns r\<rparr>"

definition label_set_ok :: "label_env \<Rightarrow> label_set \<Rightarrow> bool" where
  "label_set_ok E rules \<longleftrightarrow>
     limits_ok (map lr_patterns rules) \<and> (\<forall>r \<in> set rules. rule_of E (raw_of r) r) \<and>
     distinct (map lr_target rules)"

lemma raw_target_raw_of [simp]: "raw_target (raw_of r) = lr_target r"
  by (simp add: raw_target_def raw_of_def)

lemma raw_of_simps [simp]: "rr_patterns (raw_of r) = lr_patterns r" "rr_field (raw_of r) = lr_field r"
  by (simp_all add: raw_of_def)

lemma rule_of_raw_of: "core_documented (le_core E) \<Longrightarrow> rule_of E raw r \<Longrightarrow> raw = raw_of r"
  by (cases raw; cases "rr_target raw")
    (auto simp: rule_of_def raw_of_def raw_target_def dest: runtime_target)

lemma from_raw_raw_of: "from_raw E (map raw_of rules) = Inr rules \<longleftrightarrow> label_set_ok E rules"
  by (auto simp: from_raw_Inr_iff label_set_ok_def comp_def list_all2_conv_all_nth all_set_conv_all_nth)

lemma rules_of_raw_of:
  assumes "core_documented (le_core E)" "list_all2 (rule_of E) raw rules"
  shows "raw = map raw_of rules"
  using assms(2) by (induction rule: list_all2_induct) (auto dest: rule_of_raw_of [OF assms(1)])

lemma from_raw_label_set_ok:
  assumes "core_documented (le_core E)" "from_raw E raw = Inr rules"
  shows "label_set_ok E rules \<and> raw = map raw_of rules"
  using assms rules_of_raw_of from_raw_raw_of from_raw_Inr_iff by metis

lemma from_json_str_label_set_ok:
  "core_documented (le_core E) \<Longrightarrow> from_json_str E text = Inr rules \<Longrightarrow> label_set_ok E rules"
  by (auto simp: from_json_str_def result_iff dest: from_raw_label_set_ok)

lemma combine_label_set_ok:
  "\<forall>s \<in> set sets. label_set_ok E s \<Longrightarrow> combine sets = Inr rules \<Longrightarrow> label_set_ok E rules"
  by (auto simp: combine_Inr_iff label_set_ok_def)

lemma label_set_derive:
  assumes "regex_documented (le_regex E) lang" "core_documented (le_core E)"
    and "label_set_ok E rules" "r \<in> set rules"
  shows "lb_derive (lr_runtime r) res = Value (derived lang (lr_field r) (lr_patterns r) res)"
proof -
  from assms(3,4) have "rule_of E (raw_of r) r" by (simp add: label_set_ok_def)
  then obtain c where "compile_patterns (le_regex E) (lr_patterns r) = Inr c"
    "runtime_labeler (le_core E) (lr_target r) (lr_field r) (lr_patterns r) c = Inr (lr_runtime r)"
    by (auto simp: rule_of_def)
  with assms(1,2) show ?thesis by (rule runtime_derive)
qed

section \<open>Reading back a written document\<close>

lemma decode_pattern_sorted: "decode_pattern (sort_json (pattern_to_json p)) = Some p"
  by (simp add: decode_pattern_def pattern_to_json_def decode_fields_sort)

lemma decode_target_sorted:
  "decode_target (sort_json (target_to_json t)) =
     Some \<lparr>rt_resource_type = lt_resource_type t, rt_attribute = lt_attribute t\<rparr>"
  by (simp add: decode_target_def target_to_json_def decode_fields_sort)

lemma decode_rule_sorted:
  assumes "core_documented L"
  shows "decode_rule (sort_json (rule_to_json L r)) = Some (raw_of r)"
proof -
  have "decode_vec decode_pattern (JArray (map (sort_json \<circ> pattern_to_json) (lr_patterns r))) =
      Some (lr_patterns r)"
    by (rule decode_vec_map) (simp add: decode_pattern_sorted)
  with assms show ?thesis
    by (simp add: decode_rule_def rule_to_json_def decode_fields_sort core_documented_def
        decode_target_sorted raw_of_def comp_def)
qed

lemma decode_label_set_sorted:
  assumes "core_documented L"
  shows "decode_vec decode_rule (sort_json (label_set_to_json L rules)) = Some (map raw_of rules)"
proof -
  have "decode_list decode_rule (map (sort_json \<circ> rule_to_json L) rules) = Some (map raw_of rules)"
    by (induction rules) (auto simp: decode_rule_sorted [OF assms])
  then show ?thesis by (simp add: label_set_to_json_def decode_vec_def)
qed

lemma label_set_round_trip:
  assumes "json_documented (le_json E)" "core_documented (le_core E)"
    and "printable (label_set_to_json (le_core E) rules)"
    and "canonical_json_bytes (le_json E) (label_set_to_json (le_core E) rules) = Inr b"
    and "label_set_ok E rules"
  shows "from_json_str E b = Inr rules"
  using assms from_raw_raw_of [of E rules]
  by (simp add: from_json_str_def from_str_canonical decode_label_set_sorted)

end
