(* ===== verification/Label_Schema.thy ===== *)
theory Label_Schema
  imports Label_Runtime
begin

text \<open>
  \<open>src/labels.rs\<close>, schema part: \<open>validate_schema\<close> and the resolution of an entity type's record
  attributes through common types.

  \<open>record_attributes\<close> follows references between common types and stops at a repeated one.  In
  the model its termination is a theorem: every step adds to \<open>visited\<close> a qualified name of a
  common type of the schema, of which there are finitely many.
\<close>

section \<open>Looking into a JSON schema\<close>

definition type_is :: "json \<Rightarrow> string \<Rightarrow> bool" where
  "type_is v t \<longleftrightarrow> Option.bind (json_get v ''type'') as_str = Some t"

definition is_string_type :: "json \<Rightarrow> bool" where
  "is_string_type v \<longleftrightarrow>
     type_is v ''String'' \<or>
     type_is v ''EntityOrCommon'' \<and> Option.bind (json_get v ''name'') as_str = Some ''String''"

definition is_string_set_type :: "json \<Rightarrow> bool" where
  "is_string_set_type v \<longleftrightarrow>
     type_is v ''Set'' \<and> (case json_get v ''element'' of None \<Rightarrow> False | Some e \<Rightarrow> is_string_type e)"

text \<open>The namespace and base name a reference resolves to, and the common type found there.\<close>

definition resolve_name :: "string \<Rightarrow> string \<Rightarrow> string \<times> string" where
  "resolve_name namespace name =
     (case rsplit_once_colons name of None \<Rightarrow> (namespace, name) | Some parts \<Rightarrow> parts)"

definition common_type :: "json \<Rightarrow> string \<times> string \<Rightarrow> json option" where
  "common_type schema_json q =
     Option.bind (as_object schema_json) (\<lambda>m.
     Option.bind (map_of m (fst q)) (\<lambda>ns.
     Option.bind (json_get ns ''commonTypes'') (\<lambda>types.
     json_get types (snd q))))"

definition qualified_name :: "string \<times> string \<Rightarrow> string" where
  "qualified_name q = fst q @ ''::'' @ snd q"

definition common_names :: "json \<Rightarrow> string set" where
  "common_names schema_json = qualified_name ` {q. common_type schema_json q \<noteq> None}"

lemma finite_common_names: "finite (common_names schema_json)"
proof (cases schema_json)
  case (JObject m)
  define keys where "keys = (\<lambda>ns. case json_get ns ''commonTypes'' of
    Some (JObject t) \<Rightarrow> fst ` set t | _ \<Rightarrow> {})"
  have "{q. common_type schema_json q \<noteq> None} \<subseteq> (\<Union>(k, ns) \<in> set m. Pair k ` keys ns)"
  proof
    fix q assume "q \<in> {q. common_type schema_json q \<noteq> None}"
    then obtain ns t v where "map_of m (fst q) = Some ns" "json_get ns ''commonTypes'' = Some t"
      "json_get t (snd q) = Some v"
      by (auto simp: JObject common_type_def bind_eq_Some_conv)
    then have "(fst q, ns) \<in> set m" "snd q \<in> keys ns"
      by (auto simp: keys_def json_get_def [of t] dest: map_of_SomeD split: json.splits
          intro: rev_image_eqI)
    then show "q \<in> (\<Union>(k, ns) \<in> set m. Pair k ` keys ns)" by force
  qed
  moreover have "finite (keys ns)" for ns
    by (auto simp: keys_def split: option.split json.split)
  then have "finite (\<Union>(k, ns) \<in> set m. Pair k ` keys ns)" by auto
  ultimately have "finite {q. common_type schema_json q \<noteq> None}"
    by (rule finite_subset)
  then show ?thesis by (simp add: common_names_def)
qed (auto simp: common_names_def common_type_def as_object_def)

function record_attributes ::
  "json \<Rightarrow> string \<Rightarrow> json \<Rightarrow> string set \<Rightarrow> (string \<times> json) list option" where
  "record_attributes schema_json namespace shape visited =
     (if type_is shape ''Record'' then Option.bind (json_get shape ''attributes'') as_object
      else if \<not> type_is shape ''EntityOrCommon'' then None
      else (case Option.bind (json_get shape ''name'') as_str of
          None \<Rightarrow> None
        | Some name \<Rightarrow>
            (let q = resolve_name namespace name;
                 (new, visited') = hs_insert (qualified_name q) visited
             in if \<not> new then None
                else (case common_type schema_json q of
                    None \<Rightarrow> None
                  | Some common \<Rightarrow> record_attributes schema_json (fst q) common visited'))))"
  by pat_completeness auto
termination
proof (relation "measure (\<lambda>(schema_json, _, _, visited). card (common_names schema_json - visited))")
  show "wf (measure (\<lambda>(schema_json :: json, _ :: string, _ :: json, visited :: string set).
      card (common_names schema_json - visited)))" by simp
next
  fix schema_json :: json and namespace :: string and shape common :: json and visited visited' :: "string set"
    and name :: string and q x new
  assume "q = resolve_name namespace name" "x = hs_insert (qualified_name q) visited" "(new, visited') = x"
    "\<not> \<not> new" "common_type schema_json q = Some common"
  then have "visited' = insert (qualified_name q) visited" "qualified_name q \<in> common_names schema_json - visited"
    by (auto simp: hs_insert_def common_names_def)
  then have "common_names schema_json - visited' \<subset> common_names schema_json - visited" by auto
  then show "((schema_json, fst q, common, visited'), schema_json, namespace, shape, visited) \<in>
      measure (\<lambda>(schema_json, _, _, visited). card (common_names schema_json - visited))"
    using finite_common_names by (simp add: psubset_card_mono)
qed

definition entity_attributes :: "cedar \<Rightarrow> json \<Rightarrow> string \<Rightarrow> (string \<times> json) list option" where
  "entity_attributes C schema_json kind =
     Option.bind (cd_parse_name C kind) (\<lambda>(namespace, basename).
     Option.bind (as_object schema_json) (\<lambda>m.
     Option.bind (map_of m namespace) (\<lambda>ns.
     Option.bind (json_get ns ''entityTypes'') (\<lambda>types.
     Option.bind (json_get types basename) (\<lambda>definition.
     Option.bind (json_get definition ''shape'') (\<lambda>shape.
     record_attributes schema_json namespace shape {}))))))"

section \<open>Validating label rules against a schema\<close>

definition attribute_name :: "label_rule \<Rightarrow> string \<Rightarrow> message" where
  "attribute_name r a = [Disp (lt_resource_type (lr_target r)), Lit ''.'', Disp a]"

definition check_attribute ::
  "json_lib \<Rightarrow> label_rule \<Rightarrow> (string \<times> json) list \<Rightarrow> string \<Rightarrow> (json \<Rightarrow> bool) \<Rightarrow>
     string \<times> string \<times> string \<Rightarrow> diagnostic list" where
  "check_attribute J r attributes a ok msg =
     (case msg of (wrong, expected, missing) \<Rightarrow>
       (case map_of attributes a of
          Some v \<Rightarrow>
            if ok v then []
            else [diag_error wrong (attribute_name r a @
                    [Lit '' must have schema type '', Lit expected, Lit '', found '', Disp (jl_display J v)])]
        | None \<Rightarrow> [diag_error missing (attribute_name r a @ [Lit '' is not declared in the schema''])]))"

definition validate_rule_schema ::
  "cedar \<Rightarrow> json_lib \<Rightarrow> string set \<Rightarrow> json \<Rightarrow> label_rule \<Rightarrow> diagnostic list" where
  "validate_rule_schema C J known schema_json r =
     (let kind = lt_resource_type (lr_target r)
      in if kind \<notin> known
         then [diag_error ''labels.unknown_kind''
                 [Lit ''label kind '', Disp kind, Lit '' is not declared in the schema'']]
         else (case entity_attributes C schema_json kind of
             None \<Rightarrow> [diag_error ''labels.missing_shape''
                        [Lit ''label kind '', Disp kind, Lit '' has no record shape'']]
           | Some attributes \<Rightarrow>
               check_attribute J r attributes (lr_field r) is_string_type
                 (''labels.field_not_string'', ''String'', ''labels.field_missing'') @
               check_attribute J r attributes (lt_attribute (lr_target r)) is_string_set_type
                 (''labels.output_not_string_set'', ''Set<String>'', ''labels.output_missing'')))"

definition validate_schema ::
  "cedar \<Rightarrow> json_lib \<Rightarrow> label_set \<Rightarrow> schema \<Rightarrow> json \<Rightarrow> diagnostic list" where
  "validate_schema C J rules schema schema_json =
     concat (map (validate_rule_schema C J (set (sc_entity_types schema)) schema_json) rules)"

definition validate_schema_json_str ::
  "cedar \<Rightarrow> json_lib \<Rightarrow> label_set \<Rightarrow> string \<Rightarrow> bundle_error + unit" where
  "validate_schema_json_str C J rules source =
     and_then (map_err (\<lambda>e. invalid ''schema.invalid_json'' [Disp (je_text e)])
                 (from_str J ''Value'' decode_value source)) (\<lambda>schema_json.
     and_then (map_err (\<lambda>e. invalid ''schema.aggregate_invalid'' [Disp e])
                 (cd_schema_from_json C schema_json)) (\<lambda>schema.
       let ds = validate_schema C J rules schema schema_json
       in if ds = [] then Inr () else Inl (Validation ds)))"

section \<open>What an accepted rule means\<close>

text \<open>
  Specification of the resolution: a shape denotes a record when a chain of references to common
  types leads from it to one.
\<close>

inductive denotes :: "json \<Rightarrow> string \<Rightarrow> json \<Rightarrow> (string \<times> json) list \<Rightarrow> bool"
  for schema_json :: json where
  denotes_record:
    "type_is shape ''Record'' \<Longrightarrow> json_get shape ''attributes'' = Some (JObject m) \<Longrightarrow>
     denotes schema_json namespace shape m"
| denotes_common:
    "type_is shape ''EntityOrCommon'' \<Longrightarrow> json_get shape ''name'' = Some (JString name) \<Longrightarrow>
     common_type schema_json (resolve_name namespace name) = Some common \<Longrightarrow>
     denotes schema_json (fst (resolve_name namespace name)) common m \<Longrightarrow>
     denotes schema_json namespace shape m"

declare record_attributes.simps [simp del]

lemma record_attributes_sound:
  "record_attributes S namespace shape visited = Some m \<Longrightarrow> denotes S namespace shape m"
proof (induction S namespace shape visited rule: record_attributes.induct)
  case (1 S namespace shape visited)
  show ?case
  proof (cases "type_is shape ''Record''")
    case True
    with "1.prems" show ?thesis
      by (auto simp: record_attributes.simps [of S namespace] bind_eq_Some_conv intro: denotes_record)
  next
    case False
    with "1.prems" obtain name common where
      e: "type_is shape ''EntityOrCommon''" "json_get shape ''name'' = Some (JString name)"
      and new: "qualified_name (resolve_name namespace name) \<notin> visited"
      and c: "common_type S (resolve_name namespace name) = Some common"
      and rec: "record_attributes S (fst (resolve_name namespace name)) common
          (insert (qualified_name (resolve_name namespace name)) visited) = Some m"
      by (auto simp: record_attributes.simps [of S namespace] bind_eq_Some_conv hs_insert_def Let_def
          split: if_splits option.splits)
    have "denotes S (fst (resolve_name namespace name)) common m"
      using e new c rec False by (intro "1.IH") (auto simp: hs_insert_def)
    with e c show ?thesis by (rule denotes_common)
  qed
qed

lemma denotes_unique: "denotes S namespace shape m \<Longrightarrow> denotes S namespace shape m' \<Longrightarrow> m = m'"
proof (induction arbitrary: m' rule: denotes.induct)
  case (denotes_record shape m namespace)
  from denotes_record.prems denotes_record.hyps show ?case
    by cases (simp_all add: type_is_def)
next
  case (denotes_common shape name namespace common m)
  from denotes_common.prems show ?case
  proof cases
    case denotes_record
    with denotes_common.hyps show ?thesis by (simp add: type_is_def)
  next
    case (denotes_common name' common')
    with \<open>json_get shape ''name'' = Some (JString name)\<close>
      \<open>common_type S (resolve_name namespace name) = Some common\<close>
    show ?thesis by (intro denotes_common.IH) auto
  qed
qed

text \<open>The number of common types followed.\<close>

inductive denotes_in :: "json \<Rightarrow> nat \<Rightarrow> string \<Rightarrow> json \<Rightarrow> (string \<times> json) list \<Rightarrow> bool"
  for schema_json :: json where
  denotes_in_record:
    "type_is shape ''Record'' \<Longrightarrow> json_get shape ''attributes'' = Some (JObject m) \<Longrightarrow>
     denotes_in schema_json 0 namespace shape m"
| denotes_in_common:
    "type_is shape ''EntityOrCommon'' \<Longrightarrow> json_get shape ''name'' = Some (JString name) \<Longrightarrow>
     common_type schema_json (resolve_name namespace name) = Some common \<Longrightarrow>
     denotes_in schema_json n (fst (resolve_name namespace name)) common m \<Longrightarrow>
     denotes_in schema_json (Suc n) namespace shape m"

lemma denotes_denotes_in: "denotes S namespace shape m \<Longrightarrow> \<exists>n. denotes_in S n namespace shape m"
  by (induction rule: denotes.induct) (blast intro: denotes_in.intros)+

lemma not_both_types: "type_is v ''Record'' \<Longrightarrow> \<not> type_is v ''EntityOrCommon''"
  by (simp add: type_is_def)

lemma denotes_in_unique:
  "denotes_in S n namespace shape m \<Longrightarrow> denotes_in S n' namespace shape m' \<Longrightarrow> n = n'"
proof (induction arbitrary: n' m' rule: denotes_in.induct)
  case (denotes_in_record shape m namespace)
  from denotes_in_record.prems show ?case
    by cases (use denotes_in_record.hyps in \<open>simp_all add: type_is_def\<close>)
next
  case (denotes_in_common shape name namespace common n m)
  from denotes_in_common.prems show ?case
  proof cases
    case denotes_in_record
    with denotes_in_common.hyps(1) show ?thesis by (simp add: type_is_def)
  next
    case (denotes_in_common name' common' k)
    with \<open>json_get shape ''name'' = Some (JString name)\<close>
      \<open>common_type S (resolve_name namespace name) = Some common\<close>
    show ?thesis using denotes_in_common.IH by auto
  qed
qed

text \<open>
  Common types have distinct qualified names, as they do when their names are Cedar identifiers.
\<close>

definition distinct_names :: "json \<Rightarrow> bool" where
  "distinct_names S \<longleftrightarrow> inj_on qualified_name {q. common_type S q \<noteq> None}"

lemma record_attributes_complete_in:
  assumes "distinct_names S"
  shows "denotes_in S n namespace shape m \<Longrightarrow>
     (\<And>q common k m'. common_type S q = Some common \<Longrightarrow> denotes_in S k (fst q) common m' \<Longrightarrow> k < n \<Longrightarrow>
        qualified_name q \<notin> visited) \<Longrightarrow>
     record_attributes S namespace shape visited = Some m"
proof (induction arbitrary: visited rule: denotes_in.induct)
  case (denotes_in_record shape m namespace)
  then show ?case by (simp add: record_attributes.simps [of S namespace])
next
  case (denotes_in_common shape name namespace common n m)
  let ?q = "resolve_name namespace name"
  have new: "qualified_name ?q \<notin> visited"
    using denotes_in_common.hyps(3,4) by (rule denotes_in_common.prems) simp
  have "record_attributes S (fst ?q) common (insert (qualified_name ?q) visited) = Some m"
  proof (rule denotes_in_common.IH)
    fix q' common' k m'
    assume q': "common_type S q' = Some common'" "denotes_in S k (fst q') common' m'" "k < n"
    then have "qualified_name q' \<notin> visited" by (intro denotes_in_common.prems) auto
    moreover have "qualified_name q' \<noteq> qualified_name ?q"
    proof
      assume "qualified_name q' = qualified_name ?q"
      with assms q'(1) denotes_in_common.hyps(3) have "q' = ?q"
        by (auto simp: distinct_names_def dest: inj_onD)
      with q' denotes_in_common.hyps(3,4) denotes_in_unique have "k = n" by fastforce
      with q'(3) show False by simp
    qed
    ultimately show "qualified_name q' \<notin> insert (qualified_name ?q) visited" by simp
  qed
  with new denotes_in_common.hyps show ?case
    using not_both_types by (auto simp: record_attributes.simps [of S namespace] hs_insert_def)
qed

lemma record_attributes_iff:
  assumes "distinct_names S"
  shows "record_attributes S namespace shape {} = Some m \<longleftrightarrow> denotes S namespace shape m"
proof
  assume "denotes S namespace shape m"
  then obtain n where "denotes_in S n namespace shape m" using denotes_denotes_in by blast
  then show "record_attributes S namespace shape {} = Some m"
    by (rule record_attributes_complete_in [OF assms]) simp
qed (rule record_attributes_sound)

definition declared_string_field :: "cedar \<Rightarrow> schema \<Rightarrow> json \<Rightarrow> label_rule \<Rightarrow> bool" where
  "declared_string_field C schema schema_json r \<longleftrightarrow>
     lt_resource_type (lr_target r) \<in> set (sc_entity_types schema) \<and>
     (\<exists>m v w. entity_attributes C schema_json (lt_resource_type (lr_target r)) = Some m \<and>
        map_of m (lr_field r) = Some v \<and> is_string_type v \<and>
        map_of m (lt_attribute (lr_target r)) = Some w \<and> is_string_set_type w)"

lemma check_attribute_Nil_iff:
  "check_attribute J r m a ok msg = [] \<longleftrightarrow> (\<exists>v. map_of m a = Some v \<and> ok v)"
  by (auto simp: check_attribute_def split: option.splits prod.splits)

lemma all_errors_check_attribute: "all_errors (check_attribute J r m a ok msg)"
  by (auto simp: check_attribute_def split: option.splits prod.splits)

lemma validate_rule_schema_Nil_iff:
  "validate_rule_schema C J (set (sc_entity_types schema)) schema_json r = [] \<longleftrightarrow>
     declared_string_field C schema schema_json r"
  by (auto simp: validate_rule_schema_def Let_def declared_string_field_def check_attribute_Nil_iff
      split: option.splits)

lemma validate_schema_Nil_iff:
  "validate_schema C J rules schema schema_json = [] \<longleftrightarrow>
     (\<forall>r \<in> set rules. declared_string_field C schema schema_json r)"
  by (simp add: validate_schema_def validate_rule_schema_Nil_iff)

lemma all_errors_validate_schema: "all_errors (validate_schema C J rules schema schema_json)"
  by (auto simp: validate_schema_def all_errors_concat validate_rule_schema_def Let_def
      all_errors_check_attribute split: option.splits)

lemma entity_attributes_denotes:
  "entity_attributes C S kind = Some m \<Longrightarrow>
     \<exists>namespace basename shape. cd_parse_name C kind = Some (namespace, basename) \<and> denotes S namespace shape m"
  by (fastforce simp: entity_attributes_def bind_eq_Some_conv dest: record_attributes_sound)

end
