(* ===== verification/Compile.thy ===== *)
theory Compile
  imports Schemas Label_Schema
begin

text \<open>
  \<open>src/validation.rs\<close>, the pipeline: \<open>check_policy\<close> for one document, \<open>compile_manifest\<close> from
  the files of the selected modules to the parts of a bundle, and \<open>validate_archive_parts\<close> for
  the parts read from an archive.

  The mutable locals of \<open>compile_manifest\<close> are the record \<open>compile_state\<close>; each inner loop body
  is a function on it that may fail with the error the code returns.
\<close>

record compile_env =
  ce_source :: source_env
  ce_labels :: label_env

abbreviation ce_fs :: "compile_env \<Rightarrow> file_system" where "ce_fs E \<equiv> se_fs (ce_source E)"
abbreviation ce_cedar :: "compile_env \<Rightarrow> cedar" where "ce_cedar E \<equiv> se_cedar (ce_source E)"
abbreviation ce_json :: "compile_env \<Rightarrow> json_lib" where "ce_json E \<equiv> le_json (ce_labels E)"

record bundle_parts =
  bp_name :: string
  bp_modules :: "module_record list"
  bp_policies :: string
  bp_schema_json :: "json option"
  bp_labels :: label_set
  bp_policy_ids :: "string list"
  bp_diagnostics :: "diagnostic list"

section \<open>A standalone policy document\<close>

definition check_policy_labels ::
  "compile_env \<Rightarrow> string option \<Rightarrow> bundle_error + label_set option \<times> diagnostic list" where
  "check_policy_labels E source =
     (case source of
        None \<Rightarrow> Inr (None, [])
      | Some s \<Rightarrow>
          (case from_json_str (ce_labels E) s of
             Inr labels \<Rightarrow> Inr (Some labels, [])
           | Inl (Validation ds) \<Rightarrow> Inr (None, ds)
           | Inl e \<Rightarrow> Inl e))"

definition check_policy_schema ::
  "compile_env \<Rightarrow> string option \<Rightarrow> bundle_error + (schema \<times> json) option \<times> diagnostic list" where
  "check_policy_schema E source =
     (case source of
        None \<Rightarrow> Inr (None, [])
      | Some s \<Rightarrow>
          (case parse_schema_fragment (ce_cedar E) s of
             Inl e \<Rightarrow> Inr (None, [diag_error ''schema.syntax'' [Disp e]])
           | Inr (fragment, warnings) \<Rightarrow>
               (case fr_schema fragment of
                  Inl e \<Rightarrow> Inr (None, warnings @ [diag_error ''schema.invalid'' [Disp e]])
                | Inr schema \<Rightarrow>
                    map_ok (\<lambda>json. (Some (schema, json), warnings)) (map_err (\<lambda>e. Serialization [Disp e]) (fr_json fragment)))))"

definition schema_check_skipped :: diagnostic where
  "schema_check_skipped =
     diag_warning ''labels.schema_check_skipped''
       [Lit ''label/schema compatibility was not checked because no schema was provided'']"

definition check_policy ::
  "compile_env \<Rightarrow> string \<Rightarrow> string option \<Rightarrow> string option \<Rightarrow> bundle_error + policy_check" where
  "check_policy E policy_source schema_source labels_source =
     (let (policy_set, ds) =
            (case cd_parse_policies (ce_cedar E) policy_source of
               Inr ps \<Rightarrow> (Some ps, [])
             | Inl e \<Rightarrow> (None, [diag_error ''policy.syntax'' [Disp e]]))
      in and_then (check_policy_labels E labels_source) (\<lambda>(labels, label_ds).
         and_then (check_policy_schema E schema_source) (\<lambda>(schema, schema_ds).
           let ds = ds @ label_ds @ schema_ds;
               ds = (case (policy_set, schema) of
                       (Some ps, Some (s, _)) \<Rightarrow> validate_policy_set ps s ds
                     | _ \<Rightarrow> ds);
               ds = (case (labels, schema) of
                       (Some l, Some (s, j)) \<Rightarrow> ds @ validate_schema (ce_cedar E) (ce_json E) l s j
                     | (Some _, None) \<Rightarrow> ds @ [schema_check_skipped]
                     | _ \<Rightarrow> ds)
           in Inr \<lparr>pc_diagnostics = ds\<rparr>)))"

section \<open>Compiling the selected modules\<close>

record compile_state =
  cs_diagnostics :: "diagnostic list"
  cs_policy_text :: string
  cs_policy_ids :: "string list"
  cs_aggregate :: policy_set
  cs_index :: nat
  cs_aggregate_valid :: bool
  cs_modules :: "module_record list"
  cs_schema :: json
  cs_has_schema :: bool
  cs_label_sets :: "label_set list"

definition compile_init :: compile_state where
  "compile_init =
     \<lparr>cs_diagnostics = [], cs_policy_text = [], cs_policy_ids = [],
      cs_aggregate = \<lparr>ps_templates = 0, ps_policies = []\<rparr>, cs_index = 0, cs_aggregate_valid = True,
      cs_modules = [], cs_schema = JObject [], cs_has_schema = False, cs_label_sets = []\<rparr>"

definition read_utf8 :: "file_system \<Rightarrow> string \<Rightarrow> bundle_error + string" where
  "read_utf8 F path =
     and_then (map_err (Io path) (fs_read F path)) (\<lambda>bytes.
     and_then (ensure (utf8_valid bytes)
                 (Validation [at_path path (diag_error ''input.invalid_utf8'' [Utf8_error bytes])])) (\<lambda>_.
       Inr bytes))"

abbreviation push :: "diagnostic list \<Rightarrow> compile_state \<Rightarrow> compile_state" where
  "push ds s \<equiv> s\<lparr>cs_diagnostics := cs_diagnostics s @ ds\<rparr>"

definition aggregate_id :: "nat \<Rightarrow> string" where
  "aggregate_id n = ''treetop-bundle-'' @ show_nat n"

definition add_to_aggregate :: "cedar \<Rightarrow> policy \<Rightarrow> compile_state \<Rightarrow> compile_state" where
  "add_to_aggregate C p s =
     (let q = p\<lparr>p_id := aggregate_id (cs_index s)\<rparr>;
          s = s\<lparr>cs_index := cs_index s + 1\<rparr>
      in case cd_add_policy C (cs_aggregate s) q of
           Inr ps \<Rightarrow> s\<lparr>cs_aggregate := ps\<rparr>
         | Inl e \<Rightarrow> (push [diag_error ''policy.aggregate_build'' [Disp e]] s)\<lparr>cs_aggregate_valid := False\<rparr>)"

definition section_header :: "string \<Rightarrow> string \<Rightarrow> string" where
  "section_header name path =
     ''// treetop-module: '' @ single_line name @ ''; path: '' @ single_line path @ [LF]"

fun compile_policy_file ::
  "compile_env \<Rightarrow> module_manifest \<Rightarrow> module_record \<Rightarrow> string list \<times> compile_state \<Rightarrow> string \<Rightarrow>
     bundle_error + string list \<times> compile_state" where
  "compile_policy_file E m record (ids, s) path =
     and_then (read_utf8 (ce_fs E) (input_path m path)) (\<lambda>source.
       let normalized = normalize_text source
       in case cd_parse_policies (ce_cedar E) normalized of
            Inl e \<Rightarrow>
              Inr (ids, push [(at_path path \<circ> in_module (mm_name m))
                                (diag_error ''policy.syntax'' [Disp e])] s)
          | Inr parsed \<Rightarrow>
              (let (ids, all_ids, ds) =
                     validate_module_policies parsed record path (ids, cs_policy_ids s, cs_diagnostics s);
                   s = s\<lparr>cs_policy_ids := all_ids, cs_diagnostics := ds\<rparr>;
                   s = fold (add_to_aggregate (ce_cedar E)) (filter p_static (ps_policies parsed)) s
               in Inr (ids, s\<lparr>cs_policy_text :=
                         cs_policy_text s @ section_header (mm_name m) path @ normalized\<rparr>)))"

definition compile_schema_file ::
  "compile_env \<Rightarrow> module_manifest \<Rightarrow> compile_state \<Rightarrow> string \<Rightarrow> bundle_error + compile_state" where
  "compile_schema_file E m s path =
     (let s = s\<lparr>cs_has_schema := True\<rparr>; place = at_path path \<circ> in_module (mm_name m)
      in and_then (read_utf8 (ce_fs E) (input_path m path)) (\<lambda>source.
           case parse_schema_fragment (ce_cedar E) source of
             Inl e \<Rightarrow> Inr (push [place (diag_error ''schema.syntax'' [Disp e])] s)
           | Inr (fragment, warnings) \<Rightarrow>
               and_then (map_err (\<lambda>e. Serialization [Disp e]) (fr_json fragment)) (\<lambda>fragment_json.
                 let ds = cs_diagnostics s @ map place warnings;
                     ds = validate_schema_ownership fragment_json (mm_name m) (mm_namespace m) path ds;
                     (schema, ds) = merge_schema_fragment (cs_schema s) fragment_json (mm_name m) path ds
                 in Inr (s\<lparr>cs_schema := schema, cs_diagnostics := ds\<rparr>))))"

definition label_violations :: "module_manifest \<Rightarrow> string \<Rightarrow> label_set \<Rightarrow> diagnostic list" where
  "label_violations m path labels =
     map (\<lambda>r. (at_path path \<circ> in_module (mm_name m)) (diag_error ''labels.namespace_violation''
            [Lit ''label kind '', Disp (lt_resource_type (lr_target r)), Lit '' is outside namespace '',
             Disp (mm_namespace m)]))
       (filter (\<lambda>r. \<not> namespace_owns (mm_namespace m) (lt_resource_type (lr_target r))) labels)"

definition compile_label_file ::
  "compile_env \<Rightarrow> module_manifest \<Rightarrow> compile_state \<Rightarrow> string \<Rightarrow> bundle_error + compile_state" where
  "compile_label_file E m s path =
     and_then (read_utf8 (ce_fs E) (input_path m path)) (\<lambda>source.
       case from_json_str (ce_labels E) source of
         Inr labels \<Rightarrow>
           Inr ((push (label_violations m path labels) s)\<lparr>cs_label_sets := cs_label_sets s @ [labels]\<rparr>)
       | Inl (Validation ds) \<Rightarrow> Inr (push (map (at_path path \<circ> in_module (mm_name m)) ds) s)
       | Inl e \<Rightarrow> Inl e)"

definition record_of :: "module_selection \<Rightarrow> module_record" where
  "record_of m =
     \<lparr>mr_name = mm_name (ms_manifest m), mr_namespace = mm_namespace (ms_manifest m),
      mr_imports = mm_imports (ms_manifest m), mr_role = ms_role m, mr_policy_ids = []\<rparr>"

definition compile_module ::
  "compile_env \<Rightarrow> compile_state \<Rightarrow> module_selection \<Rightarrow> bundle_error + compile_state" where
  "compile_module E s selected =
     (let m = ms_manifest selected; record = record_of selected
      in and_then (try_fold (compile_policy_file E m record) ([], s) (mm_policies m)) (\<lambda>(ids, s).
         and_then (try_fold (compile_schema_file E m) s (mm_schemas m)) (\<lambda>s.
         and_then (try_fold (compile_label_file E m) s (mm_labels m)) (\<lambda>s.
           Inr (s\<lparr>cs_modules := cs_modules s @ [record\<lparr>mr_policy_ids := ids\<rparr>]\<rparr>)))))"

definition compatibility_skipped :: diagnostic where
  "compatibility_skipped =
     diag_warning ''schema.compatibility_skipped''
       [Lit ''policy and label schema compatibility checks were skipped because the bundle has no schema'']"

text \<open>After the loop: the labels of all modules, and the aggregate against the schema.\<close>

definition combine_labels :: "compile_state \<Rightarrow> bundle_error + label_set \<times> diagnostic list" where
  "combine_labels s =
     (case combine (cs_label_sets s) of
        Inr labels \<Rightarrow> Inr (labels, cs_diagnostics s)
      | Inl (Validation ds) \<Rightarrow> Inr ([], cs_diagnostics s @ ds)
      | Inl e \<Rightarrow> Inl e)"

definition check_aggregate ::
  "compile_env \<Rightarrow> compile_state \<Rightarrow> label_set \<Rightarrow> diagnostic list \<Rightarrow> json option \<times> diagnostic list" where
  "check_aggregate E s labels ds =
     (if cs_has_schema s
      then (case cd_schema_from_json (ce_cedar E) (cs_schema s) of
              Inr schema \<Rightarrow>
                (let ds = (if cs_aggregate_valid s then validate_policy_set (cs_aggregate s) schema ds else ds)
                 in (Some (cs_schema s),
                     ds @ validate_schema (ce_cedar E) (ce_json E) labels schema (cs_schema s)))
            | Inl e \<Rightarrow> (None, ds @ [diag_error ''schema.aggregate_invalid'' [Disp e]]))
      else (None, ds @ [compatibility_skipped]))"

definition compile_manifest :: "compile_env \<Rightarrow> bundle_manifest \<Rightarrow> bundle_error + bundle_parts" where
  "compile_manifest E manifest =
     and_then (try_fold (compile_module E) compile_init (bun_modules manifest)) (\<lambda>s.
     and_then (combine_labels s) (\<lambda>(labels, ds).
       let (schema_json, ds) = check_aggregate E s labels ds
       in if has_error ds then Inl (Validation ds)
          else Inr \<lparr>bp_name = bun_name manifest, bp_modules = cs_modules s,
                    bp_policies = cs_policy_text s, bp_schema_json = schema_json, bp_labels = labels,
                    bp_policy_ids = cs_policy_ids s, bp_diagnostics = ds\<rparr>))"

definition check_module :: "compile_env \<Rightarrow> string \<Rightarrow> bundle_error + policy_check" where
  "check_module E path =
     and_then (module_from_path (ce_source E) path) (\<lambda>m.
     and_then (compile_manifest E (for_single_module m)) (\<lambda>parts.
       Inr \<lparr>pc_diagnostics = bp_diagnostics parts\<rparr>))"

section \<open>Validating the parts of an archive\<close>

definition module_by_policy :: "module_record list \<Rightarrow> (string \<times> module_record) list" where
  "module_by_policy modules =
     bm_collect (concat (map (\<lambda>m. map (\<lambda>pid. (pid, m)) (mr_policy_ids m)) modules))"

fun check_archive_policy ::
  "(string \<times> module_record) list \<Rightarrow> policy \<Rightarrow> string list \<times> diagnostic list \<Rightarrow>
     string list \<times> diagnostic list" where
  "check_archive_policy by_policy p (actual, ds) =
     (case non_empty_id p of
        None \<Rightarrow> (actual, ds @ [missing_id_diagnostic])
      | Some pid \<Rightarrow>
          (let (new, actual) = bs_insert pid actual;
               ds = (if new then ds else ds @ [duplicate_id_diagnostic pid])
           in case map_of by_policy pid of
                None \<Rightarrow>
                  (actual, ds @ [diag_error ''archive.policy_module_missing''
                                   [Lit ''policy '', Dbg pid, Lit '' is not assigned to a module'']])
              | Some m \<Rightarrow>
                  (actual,
                   validate_policy_ownership p pid m (ds @ id_prefix_diagnostics pid (mr_name m)))))"

definition unowned_labels :: "module_record list \<Rightarrow> label_set \<Rightarrow> diagnostic list" where
  "unowned_labels modules labels =
     map (\<lambda>r. diag_error ''labels.namespace_violation''
            [Lit ''label kind '', Disp (lt_resource_type (lr_target r)), Lit '' is not owned by any module''])
       (filter (\<lambda>r. \<not> list_ex (\<lambda>m. namespace_owns (mr_namespace m) (lt_resource_type (lr_target r))) modules)
          labels)"

definition check_archive_schema ::
  "compile_env \<Rightarrow> module_record list \<Rightarrow> policy_set \<Rightarrow> json option \<Rightarrow> label_set \<Rightarrow> diagnostic list \<Rightarrow>
     diagnostic list" where
  "check_archive_schema E modules policy_set schema_json labels ds =
     (case schema_json of
        Some j \<Rightarrow>
          (let ds = validate_aggregate_schema_ownership j modules ds
           in case cd_schema_from_json (ce_cedar E) j of
                Inr schema \<Rightarrow>
                  validate_policy_set policy_set schema ds @
                    validate_schema (ce_cedar E) (ce_json E) labels schema j
              | Inl e \<Rightarrow> ds @ [diag_error ''schema.aggregate_invalid'' [Disp e]])
      | None \<Rightarrow> ds @ [compatibility_skipped])"

definition validate_archive_parts ::
  "compile_env \<Rightarrow> string \<Rightarrow> module_record list \<Rightarrow> string \<Rightarrow> json option \<Rightarrow> label_set \<Rightarrow> string list \<Rightarrow>
     bundle_error + bundle_parts" where
  "validate_archive_parts E name modules policies schema_json labels declared_policy_ids =
     and_then (map_err (\<lambda>e. invalid ''policy.syntax'' [Disp e]) (cd_parse_policies (ce_cedar E) policies))
     (\<lambda>policy_set.
       let ds = (if not_static policy_set then [templates_diagnostic] else []);
           (actual, ds) = fold (check_archive_policy (module_by_policy modules)) (ps_policies policy_set) ([], ds);
           ds = (if actual \<noteq> bs_collect declared_policy_ids
                 then ds @ [diag_error ''archive.policy_ids_mismatch''
                              [Lit ''manifest policy IDs do not match policies.cedar'']] else ds);
           ds = check_archive_schema E modules policy_set schema_json labels ds;
           ds = ds @ unowned_labels modules labels
       in if has_error ds then Inl (Validation ds)
          else Inr \<lparr>bp_name = name, bp_modules = modules, bp_policies = policies,
                    bp_schema_json = schema_json, bp_labels = labels, bp_policy_ids = actual,
                    bp_diagnostics = ds\<rparr>)"

end
