(* ===== verification/Compile_Correct.thy ===== *)
theory Compile_Correct
  imports Compile
begin

text \<open>
  What \<open>compile_manifest\<close> and \<open>validate_archive_parts\<close> guarantee of the parts they return.

  \<open>module_compiled\<close> relates a selected module to its record, its schema fragments and its label
  sets: every policy is static, has an identifier and mentions only what the module may mention,
  every namespace and every label destination is the module's own.  The invariant
  \<open>compiled_upto\<close> carries it through the loop over the modules.
\<close>

section \<open>Files\<close>

definition source_text :: "compile_env \<Rightarrow> module_manifest \<Rightarrow> string \<Rightarrow> string option" where
  "source_text E m path =
     (case fs_read (ce_fs E) (input_path m path) of
        Inr b \<Rightarrow> if utf8_valid b then Some b else None
      | Inl _ \<Rightarrow> None)"

lemma read_utf8_Inr:
  "read_utf8 (ce_fs E) (input_path m path) = Inr b \<longleftrightarrow> source_text E m path = Some b"
  by (auto simp: read_utf8_def result_iff source_text_def split: sum.splits if_splits)

definition policy_source :: "compile_env \<Rightarrow> module_manifest \<Rightarrow> string \<Rightarrow> policy_set \<Rightarrow> bool" where
  "policy_source E m path ps \<longleftrightarrow>
     (\<exists>src. source_text E m path = Some src \<and> cd_parse_policies (ce_cedar E) (normalize_text src) = Inr ps)"

definition schema_source :: "compile_env \<Rightarrow> module_manifest \<Rightarrow> string \<Rightarrow> json \<Rightarrow> bool" where
  "schema_source E m path F \<longleftrightarrow>
     (\<exists>src fragment warnings. source_text E m path = Some src \<and>
        parse_schema_fragment (ce_cedar E) src = Inr (fragment, warnings) \<and> fr_json fragment = Inr F)"

definition label_source :: "compile_env \<Rightarrow> module_manifest \<Rightarrow> string \<Rightarrow> label_set \<Rightarrow> bool" where
  "label_source E m path labels \<longleftrightarrow>
     (\<exists>src. source_text E m path = Some src \<and> from_json_str (ce_labels E) src = Inr labels)"

definition policy_section :: "compile_env \<Rightarrow> module_manifest \<Rightarrow> string \<Rightarrow> string" where
  "policy_section E m path =
     section_header (mm_name m) path @ normalize_text (the (source_text E m path))"

section \<open>One file\<close>

lemma policy_ok_ids [simp]: "policy_ok (m\<lparr>mr_policy_ids := ids\<rparr>) p = policy_ok m p"
  by (simp add: policy_ok_def may_mention_def)

lemma add_to_aggregate_frame:
  "cs_policy_ids (add_to_aggregate C p s) = cs_policy_ids s"
  "cs_policy_text (add_to_aggregate C p s) = cs_policy_text s"
  "cs_modules (add_to_aggregate C p s) = cs_modules s"
  "cs_schema (add_to_aggregate C p s) = cs_schema s"
  "cs_has_schema (add_to_aggregate C p s) = cs_has_schema s"
  "cs_label_sets (add_to_aggregate C p s) = cs_label_sets s"
  "has_error (cs_diagnostics s) \<Longrightarrow> has_error (cs_diagnostics (add_to_aggregate C p s))"
  by (simp_all add: add_to_aggregate_def Let_def split: sum.split)

lemma fold_add_to_aggregate_frame:
  "cs_policy_ids (fold (add_to_aggregate C) ps s) = cs_policy_ids s"
  "cs_policy_text (fold (add_to_aggregate C) ps s) = cs_policy_text s"
  "cs_modules (fold (add_to_aggregate C) ps s) = cs_modules s"
  "cs_schema (fold (add_to_aggregate C) ps s) = cs_schema s"
  "cs_has_schema (fold (add_to_aggregate C) ps s) = cs_has_schema s"
  "cs_label_sets (fold (add_to_aggregate C) ps s) = cs_label_sets s"
  "has_error (cs_diagnostics s) \<Longrightarrow> has_error (cs_diagnostics (fold (add_to_aggregate C) ps s))"
  by (induction ps arbitrary: s) (simp_all add: add_to_aggregate_frame)

text \<open>The parts of the state that the loop over the policy files of a module leaves alone.\<close>

definition same_rest :: "compile_state \<Rightarrow> compile_state \<Rightarrow> bool" where
  "same_rest s t \<longleftrightarrow>
     cs_modules t = cs_modules s \<and> cs_schema t = cs_schema s \<and> cs_has_schema t = cs_has_schema s \<and>
     cs_label_sets t = cs_label_sets s"

lemma compile_policy_file_spec:
  assumes "compile_policy_file E m rc (ids, s) path = Inr (ids', s')"
    and "\<not> has_error (cs_diagnostics s')"
  shows "\<not> has_error (cs_diagnostics s) \<and> same_rest s s' \<and>
    cs_policy_text s' = cs_policy_text s @ policy_section E m path \<and>
    (\<exists>ps. policy_source E m path ps \<and> \<not> not_static ps \<and>
       policies_ok rc (set (cs_policy_ids s)) (ps_policies ps) \<and>
       ids' = ids @ declared_ids (ps_policies ps) \<and>
       cs_policy_ids s' = fold bs_add (declared_ids (ps_policies ps)) (cs_policy_ids s))"
proof -
  from assms(1) obtain src where src: "source_text E m path = Some src"
    by (auto simp: result_iff read_utf8_Inr)
  with assms obtain ps where ps: "cd_parse_policies (ce_cedar E) (normalize_text src) = Inr ps"
    by (cases "cd_parse_policies (ce_cedar E) (normalize_text src)")
      (auto simp: result_iff read_utf8_Inr Let_def)
  obtain mids all ds where
    v: "validate_module_policies ps rc path (ids, cs_policy_ids s, cs_diagnostics s) = (mids, all, ds)"
    by (metis prod_cases3)
  from assms(1) src ps v have s': "ids' = mids"
    "s' = (fold (add_to_aggregate (ce_cedar E)) (filter p_static (ps_policies ps))
             (s\<lparr>cs_policy_ids := all, cs_diagnostics := ds\<rparr>))
      \<lparr>cs_policy_text := cs_policy_text s @ policy_section E m path\<rparr>"
    by (auto simp: result_iff read_utf8_Inr Let_def fold_add_to_aggregate_frame policy_section_def
        simp del: validate_module_policies.simps)
  have "\<not> has_error ds"
    using assms(2) fold_add_to_aggregate_frame(7) [of "s\<lparr>cs_policy_ids := all, cs_diagnostics := ds\<rparr>"]
    by (auto simp: s')
  with validate_module_policies_spec [OF v] show ?thesis
    using src ps s'
    by (auto simp: policy_source_def same_rest_def fold_add_to_aggregate_frame)
qed

lemma compile_schema_file_spec:
  assumes "compile_schema_file E m s path = Inr s'" and "\<not> has_error (cs_diagnostics s')"
  shows "\<not> has_error (cs_diagnostics s) \<and> cs_modules s' = cs_modules s \<and> cs_has_schema s' \<and>
    cs_label_sets s' = cs_label_sets s \<and> cs_policy_ids s' = cs_policy_ids s \<and>
    cs_policy_text s' = cs_policy_text s \<and>
    (\<exists>F. schema_source E m path F \<and> (\<forall>ns \<in> declared_namespaces F. namespace_owns (mm_namespace m) ns) \<and>
       (schema_shaped (cs_schema s) \<longrightarrow> schema_shaped F \<longrightarrow> merged_with (cs_schema s) F (cs_schema s')))"
proof -
  from assms(1) obtain src where src: "source_text E m path = Some src"
    by (auto simp: compile_schema_file_def Let_def result_iff read_utf8_Inr)
  with assms obtain fragment warnings where
    f: "parse_schema_fragment (ce_cedar E) src = Inr (fragment, warnings)"
    by (cases "parse_schema_fragment (ce_cedar E) src")
      (auto simp: compile_schema_file_def Let_def result_iff read_utf8_Inr)
  with assms(1) src obtain F where F: "fr_json fragment = Inr F"
    by (auto simp: compile_schema_file_def Let_def result_iff read_utf8_Inr)
  define ds1 where "ds1 = cs_diagnostics s @ map (at_path path \<circ> in_module (mm_name m)) warnings"
  define ds2 where "ds2 = validate_schema_ownership F (mm_name m) (mm_namespace m) path ds1"
  obtain S ds3 where g: "merge_schema_fragment (cs_schema s) F (mm_name m) path ds2 = (S, ds3)" by fastforce
  from assms(1) src f F g have s': "s' = s\<lparr>cs_has_schema := True, cs_schema := S, cs_diagnostics := ds3\<rparr>"
    by (auto simp: compile_schema_file_def Let_def result_iff read_utf8_Inr ds1_def ds2_def)
  from merge_schema_fragment_append [OF g] obtain new where new: "ds3 = ds2 @ new" "all_errors new" by blast
  with assms(2) s' have e: "\<not> has_error ds2" "new = []" by (auto dest: all_errors_has_error)
  then have "\<not> has_error (cs_diagnostics s)" "\<forall>ns \<in> declared_namespaces F. namespace_owns (mm_namespace m) ns"
    by (auto simp: ds1_def ds2_def validate_schema_ownership_iff)
  moreover have "merge_schema_fragment (cs_schema s) F (mm_name m) path ds2 = (cs_schema s', ds2)"
    using g new e s' by simp
  moreover have "schema_source E m path F" using src f F by (auto simp: schema_source_def)
  ultimately show ?thesis using s' merge_schema_fragment_silent [of "cs_schema s" F]
    by (intro conjI exI [of _ F]) auto
qed

lemma compile_label_file_spec:
  assumes "compile_label_file E m s path = Inr s'" and "\<not> has_error (cs_diagnostics s')"
  shows "\<not> has_error (cs_diagnostics s) \<and> cs_modules s' = cs_modules s \<and> cs_schema s' = cs_schema s \<and>
    cs_has_schema s' = cs_has_schema s \<and> cs_policy_ids s' = cs_policy_ids s \<and>
    cs_policy_text s' = cs_policy_text s \<and>
    (\<exists>L. label_source E m path L \<and>
       (\<forall>r \<in> set L. namespace_owns (mm_namespace m) (lt_resource_type (lr_target r))) \<and>
       cs_label_sets s' = cs_label_sets s @ [L])"
proof -
  from assms(1) obtain src where src: "source_text E m path = Some src"
    by (auto simp: compile_label_file_def result_iff read_utf8_Inr)
  show ?thesis
  proof (cases "from_json_str (ce_labels E) src")
    case (Inr L)
    with assms src have s': "s' = (push (label_violations m path L) s)\<lparr>cs_label_sets := cs_label_sets s @ [L]\<rparr>"
      by (auto simp: compile_label_file_def result_iff read_utf8_Inr)
    have "has_error (label_violations m path L) \<longleftrightarrow>
        (\<exists>r \<in> set L. \<not> namespace_owns (mm_namespace m) (lt_resource_type (lr_target r)))"
      by (auto simp: label_violations_def has_error_all_errors_map filter_empty_conv)
    with assms(2) s' src Inr show ?thesis by (auto simp: label_source_def)
  next
    case (Inl e)
    with assms src obtain ds where "e = Validation ds" "ds \<noteq> []" "all_errors ds"
      by (auto dest: from_json_str_Inl)
    with assms src Inl have False
      by (auto simp: compile_label_file_def result_iff read_utf8_Inr all_errors_has_error)
    then show ?thesis ..
  qed
qed

section \<open>The files of a module\<close>

definition static_policies :: "module_record \<Rightarrow> policy_set \<Rightarrow> bool" where
  "static_policies rc ps \<longleftrightarrow>
     \<not> not_static ps \<and> (\<forall>p \<in> set (ps_policies ps). non_empty_id p \<noteq> None \<and> policy_ok rc p)"

abbreviation ids_of_sets :: "policy_set list \<Rightarrow> string list" where
  "ids_of_sets pss \<equiv> concat (map (\<lambda>ps. declared_ids (ps_policies ps)) pss)"

lemma policy_files_spec:
  assumes "try_fold (compile_policy_file E m rc) (ids, s) paths = Inr (ids', s')"
    and "\<not> has_error (cs_diagnostics s')"
  shows "\<not> has_error (cs_diagnostics s) \<and> same_rest s s' \<and>
    cs_policy_text s' = cs_policy_text s @ concat (map (policy_section E m) paths) \<and>
    (\<exists>pss. list_all2 (policy_source E m) paths pss \<and> (\<forall>ps \<in> set pss. static_policies rc ps) \<and>
       ids' = ids @ ids_of_sets pss \<and> distinct (ids_of_sets pss) \<and>
       set (ids_of_sets pss) \<inter> set (cs_policy_ids s) = {} \<and>
       set (cs_policy_ids s') = set (cs_policy_ids s) \<union> set (ids_of_sets pss) \<and>
       (sorted_wrt (<) (cs_policy_ids s) \<longrightarrow> sorted_wrt (<) (cs_policy_ids s')))"
  using assms(1)
proof (induction paths arbitrary: ids s)
  case Nil
  with assms(2) show ?case by (auto simp: same_rest_def)
next
  case (Cons path paths)
  then obtain ids1 s1 where step: "compile_policy_file E m rc (ids, s) path = Inr (ids1, s1)"
    and rest: "try_fold (compile_policy_file E m rc) (ids1, s1) paths = Inr (ids', s')"
    by (auto simp: result_iff simp del: compile_policy_file.simps)
  from Cons.IH [OF rest] obtain pss where IH: "\<not> has_error (cs_diagnostics s1)" "same_rest s1 s'"
    "cs_policy_text s' = cs_policy_text s1 @ concat (map (policy_section E m) paths)"
    "list_all2 (policy_source E m) paths pss" "\<forall>ps \<in> set pss. static_policies rc ps"
    "ids' = ids1 @ ids_of_sets pss" "distinct (ids_of_sets pss)"
    "set (ids_of_sets pss) \<inter> set (cs_policy_ids s1) = {}"
    "set (cs_policy_ids s') = set (cs_policy_ids s1) \<union> set (ids_of_sets pss)"
    "sorted_wrt (<) (cs_policy_ids s1) \<longrightarrow> sorted_wrt (<) (cs_policy_ids s')"
    by blast
  from compile_policy_file_spec [OF step IH(1)] obtain ps where f: "\<not> has_error (cs_diagnostics s)" "same_rest s s1"
    "cs_policy_text s1 = cs_policy_text s @ policy_section E m path"
    "policy_source E m path ps" "\<not> not_static ps" "policies_ok rc (set (cs_policy_ids s)) (ps_policies ps)"
    "ids1 = ids @ declared_ids (ps_policies ps)"
    "cs_policy_ids s1 = fold bs_add (declared_ids (ps_policies ps)) (cs_policy_ids s)"
    by blast
  have "static_policies rc ps" "distinct (declared_ids (ps_policies ps))"
    "set (declared_ids (ps_policies ps)) \<inter> set (cs_policy_ids s) = {}"
    using f(5,6) by (auto simp: static_policies_def policies_ok_def)
  with IH f show ?case
    by (intro conjI exI [of _ "ps # pss"])
      (auto simp: same_rest_def set_fold_bs_add sorted_fold_bs_add)
qed

definition schema_documented :: "compile_env \<Rightarrow> bool" where
  "schema_documented E \<longleftrightarrow>
     (\<forall>src fragment warnings F. parse_schema_fragment (ce_cedar E) src = Inr (fragment, warnings) \<longrightarrow>
        fr_json fragment = Inr F \<longrightarrow> schema_shaped F)"

lemma schema_source_shaped: "schema_documented E \<Longrightarrow> schema_source E m path F \<Longrightarrow> schema_shaped F"
  by (auto simp: schema_documented_def schema_source_def)

text \<open>A schema holds exactly the declarations of the fragments, which are disjoint.\<close>

definition disjoint_declarations :: "json \<Rightarrow> json \<Rightarrow> bool" where
  "disjoint_declarations F G \<longleftrightarrow>
     (\<forall>ns f nm. is_section f \<longrightarrow> declaration_of F ns f nm = None \<or> declaration_of G ns f nm = None)"

definition schema_union :: "json \<Rightarrow> json list \<Rightarrow> bool" where
  "schema_union S Fs \<longleftrightarrow>
     schema_shaped S \<and>
     (\<forall>ns f nm d. is_section f \<longrightarrow>
        declaration_of S ns f nm = Some d \<longleftrightarrow> (\<exists>F \<in> set Fs. declaration_of F ns f nm = Some d)) \<and>
     (\<forall>ns. ns \<in> declared_namespaces S \<longleftrightarrow> (\<exists>F \<in> set Fs. ns \<in> declared_namespaces F)) \<and>
     sorted_wrt disjoint_declarations Fs"

lemma schema_union_empty: "schema_union (JObject []) []"
  by (simp add: schema_union_def object_of_def declaration_of_def declared_namespaces_def)

lemma schema_union_step:
  assumes "schema_union T Fs" "merged_with T F R"
  shows "schema_union R (Fs @ [F])"
proof -
  have T: "declaration_of T ns f nm = Some d \<longleftrightarrow> (\<exists>F \<in> set Fs. declaration_of F ns f nm = Some d)"
    if "is_section f" for ns f nm d using assms(1) that by (simp add: schema_union_def)
  have R: "declaration_of R ns f nm =
      (case declaration_of F ns f nm of None \<Rightarrow> declaration_of T ns f nm | Some d \<Rightarrow> Some d)"
    if "is_section f" for ns f nm using assms(2) that by (simp add: merged_with_def)
  have d: "declaration_of T ns f nm = None \<or> declaration_of F ns f nm = None"
    if "is_section f" for ns f nm using assms(2) that by (auto simp: merged_with_def compatible_def)
  have decl: "declaration_of R ns f nm = Some d \<longleftrightarrow>
      (\<exists>G \<in> set (Fs @ [F]). declaration_of G ns f nm = Some d)" if s: "is_section f" for ns f nm d
    using T [OF s, of ns nm] R [OF s, of ns nm] d [OF s, of ns nm] by (auto split: option.splits)
  have "disjoint_declarations G F" if "G \<in> set Fs" for G
    unfolding disjoint_declarations_def
  proof (intro allI impI)
    fix ns f nm assume s: "is_section f"
    show "declaration_of G ns f nm = None \<or> declaration_of F ns f nm = None"
    proof (cases "declaration_of G ns f nm")
      case (Some x)
      with T [OF s, of ns nm x] that have "declaration_of T ns f nm = Some x" by blast
      with d [OF s, of ns nm] show ?thesis by simp
    qed simp
  qed
  moreover have "ns \<in> declared_namespaces R \<longleftrightarrow> ns \<in> declared_namespaces T \<or> ns \<in> declared_namespaces F" for ns
    using assms(2) by (auto simp: merged_with_def declared_namespaces_get)
  ultimately show ?thesis
    using assms decl by (auto simp: schema_union_def merged_with_def sorted_wrt_append)
qed

lemma schema_files_error:
  assumes "try_fold (compile_schema_file E m) s paths = Inr s'"
  shows "has_error (cs_diagnostics s) \<Longrightarrow> has_error (cs_diagnostics s')"
proof -
  have "has_error (cs_diagnostics t)" if "compile_schema_file E m s p = Inr t" "has_error (cs_diagnostics s)"
    for s t p using compile_schema_file_spec [OF that(1)] that(2) by blast
  then show "has_error (cs_diagnostics s) \<Longrightarrow> has_error (cs_diagnostics s')"
    by (intro try_fold_invariant [OF assms, of "\<lambda>s. has_error (cs_diagnostics s)"]) auto
qed

lemma schema_files_spec:
  assumes "try_fold (compile_schema_file E m) s paths = Inr s'"
    and "\<not> has_error (cs_diagnostics s')" and doc: "schema_documented E"
  shows "schema_union (cs_schema s) Gs \<Longrightarrow>
    \<not> has_error (cs_diagnostics s) \<and> cs_modules s' = cs_modules s \<and> cs_label_sets s' = cs_label_sets s \<and>
    cs_policy_ids s' = cs_policy_ids s \<and> cs_policy_text s' = cs_policy_text s \<and>
    cs_has_schema s' = (cs_has_schema s \<or> paths \<noteq> []) \<and>
    (\<exists>Fs. list_all2 (schema_source E m) paths Fs \<and> schema_union (cs_schema s') (Gs @ Fs) \<and>
       (\<forall>F \<in> set Fs. \<forall>ns \<in> declared_namespaces F. namespace_owns (mm_namespace m) ns))"
  using assms(1)
proof (induction paths arbitrary: s Gs)
  case Nil
  with assms(2) show ?case by auto
next
  case (Cons path paths)
  then obtain s1 where step: "compile_schema_file E m s path = Inr s1"
    and rest: "try_fold (compile_schema_file E m) s1 paths = Inr s'"
    by (auto simp: result_iff)
  have err: "\<not> has_error (cs_diagnostics s1)" using schema_files_error [OF rest] assms(2) by blast
  from compile_schema_file_spec [OF step err] obtain F where f: "\<not> has_error (cs_diagnostics s)"
    "cs_modules s1 = cs_modules s" "cs_has_schema s1" "cs_label_sets s1 = cs_label_sets s"
    "cs_policy_ids s1 = cs_policy_ids s" "cs_policy_text s1 = cs_policy_text s"
    "schema_source E m path F" "\<forall>ns \<in> declared_namespaces F. namespace_owns (mm_namespace m) ns"
    "schema_shaped (cs_schema s) \<longrightarrow> schema_shaped F \<longrightarrow> merged_with (cs_schema s) F (cs_schema s1)"
    by blast
  have "merged_with (cs_schema s) F (cs_schema s1)"
    using f(9) Cons.prems(1) schema_source_shaped [OF doc f(7)] by (simp add: schema_union_def)
  with Cons.prems(1) have "schema_union (cs_schema s1) (Gs @ [F])" by (rule schema_union_step)
  from Cons.IH [OF this rest] obtain Fs where
    "cs_modules s' = cs_modules s1" "cs_label_sets s' = cs_label_sets s1"
    "cs_policy_ids s' = cs_policy_ids s1" "cs_policy_text s' = cs_policy_text s1"
    "cs_has_schema s' = (cs_has_schema s1 \<or> paths \<noteq> [])"
    "list_all2 (schema_source E m) paths Fs" "schema_union (cs_schema s') ((Gs @ [F]) @ Fs)"
    "\<forall>F \<in> set Fs. \<forall>ns \<in> declared_namespaces F. namespace_owns (mm_namespace m) ns"
    by blast
  with f show ?case by (intro conjI exI [of _ "F # Fs"]) auto
qed

lemma label_files_spec:
  assumes "try_fold (compile_label_file E m) s paths = Inr s'" and "\<not> has_error (cs_diagnostics s')"
  shows "\<not> has_error (cs_diagnostics s) \<and> cs_modules s' = cs_modules s \<and> cs_schema s' = cs_schema s \<and>
    cs_has_schema s' = cs_has_schema s \<and> cs_policy_ids s' = cs_policy_ids s \<and>
    cs_policy_text s' = cs_policy_text s \<and>
    (\<exists>Ls. list_all2 (label_source E m) paths Ls \<and> cs_label_sets s' = cs_label_sets s @ Ls \<and>
       (\<forall>L \<in> set Ls. \<forall>r \<in> set L. namespace_owns (mm_namespace m) (lt_resource_type (lr_target r))))"
  using assms(1)
proof (induction paths arbitrary: s)
  case Nil
  with assms(2) show ?case by auto
next
  case (Cons path paths)
  then obtain s1 where step: "compile_label_file E m s path = Inr s1"
    and rest: "try_fold (compile_label_file E m) s1 paths = Inr s'"
    by (auto simp: result_iff)
  from Cons.IH [OF rest] obtain Ls where IH: "\<not> has_error (cs_diagnostics s1)"
    "cs_modules s' = cs_modules s1" "cs_schema s' = cs_schema s1" "cs_has_schema s' = cs_has_schema s1"
    "cs_policy_ids s' = cs_policy_ids s1" "cs_policy_text s' = cs_policy_text s1"
    "list_all2 (label_source E m) paths Ls" "cs_label_sets s' = cs_label_sets s1 @ Ls"
    "\<forall>L \<in> set Ls. \<forall>r \<in> set L. namespace_owns (mm_namespace m) (lt_resource_type (lr_target r))"
    by blast
  from compile_label_file_spec [OF step IH(1)] obtain L where "\<not> has_error (cs_diagnostics s)"
    "cs_modules s1 = cs_modules s" "cs_schema s1 = cs_schema s" "cs_has_schema s1 = cs_has_schema s"
    "cs_policy_ids s1 = cs_policy_ids s" "cs_policy_text s1 = cs_policy_text s"
    "label_source E m path L" "cs_label_sets s1 = cs_label_sets s @ [L]"
    "\<forall>r \<in> set L. namespace_owns (mm_namespace m) (lt_resource_type (lr_target r))"
    by blast
  with IH show ?case by (intro conjI exI [of _ "L # Ls"]) auto
qed

section \<open>The modules\<close>

definition module_compiled ::
  "compile_env \<Rightarrow> module_selection \<Rightarrow> module_record \<times> json list \<times> label_set list \<Rightarrow> bool" where
  "module_compiled E sel out \<longleftrightarrow>
     (case out of (rc, Fs, Ls) \<Rightarrow>
       let m = ms_manifest sel in
       (\<exists>pss. list_all2 (policy_source E m) (mm_policies m) pss \<and>
          (\<forall>ps \<in> set pss. static_policies rc ps) \<and>
          rc = (record_of sel)\<lparr>mr_policy_ids := ids_of_sets pss\<rparr>) \<and>
       list_all2 (schema_source E m) (mm_schemas m) Fs \<and>
       (\<forall>F \<in> set Fs. \<forall>ns \<in> declared_namespaces F. namespace_owns (mm_namespace m) ns) \<and>
       list_all2 (label_source E m) (mm_labels m) Ls \<and>
       (\<forall>L \<in> set Ls. \<forall>r \<in> set L. namespace_owns (mm_namespace m) (lt_resource_type (lr_target r))))"

definition module_text :: "compile_env \<Rightarrow> module_selection \<Rightarrow> string" where
  "module_text E sel =
     concat (map (policy_section E (ms_manifest sel)) (mm_policies (ms_manifest sel)))"

definition compiled_upto ::
  "compile_env \<Rightarrow> module_selection list \<Rightarrow> compile_state \<Rightarrow> (module_record \<times> json list \<times> label_set list) list \<Rightarrow> bool" where
  "compiled_upto E sels s outs \<longleftrightarrow>
     list_all2 (module_compiled E) sels outs \<and> cs_modules s = map fst outs \<and>
     cs_policy_text s = concat (map (module_text E) sels) \<and>
     cs_label_sets s = concat (map (\<lambda>(_, _, Ls). Ls) outs) \<and>
     schema_union (cs_schema s) (concat (map (\<lambda>(_, Fs, _). Fs) outs)) \<and>
     cs_has_schema s = (\<exists>sel \<in> set sels. mm_schemas (ms_manifest sel) \<noteq> []) \<and>
     distinct (concat (map (mr_policy_ids \<circ> fst) outs)) \<and>
     set (cs_policy_ids s) = set (concat (map (mr_policy_ids \<circ> fst) outs)) \<and>
     sorted_wrt (<) (cs_policy_ids s)"

lemma static_policies_ids [simp]: "static_policies (rc\<lparr>mr_policy_ids := ids\<rparr>) ps = static_policies rc ps"
  by (simp add: static_policies_def)

lemma compiled_upto_snoc:
  assumes "compiled_upto E sels s outs" "module_compiled E sel (rc, Fs, Ls)"
    and "cs_modules s' = cs_modules s @ [rc]" "cs_policy_text s' = cs_policy_text s @ module_text E sel"
    and "cs_label_sets s' = cs_label_sets s @ Ls"
    and "schema_union (cs_schema s') (concat (map (\<lambda>(_, Fs, _). Fs) outs) @ Fs)"
    and "cs_has_schema s' \<longleftrightarrow> cs_has_schema s \<or> mm_schemas (ms_manifest sel) \<noteq> []"
    and "distinct (mr_policy_ids rc)" "set (mr_policy_ids rc) \<inter> set (cs_policy_ids s) = {}"
    and "set (cs_policy_ids s') = set (cs_policy_ids s) \<union> set (mr_policy_ids rc)"
    and "sorted_wrt (<) (cs_policy_ids s')"
  shows "compiled_upto E (sels @ [sel]) s' (outs @ [(rc, Fs, Ls)])"
  using assms unfolding compiled_upto_def
  by (intro conjI) (auto intro: list_all2_appendI)

lemma compile_module_spec:
  assumes step: "compile_module E s sel = Inr s'" and err: "\<not> has_error (cs_diagnostics s')"
    and doc: "schema_documented E" and upto: "compiled_upto E sels s outs"
  shows "\<exists>out. compiled_upto E (sels @ [sel]) s' (outs @ [out])"
proof -
  let ?m = "ms_manifest sel"
  from step obtain ids s1 s2 s3 where
    1: "try_fold (compile_policy_file E ?m (record_of sel)) ([], s) (mm_policies ?m) = Inr (ids, s1)"
    and 2: "try_fold (compile_schema_file E ?m) s1 (mm_schemas ?m) = Inr s2"
    and 3: "try_fold (compile_label_file E ?m) s2 (mm_labels ?m) = Inr s3"
    and s': "s' = s3\<lparr>cs_modules := cs_modules s3 @ [(record_of sel)\<lparr>mr_policy_ids := ids\<rparr>]\<rparr>"
    by (auto simp: compile_module_def Let_def result_iff)
  have "\<not> has_error (cs_diagnostics s3)" using err s' by simp
  from label_files_spec [OF 3 this] obtain Ls where l: "\<not> has_error (cs_diagnostics s2)"
    "cs_modules s3 = cs_modules s2" "cs_schema s3 = cs_schema s2" "cs_has_schema s3 = cs_has_schema s2"
    "cs_policy_ids s3 = cs_policy_ids s2" "cs_policy_text s3 = cs_policy_text s2"
    "list_all2 (label_source E ?m) (mm_labels ?m) Ls" "cs_label_sets s3 = cs_label_sets s2 @ Ls"
    "\<forall>L \<in> set Ls. \<forall>r \<in> set L. namespace_owns (mm_namespace ?m) (lt_resource_type (lr_target r))"
    by blast
  have err1: "\<not> has_error (cs_diagnostics s1)"
    using schema_files_error [OF 2] l(1) by blast
  from policy_files_spec [OF 1 err1] obtain pss where p: "same_rest s s1"
    "cs_policy_text s1 = cs_policy_text s @ module_text E sel"
    "list_all2 (policy_source E ?m) (mm_policies ?m) pss"
    "\<forall>ps \<in> set pss. static_policies (record_of sel) ps" "ids = ids_of_sets pss" "distinct ids"
    "set ids \<inter> set (cs_policy_ids s) = {}" "set (cs_policy_ids s1) = set (cs_policy_ids s) \<union> set ids"
    "sorted_wrt (<) (cs_policy_ids s) \<longrightarrow> sorted_wrt (<) (cs_policy_ids s1)"
    by (auto simp: module_text_def)
  have "schema_union (cs_schema s1) (concat (map (\<lambda>(_, Fs, _). Fs) outs))"
    using upto p(1) by (simp add: compiled_upto_def same_rest_def)
  from schema_files_spec [OF 2 l(1) doc this] obtain Fs where q: "cs_modules s2 = cs_modules s1" "cs_label_sets s2 = cs_label_sets s1"
    "cs_policy_ids s2 = cs_policy_ids s1" "cs_policy_text s2 = cs_policy_text s1"
    "cs_has_schema s2 = (cs_has_schema s1 \<or> mm_schemas ?m \<noteq> [])"
    "list_all2 (schema_source E ?m) (mm_schemas ?m) Fs"
    "schema_union (cs_schema s2) (concat (map (\<lambda>(_, Fs, _). Fs) outs) @ Fs)"
    "\<forall>F \<in> set Fs. \<forall>ns \<in> declared_namespaces F. namespace_owns (mm_namespace ?m) ns"
    by blast
  let ?out = "((record_of sel)\<lparr>mr_policy_ids := ids\<rparr>, Fs, Ls)"
  have out: "module_compiled E sel ?out"
    using l q p by (auto simp: module_compiled_def Let_def intro!: exI [of _ pss])
  note r = p(1) [unfolded same_rest_def]
  have "compiled_upto E (sels @ [sel]) s' (outs @ [?out])"
    by (rule compiled_upto_snoc [OF upto out])
      (use l q r p upto in \<open>simp_all add: s' compiled_upto_def\<close>)
  then show ?thesis ..
qed

lemma compile_module_error:
  assumes step: "compile_module E s sel = Inr s'" and err: "has_error (cs_diagnostics s)"
  shows "has_error (cs_diagnostics s')"
proof (rule ccontr)
  assume no: "\<not> has_error (cs_diagnostics s')"
  let ?m = "ms_manifest sel"
  from step obtain ids s1 s2 s3 where
    1: "try_fold (compile_policy_file E ?m (record_of sel)) ([], s) (mm_policies ?m) = Inr (ids, s1)"
    and 2: "try_fold (compile_schema_file E ?m) s1 (mm_schemas ?m) = Inr s2"
    and 3: "try_fold (compile_label_file E ?m) s2 (mm_labels ?m) = Inr s3"
    and s': "s' = s3\<lparr>cs_modules := cs_modules s3 @ [(record_of sel)\<lparr>mr_policy_ids := ids\<rparr>]\<rparr>"
    by (auto simp: compile_module_def Let_def result_iff)
  have "\<not> has_error (cs_diagnostics s3)" using no s' by simp
  with label_files_spec [OF 3] have "\<not> has_error (cs_diagnostics s2)" by blast
  with schema_files_error [OF 2] have "\<not> has_error (cs_diagnostics s1)" by blast
  with policy_files_spec [OF 1] err show False by blast
qed

lemma compile_modules_error:
  "try_fold (compile_module E) s sels = Inr s' \<Longrightarrow> has_error (cs_diagnostics s) \<Longrightarrow> has_error (cs_diagnostics s')"
  by (erule try_fold_invariant [where P = "\<lambda>s. has_error (cs_diagnostics s)"]) (auto dest: compile_module_error)

lemma compile_modules_spec:
  "try_fold (compile_module E) s sels = Inr s' \<Longrightarrow> \<not> has_error (cs_diagnostics s') \<Longrightarrow>
     schema_documented E \<Longrightarrow> compiled_upto E prev s outs \<Longrightarrow>
     \<exists>new. compiled_upto E (prev @ sels) s' (outs @ new)"
proof (induction sels arbitrary: s prev outs)
  case Nil
  then show ?case by (intro exI [of _ "[]"]) simp
next
  case (Cons sel sels)
  then obtain s1 where step: "compile_module E s sel = Inr s1"
    and rest: "try_fold (compile_module E) s1 sels = Inr s'"
    by (auto simp: result_iff)
  have "\<not> has_error (cs_diagnostics s1)" using compile_modules_error [OF rest] Cons.prems(2) by blast
  from compile_module_spec [OF step this Cons.prems(3,4)]
  obtain out where "compiled_upto E (prev @ [sel]) s1 (outs @ [out])" by blast
  from Cons.IH [OF rest Cons.prems(2,3) this] obtain new where
    "compiled_upto E ((prev @ [sel]) @ sels) s' ((outs @ [out]) @ new)" by blast
  then show ?case by (intro exI [of _ "out # new"]) simp
qed

lemma compiled_upto_init: "compiled_upto E [] compile_init []"
  by (simp add: compiled_upto_def compile_init_def schema_union_empty)

section \<open>The whole manifest\<close>

text \<open>What the parts of a bundle are, with \<open>outs\<close> what each module contributed.\<close>

definition bundle_compiled ::
  "compile_env \<Rightarrow> bundle_manifest \<Rightarrow> (module_record \<times> json list \<times> label_set list) list \<Rightarrow> bundle_parts \<Rightarrow> bool" where
  "bundle_compiled E b outs parts \<longleftrightarrow>
     list_all2 (module_compiled E) (bun_modules b) outs \<and>
     bp_name parts = bun_name b \<and> bp_modules parts = map fst outs \<and>
     bp_policies parts = concat (map (module_text E) (bun_modules b)) \<and>
     combine (concat (map (\<lambda>(_, _, Ls). Ls) outs)) = Inr (bp_labels parts) \<and>
     (case bp_schema_json parts of
        None \<Rightarrow> \<forall>sel \<in> set (bun_modules b). mm_schemas (ms_manifest sel) = []
      | Some S \<Rightarrow>
          (\<exists>sel \<in> set (bun_modules b). mm_schemas (ms_manifest sel) \<noteq> []) \<and>
          schema_union S (concat (map (\<lambda>(_, Fs, _). Fs) outs)) \<and>
          (\<exists>schema. cd_schema_from_json (ce_cedar E) S = Inr schema \<and>
             (\<forall>r \<in> set (bp_labels parts). declared_string_field (ce_cedar E) schema S r))) \<and>
     distinct (concat (map mr_policy_ids (bp_modules parts))) \<and>
     set (bp_policy_ids parts) = set (concat (map mr_policy_ids (bp_modules parts))) \<and>
     sorted_wrt (<) (bp_policy_ids parts) \<and>
     \<not> has_error (bp_diagnostics parts)"

lemma has_error_validate_policy_set:
  "has_error ds \<Longrightarrow> has_error (validate_policy_set ps S ds)"
  by (simp add: validate_policy_set_def Let_def)

lemma has_error_validate_schema:
  "has_error (validate_schema C J rules S j) \<longleftrightarrow> \<not> (\<forall>r \<in> set rules. declared_string_field C S j r)"
  using all_errors_has_error [OF all_errors_validate_schema] by (simp only: validate_schema_Nil_iff)

lemma check_aggregate_spec:
  assumes "check_aggregate E s labels ds = (sj, ds')" "\<not> has_error ds'"
  shows "\<not> has_error ds \<and>
    (if cs_has_schema s
     then sj = Some (cs_schema s) \<and>
       (\<exists>schema. cd_schema_from_json (ce_cedar E) (cs_schema s) = Inr schema \<and>
          (\<forall>r \<in> set labels. declared_string_field (ce_cedar E) schema (cs_schema s) r))
     else sj = None)"
  using assms
  by (auto simp: check_aggregate_def Let_def has_error_validate_schema
      dest: has_error_validate_policy_set split: if_splits sum.splits)

lemma compile_manifest_spec:
  assumes "compile_manifest E b = Inr parts" and doc: "schema_documented E"
  shows "\<exists>outs. bundle_compiled E b outs parts"
proof -
  from assms(1) obtain s labels ds where
    s: "try_fold (compile_module E) compile_init (bun_modules b) = Inr s"
    and l: "combine_labels s = Inr (labels, ds)"
    by (auto simp: compile_manifest_def result_iff)
  obtain sj ds' where a: "check_aggregate E s labels ds = (sj, ds')" by fastforce
  from assms(1) s l a have ok: "\<not> has_error ds'"
    and parts: "parts = \<lparr>bp_name = bun_name b, bp_modules = cs_modules s, bp_policies = cs_policy_text s,
      bp_schema_json = sj, bp_labels = labels, bp_policy_ids = cs_policy_ids s, bp_diagnostics = ds'\<rparr>"
    by (auto simp: compile_manifest_def split: if_splits)
  from check_aggregate_spec [OF a ok] have ds: "\<not> has_error ds" by simp
  have comb: "combine (cs_label_sets s) = Inr labels \<and> ds = cs_diagnostics s"
  proof (cases "combine (cs_label_sets s)")
    case (Inr x)
    with l show ?thesis by (simp add: combine_labels_def)
  next
    case (Inl e)
    from combine_Inl [OF Inl] obtain es where "e = Validation es" "es \<noteq> []" "all_errors es" by blast
    with l Inl ds show ?thesis by (auto simp: combine_labels_def all_errors_has_error)
  qed
  with ds have "\<not> has_error (cs_diagnostics s)" by simp
  from compile_modules_spec [OF s this doc compiled_upto_init]
  obtain outs where u: "compiled_upto E (bun_modules b) s outs" by auto
  note u' = u [unfolded compiled_upto_def]
  have "bundle_compiled E b outs parts"
    using u' comb check_aggregate_spec [OF a ok] ok
    by (auto simp: bundle_compiled_def parts comp_def split: if_splits)
  then show ?thesis ..
qed

text \<open>How it fails: a report with an error, or an input or output failure, or a serialisation failure.\<close>

definition compile_failure :: "bundle_error \<Rightarrow> bool" where
  "compile_failure e \<longleftrightarrow>
     (\<exists>ds. e = Validation ds \<and> has_error ds) \<or> (\<exists>path err. e = Io path err) \<or> (\<exists>t. e = Serialization t)"

lemma try_fold_Inl:
  "try_fold f s xs = Inl e \<Longrightarrow> \<exists>s x. x \<in> set xs \<and> f s x = Inl e"
  by (induction xs arbitrary: s) (auto simp: result_iff, blast)

lemma read_utf8_Inl: "read_utf8 F path = Inl e \<Longrightarrow> compile_failure e"
  by (auto simp: read_utf8_def result_iff compile_failure_def map_err_def split: sum.splits)

lemma compile_policy_file_Inl:
  assumes that: "compile_policy_file E m rc st path = Inl e"
  shows "compile_failure e"
proof (cases "read_utf8 (ce_fs E) (input_path m path)")
  case (Inl x)
  with that show ?thesis by (cases st) (auto dest: read_utf8_Inl)
next
  case (Inr src)
  with that show ?thesis
    by (cases st; cases "cd_parse_policies (ce_cedar E) (normalize_text src)")
      (simp_all add: Let_def case_prod_beta)
qed

lemma compile_schema_file_Inl:
  assumes that: "compile_schema_file E m s path = Inl e"
  shows "compile_failure e"
proof (cases "read_utf8 (ce_fs E) (input_path m path)")
  case (Inl x)
  with that show ?thesis by (auto simp: compile_schema_file_def Let_def dest: read_utf8_Inl)
next
  case (Inr src)
  show ?thesis
  proof (cases "parse_schema_fragment (ce_cedar E) src")
    case (Inl x)
    with that Inr show ?thesis by (simp add: compile_schema_file_def Let_def)
  next
    case f: (Inr fw)
    with that Inr show ?thesis
      by (cases "fr_json (fst fw)")
        (auto simp: compile_schema_file_def Let_def case_prod_beta compile_failure_def)
  qed
qed

lemma compile_label_file_Inl:
  assumes that: "compile_label_file E m s path = Inl e"
  shows "compile_failure e"
proof (cases "read_utf8 (ce_fs E) (input_path m path)")
  case (Inl x)
  with that show ?thesis by (auto simp: compile_label_file_def dest: read_utf8_Inl)
next
  case (Inr src)
  show ?thesis
  proof (cases "from_json_str (ce_labels E) src")
    case l: (Inl x)
    from from_json_str_Inl [OF l] that l Inr show ?thesis by (auto simp: compile_label_file_def)
  next
    case (Inr labels)
    with that \<open>read_utf8 _ _ = _\<close> show ?thesis by (simp add: compile_label_file_def)
  qed
qed

lemma compile_module_Inl:
  assumes "compile_module E s sel = Inl e"
  shows "compile_failure e"
proof -
  have fp: "compile_failure e" if "try_fold (compile_policy_file E m rc) st paths = Inl e" for m rc st paths
    using try_fold_Inl [OF that] compile_policy_file_Inl by blast
  have fs: "compile_failure e" if "try_fold (compile_schema_file E m) s paths = Inl e" for m s paths
    using try_fold_Inl [OF that] compile_schema_file_Inl by blast
  have fl: "compile_failure e" if "try_fold (compile_label_file E m) s paths = Inl e" for m s paths
    using try_fold_Inl [OF that] compile_label_file_Inl by blast
  from assms show ?thesis
    unfolding compile_module_def Let_def and_then_Inl case_prod_beta
    by (elim disjE exE conjE) (simp_all add: fp fs fl)
qed

lemma compile_manifest_Inl: "compile_manifest E b = Inl e \<Longrightarrow> compile_failure e"
proof -
  assume fail: "compile_manifest E b = Inl e"
  have "compile_failure e" if "combine_labels s = Inl e" for s
    using that by (auto simp: combine_labels_def dest: combine_Inl split: sum.splits bundle_error.splits)
  moreover have "compile_failure e" if "try_fold (compile_module E) s sels = Inl e" for s sels
    using try_fold_Inl [OF that] by (auto dest: compile_module_Inl)
  moreover have "compile_failure (Validation ds)" if "has_error ds" for ds
    using that by (auto simp: compile_failure_def)
  ultimately show ?thesis
    using fail by (auto simp: compile_manifest_def result_iff case_prod_beta Let_def split: if_splits)
qed

section \<open>The parts of an archive\<close>

definition policy_set_valid :: "schema \<Rightarrow> policy_set \<Rightarrow> bool" where
  "policy_set_valid S ps \<longleftrightarrow>
     vr_errors (sc_validate S ps) = [] \<and>
     (\<forall>w \<in> set (vr_warnings (sc_validate S ps)). \<exists>t. w = Other_warning t)"

definition archive_schema_ok ::
  "compile_env \<Rightarrow> module_record list \<Rightarrow> policy_set \<Rightarrow> json \<Rightarrow> label_set \<Rightarrow> bool" where
  "archive_schema_ok E modules ps j labels \<longleftrightarrow>
     (\<forall>ns \<in> declared_namespaces j. \<exists>m \<in> set modules. namespace_owns (mr_namespace m) ns) \<and>
     (\<exists>S. cd_schema_from_json (ce_cedar E) j = Inr S \<and> policy_set_valid S ps \<and>
        (\<forall>r \<in> set labels. declared_string_field (ce_cedar E) S j r))"

definition archive_policy_ok :: "module_record list \<Rightarrow> policy \<Rightarrow> bool" where
  "archive_policy_ok modules p \<longleftrightarrow>
     (\<exists>pid m. non_empty_id p = Some pid \<and> map_of (module_by_policy modules) pid = Some m \<and> policy_ok m p)"

definition archive_parts_ok ::
  "compile_env \<Rightarrow> module_record list \<Rightarrow> policy_set \<Rightarrow> json option \<Rightarrow> label_set \<Rightarrow> string list \<Rightarrow> bool" where
  "archive_parts_ok E modules ps schema_json labels declared \<longleftrightarrow>
     \<not> not_static ps \<and> (\<forall>p \<in> set (ps_policies ps). archive_policy_ok modules p) \<and>
     distinct (declared_ids (ps_policies ps)) \<and> set (declared_ids (ps_policies ps)) = set declared \<and>
     (case schema_json of None \<Rightarrow> True | Some j \<Rightarrow> archive_schema_ok E modules ps j labels) \<and>
     (\<forall>r \<in> set labels. \<exists>m \<in> set modules. namespace_owns (mr_namespace m) (lt_resource_type (lr_target r)))"

lemma validate_policy_set_iff:
  "has_error (validate_policy_set ps S ds) \<longleftrightarrow> has_error ds \<or> \<not> policy_set_valid S ps"
proof -
  have "d_severity (schema_warning w) = Error \<longleftrightarrow> (\<nexists>t. w = Other_warning t)" for w
    by (cases w) auto
  then have "has_error (map schema_warning ws) \<longleftrightarrow> \<not> (\<forall>w \<in> set ws. \<exists>t. w = Other_warning t)" for ws
    by (induction ws) auto
  then show ?thesis
    by (simp add: validate_policy_set_def Let_def has_error_all_errors_map policy_set_valid_def)
qed

lemma check_archive_policies_spec:
  "fold (check_archive_policy bp) ps (ids, ds) = (ids', ds') \<Longrightarrow>
     ids' = fold bs_add (declared_ids ps) ids \<and>
     (has_error ds' \<longleftrightarrow> has_error ds \<or> \<not> (distinct (declared_ids ps) \<and> set (declared_ids ps) \<inter> set ids = {} \<and>
        (\<forall>p \<in> set ps. \<exists>pid m. non_empty_id p = Some pid \<and> map_of bp pid = Some m \<and> policy_ok m p)))"
proof (induction ps arbitrary: ids ds)
  case Nil
  then show ?case by (simp add: List.map_filter_simps)
next
  case (Cons p ps)
  obtain ids1 ds1 where step: "check_archive_policy bp p (ids, ds) = (ids1, ds1)" by fastforce
  have rest: "fold (check_archive_policy bp) ps (ids1, ds1) = (ids', ds')"
    using Cons.prems step by (simp del: check_archive_policy.simps)
  note IH = Cons.IH [OF rest]
  show ?case
  proof (cases "non_empty_id p")
    case None
    with step have "ids1 = ids" "has_error ds1" by (auto simp: missing_id_diagnostic_def)
    with IH None show ?thesis by (auto simp: map_filter_Cons)
  next
    case (Some pid)
    have own: "has_error (validate_policy_ownership p pid m ds) \<longleftrightarrow> has_error ds \<or> \<not> policy_ok m p" for m ds
      using ownership_pass.run_append [of p pid m ds] by simp
    from step Some have 1: "ids1 = bs_add pid ids"
      "has_error ds1 \<longleftrightarrow> has_error ds \<or> pid \<in> set ids \<or> \<not> (\<exists>m. map_of bp pid = Some m \<and> policy_ok m p)"
      by (auto simp: bs_insert_def Let_def duplicate_id_diagnostic_def own split: if_splits option.splits)
    with IH Some show ?thesis by (auto simp: map_filter_Cons)
  qed
qed

lemma has_error_archive_schema:
  "has_error (check_archive_schema E modules ps sj labels ds) \<longleftrightarrow>
     has_error ds \<or> \<not> (case sj of None \<Rightarrow> True | Some j \<Rightarrow> archive_schema_ok E modules ps j labels)"
  by (auto simp: check_archive_schema_def compatibility_skipped_def archive_schema_ok_def Let_def
      validate_policy_set_iff has_error_validate_schema validate_aggregate_schema_ownership_iff
      split: option.split sum.split)

lemma has_error_unowned_labels:
  "has_error (unowned_labels modules labels) \<longleftrightarrow>
     (\<exists>r \<in> set labels. \<forall>m \<in> set modules. \<not> namespace_owns (mr_namespace m) (lt_resource_type (lr_target r)))"
  by (auto simp: unowned_labels_def has_error_all_errors_map filter_empty_conv list_ex_iff)

lemma validate_archive_parts_eq:
  assumes "cd_parse_policies (ce_cedar E) policies = Inr ps"
  shows "\<exists>ds. (has_error ds \<longleftrightarrow> \<not> archive_parts_ok E modules ps sj labels declared) \<and>
    validate_archive_parts E name modules policies sj labels declared =
      (if has_error ds then Inl (Validation ds)
       else Inr \<lparr>bp_name = name, bp_modules = modules, bp_policies = policies, bp_schema_json = sj,
                 bp_labels = labels, bp_policy_ids = bs_collect declared, bp_diagnostics = ds\<rparr>)"
proof -
  let ?ds0 = "if not_static ps then [templates_diagnostic] else []"
  obtain ids ds1 where f: "fold (check_archive_policy (module_by_policy modules)) (ps_policies ps) ([], ?ds0) = (ids, ds1)"
    by fastforce
  note sp = check_archive_policies_spec [OF f]
  have ids: "ids = bs_collect (declared_ids (ps_policies ps))" using sp by (simp add: bs_collect_def)
  have same: "ids = bs_collect declared \<longleftrightarrow> set (declared_ids (ps_policies ps)) = set declared"
    unfolding ids by (subst btree_set_eq_iff) auto
  define ds2 where "ds2 = (if ids \<noteq> bs_collect declared
    then ds1 @ [diag_error ''archive.policy_ids_mismatch''
                  [Lit ''manifest policy IDs do not match policies.cedar'']] else ds1)"
  define ds where "ds = check_archive_schema E modules ps sj labels ds2 @ unowned_labels modules labels"
  have "has_error ?ds0 \<longleftrightarrow> not_static ps" by (simp add: templates_diagnostic_def)
  with sp same have e2: "has_error ds2 \<longleftrightarrow> \<not> (\<not> not_static ps \<and> distinct (declared_ids (ps_policies ps)) \<and>
      set (declared_ids (ps_policies ps)) = set declared \<and>
      (\<forall>p \<in> set (ps_policies ps). archive_policy_ok modules p))"
    by (auto simp: ds2_def archive_policy_ok_def)
  have "has_error ds \<longleftrightarrow> \<not> archive_parts_ok E modules ps sj labels declared"
    using e2 by (auto simp: ds_def has_error_archive_schema has_error_unowned_labels archive_parts_ok_def)
  moreover have "\<not> has_error ds \<Longrightarrow> ids = bs_collect declared"
    using e2 same by (auto simp: ds_def has_error_archive_schema)
  moreover have "validate_archive_parts E name modules policies sj labels declared =
      (if has_error ds then Inl (Validation ds)
       else Inr \<lparr>bp_name = name, bp_modules = modules, bp_policies = policies, bp_schema_json = sj,
                 bp_labels = labels, bp_policy_ids = ids, bp_diagnostics = ds\<rparr>)"
    using assms f by (simp add: validate_archive_parts_def Let_def ds_def ds2_def)
  ultimately show ?thesis by (intro exI [of _ ds]) auto
qed

lemma validate_archive_parts_Inr:
  assumes "validate_archive_parts E name modules policies sj labels declared = Inr parts"
  shows "\<exists>ps. cd_parse_policies (ce_cedar E) policies = Inr ps \<and>
    archive_parts_ok E modules ps sj labels declared"
    "bp_name parts = name \<and> bp_modules parts = modules \<and> bp_policies parts = policies \<and>
     bp_schema_json parts = sj \<and> bp_labels parts = labels \<and> bp_policy_ids parts = bs_collect declared \<and>
     \<not> has_error (bp_diagnostics parts)"
proof -
  from assms obtain ps where ps: "cd_parse_policies (ce_cedar E) policies = Inr ps"
    by (cases "cd_parse_policies (ce_cedar E) policies") (auto simp: validate_archive_parts_def)
  from validate_archive_parts_eq [OF ps, of modules sj labels declared name] assms
  show "\<exists>ps. cd_parse_policies (ce_cedar E) policies = Inr ps \<and>
    archive_parts_ok E modules ps sj labels declared"
    "bp_name parts = name \<and> bp_modules parts = modules \<and> bp_policies parts = policies \<and>
     bp_schema_json parts = sj \<and> bp_labels parts = labels \<and> bp_policy_ids parts = bs_collect declared \<and>
     \<not> has_error (bp_diagnostics parts)"
    using ps by (auto split: if_splits)
qed

lemma validate_archive_parts_Inl:
  assumes "validate_archive_parts E name modules policies sj labels declared = Inl e"
  shows "\<exists>ds. e = Validation ds \<and> has_error ds"
proof (cases "cd_parse_policies (ce_cedar E) policies")
  case (Inl x)
  with assms show ?thesis by (auto simp: validate_archive_parts_def invalid_def)
next
  case (Inr ps)
  from validate_archive_parts_eq [OF Inr, of modules sj labels declared name] assms
  show ?thesis by (auto split: if_splits)
qed

lemma validate_archive_parts_accepts:
  "(\<exists>parts. validate_archive_parts E name modules policies sj labels declared = Inr parts) \<longleftrightarrow>
     (\<exists>ps. cd_parse_policies (ce_cedar E) policies = Inr ps \<and> archive_parts_ok E modules ps sj labels declared)"
proof (cases "cd_parse_policies (ce_cedar E) policies")
  case (Inr ps)
  with validate_archive_parts_eq [OF Inr, of modules sj labels declared name] show ?thesis by auto
qed (simp add: validate_archive_parts_def)

end
