(* ===== verification/Archive.thy ===== *)
theory Archive
  imports Signing Compile_Correct
begin

text \<open>
  \<open>src/archive.rs\<close>: the archive manifest, encoding and decoding an archive, validating what was
  decoded, building, re-signing and reading.

  The tar and gzip crates are the record \<open>codec\<close>.  A decompressed stream is the bytes it yields,
  the error that ends it, if any, and how much of the input it consumed; a tar stream is the
  sequence of entries its iterator yields.
\<close>

section \<open>Paths, limits and records\<close>

definition MANIFEST_PATH :: string where "MANIFEST_PATH = ''manifest.json''"
definition SIGNATURE_PATH :: string where "SIGNATURE_PATH = ''signature.json''"
definition POLICIES_PATH :: string where "POLICIES_PATH = ''policies.cedar''"
definition SCHEMA_PATH :: string where "SCHEMA_PATH = ''schema.json''"
definition LABELS_PATH :: string where "LABELS_PATH = ''labels.json''"

lemmas entry_paths = MANIFEST_PATH_def SIGNATURE_PATH_def POLICIES_PATH_def SCHEMA_PATH_def LABELS_PATH_def

record archive_limits =
  al_max_compressed_bytes :: usize
  al_max_uncompressed_bytes :: usize

definition limit_plus_one :: "usize \<Rightarrow> string \<Rightarrow> bundle_error + u64" where
  "limit_plus_one limit kind =
     ok_or (Archive [Disp kind, Lit '' size limit is too large to enforce''])
       (checked_add (ucast limit) (1 :: u64))"

definition archive_limits_new :: "usize \<Rightarrow> usize \<Rightarrow> bundle_error + archive_limits" where
  "archive_limits_new max_compressed_bytes max_uncompressed_bytes =
     and_then (ensure (\<not> (max_compressed_bytes = 0 \<or> max_uncompressed_bytes = 0))
       (Archive [Lit ''archive size limits must be greater than zero''])) (\<lambda>_.
     and_then (limit_plus_one max_compressed_bytes ''compressed'') (\<lambda>_.
     and_then (limit_plus_one max_uncompressed_bytes ''uncompressed'') (\<lambda>_.
       Inr \<lparr>al_max_compressed_bytes = max_compressed_bytes,
            al_max_uncompressed_bytes = max_uncompressed_bytes\<rparr>)))"

definition archive_limits_default :: archive_limits where
  "archive_limits_default =
     \<lparr>al_max_compressed_bytes = 10 * 1024 * 1024, al_max_uncompressed_bytes = 50 * 1024 * 1024\<rparr>"

record generator_record =
  gr_treetop_bundle :: string
  gr_treetop_core :: string
  gr_cedar :: string

record artifact_record =
  af_path :: string
  af_size :: usize
  af_sha256 :: string

record archive_manifest =
  am_format_version :: u32
  am_bundle_id :: string
  am_name :: string
  am_generator :: generator_record
  am_modules :: "module_record list"
  am_policy_ids :: "string list"
  am_artifacts :: "artifact_record list"

record verified_signature =
  vs_signed :: bool
  vs_key_id :: "string option"

definition PKG_VERSION :: string where "PKG_VERSION = ''0.3.0''"
definition TREETOP_CORE_VERSION :: string where "TREETOP_CORE_VERSION = ''0.3.0''"
definition CEDAR_VERSION :: string where "CEDAR_VERSION = ''4.13.0''"

definition this_generator :: generator_record where
  "this_generator =
     \<lparr>gr_treetop_bundle = PKG_VERSION, gr_treetop_core = TREETOP_CORE_VERSION, gr_cedar = CEDAR_VERSION\<rparr>"

section \<open>The manifest as JSON\<close>

definition role_to_json :: "module_role \<Rightarrow> json" where
  "role_to_json r = JString (case r of Ordinary \<Rightarrow> ''ordinary'' | Global \<Rightarrow> ''global'')"

definition decode_role :: "json \<Rightarrow> module_role option" where
  "decode_role v =
     (if v = JString ''ordinary'' then Some Ordinary
      else if v = JString ''global'' then Some Global
      else if v = JObject [(''ordinary'', JNull)] then Some Ordinary
      else if v = JObject [(''global'', JNull)] then Some Global else None)"

definition strings_to_json :: "string list \<Rightarrow> json" where
  "strings_to_json ss = JArray (map JString ss)"

definition module_to_json :: "module_record \<Rightarrow> json" where
  "module_to_json m =
     JObject [(''name'', JString (mr_name m)), (''namespace'', JString (mr_namespace m)),
              (''imports'', strings_to_json (mr_imports m)), (''role'', role_to_json (mr_role m)),
              (''policy_ids'', strings_to_json (mr_policy_ids m))]"

definition decode_module :: "json \<Rightarrow> module_record option" where
  "decode_module v =
     (case decode_fields [''name'', ''namespace'', ''imports'', ''role'', ''policy_ids''] v of
        Some [n, ns, i, r, p] \<Rightarrow>
          (case (required as_str n, required as_str ns, required (decode_vec as_str) i,
                 required decode_role r, required (decode_vec as_str) p) of
             (Some name, Some namespace, Some imports, Some role, Some ids) \<Rightarrow>
               Some \<lparr>mr_name = name, mr_namespace = namespace, mr_imports = imports, mr_role = role,
                     mr_policy_ids = ids\<rparr>
           | _ \<Rightarrow> None)
      | _ \<Rightarrow> None)"

definition generator_to_json :: "generator_record \<Rightarrow> json" where
  "generator_to_json g =
     JObject [(''treetop_bundle'', JString (gr_treetop_bundle g)),
              (''treetop_core'', JString (gr_treetop_core g)), (''cedar'', JString (gr_cedar g))]"

definition decode_generator :: "json \<Rightarrow> generator_record option" where
  "decode_generator v =
     (case decode_fields [''treetop_bundle'', ''treetop_core'', ''cedar''] v of
        Some [b, t, c] \<Rightarrow>
          (case (required as_str b, required as_str t, required as_str c) of
             (Some bundle, Some core, Some cedar) \<Rightarrow>
               Some \<lparr>gr_treetop_bundle = bundle, gr_treetop_core = core, gr_cedar = cedar\<rparr>
           | _ \<Rightarrow> None)
      | _ \<Rightarrow> None)"

definition artifact_to_json :: "artifact_record \<Rightarrow> json" where
  "artifact_to_json a =
     JObject [(''path'', JString (af_path a)), (''size'', encode_uint (af_size a)),
              (''sha256'', JString (af_sha256 a))]"

definition decode_artifact :: "json \<Rightarrow> artifact_record option" where
  "decode_artifact v =
     (case decode_fields [''path'', ''size'', ''sha256''] v of
        Some [p, s, h] \<Rightarrow>
          (case (required as_str p, required decode_uint s, required as_str h) of
             (Some path, Some size', Some hash) \<Rightarrow>
               Some \<lparr>af_path = path, af_size = size', af_sha256 = hash\<rparr>
           | _ \<Rightarrow> None)
      | _ \<Rightarrow> None)"

definition manifest_members :: "archive_manifest \<Rightarrow> (string \<times> json) list" where
  "manifest_members m =
     [(''format_version'', encode_uint (am_format_version m)),
      (''bundle_id'', JString (am_bundle_id m)), (''name'', JString (am_name m)),
      (''generator'', generator_to_json (am_generator m)),
      (''modules'', JArray (map module_to_json (am_modules m))),
      (''policy_ids'', strings_to_json (am_policy_ids m)),
      (''artifacts'', JArray (map artifact_to_json (am_artifacts m)))]"

definition manifest_to_json :: "archive_manifest \<Rightarrow> json" where
  "manifest_to_json m = JObject (manifest_members m)"

definition decode_manifest :: "json \<Rightarrow> archive_manifest option" where
  "decode_manifest v =
     (case decode_fields [''format_version'', ''bundle_id'', ''name'', ''generator'', ''modules'',
                          ''policy_ids'', ''artifacts''] v of
        Some [f, b, n, g, m, p, a] \<Rightarrow>
          (case (required decode_uint f, required as_str b, required as_str n, required decode_generator g,
                 required (decode_vec decode_module) m, required (decode_vec as_str) p,
                 required (decode_vec decode_artifact) a) of
             (Some version, Some bundle_id, Some name, Some generator, Some modules, Some ids, Some artifacts) \<Rightarrow>
               Some \<lparr>am_format_version = version, am_bundle_id = bundle_id, am_name = name,
                     am_generator = generator, am_modules = modules, am_policy_ids = ids,
                     am_artifacts = artifacts\<rparr>
           | _ \<Rightarrow> None)
      | _ \<Rightarrow> None)"

section \<open>Tar and gzip\<close>

record tar_header =
  th_regular :: bool
  th_mode :: u32
  th_uid :: u64
  th_gid :: u64
  th_mtime :: u64
  th_size :: u64

type_synonym tar_member = "tar_header \<times> string \<times> bytes"

record tar_entry =
  te_regular :: bool
  te_path :: "string + bytes"
  te_contents :: "string + bytes"

record gzip_stream =
  gz_output :: bytes
  gz_error :: "string option"
  gz_position :: nat

text \<open>
  \<open>cx_tar_entries visible error\<close>: what \<open>Archive::entries\<close> and its iterator yield on a reader that
  gives the bytes \<open>visible\<close> and then ends, or fails with \<open>error\<close>.
\<close>

record codec =
  cx_gunzip :: "bytes \<Rightarrow> gzip_stream"
  cx_tar_entries :: "bytes \<Rightarrow> string option \<Rightarrow> string + (string + tar_entry) list"
  cx_tar_append_error :: "tar_member \<Rightarrow> string option"
  cx_tar_finish :: "tar_member list \<Rightarrow> string + bytes"
  cx_gzip_finish :: "bytes \<Rightarrow> string + bytes"

record archive_env =
  ar_compile :: compile_env
  ar_crypto :: crypto
  ar_codec :: codec

abbreviation ar_json :: "archive_env \<Rightarrow> json_lib" where "ar_json E \<equiv> ce_json (ar_compile E)"

record decoded_archive =
  da_manifest :: bytes
  da_signature :: "bytes option"
  da_policies :: bytes
  da_schema :: "bytes option"
  da_labels :: bytes

definition artifact_entries :: "decoded_archive \<Rightarrow> (string \<times> bytes) list" where
  "artifact_entries d =
     [(POLICIES_PATH, da_policies d)] @
     (case da_schema d of None \<Rightarrow> [] | Some schema \<Rightarrow> [(SCHEMA_PATH, schema)]) @
     [(LABELS_PATH, da_labels d)]"

definition append_tar_file ::
  "codec \<Rightarrow> tar_member list \<Rightarrow> string \<times> bytes \<Rightarrow> bundle_error + tar_member list" where
  "append_tar_file K members entry =
     (case entry of (path, contents) \<Rightarrow>
       let header = \<lparr>th_regular = True, th_mode = 0x1A4, th_uid = 0, th_gid = 0, th_mtime = 0,
                     th_size = of_nat (length contents)\<rparr>
       in case cx_tar_append_error K (header, path, contents) of
            Some e \<Rightarrow> Inl (Archive [Lit ''tar encoding failed: '', Disp e])
          | None \<Rightarrow> Inr (members @ [(header, path, contents)]))"

definition encode_archive ::
  "codec \<Rightarrow> bytes \<Rightarrow> bytes option \<Rightarrow> (string \<times> bytes) list \<Rightarrow> bundle_error + bytes" where
  "encode_archive K manifest signature artifacts =
     and_then (append_tar_file K [] (MANIFEST_PATH, manifest)) (\<lambda>members.
     and_then (case signature of
                 None \<Rightarrow> Inr members
               | Some s \<Rightarrow> append_tar_file K members (SIGNATURE_PATH, s)) (\<lambda>members.
     and_then (try_fold (append_tar_file K) members artifacts) (\<lambda>members.
     and_then (map_err (\<lambda>e. Archive [Lit ''tar encoding failed: '', Disp e]) (cx_tar_finish K members)) (\<lambda>tar.
       map_err (\<lambda>e. Archive [Lit ''gzip encoding failed: '', Disp e]) (cx_gzip_finish K tar)))))"

text \<open>The body of the loop over the entries of an archive.\<close>

definition read_entry ::
  "(string \<times> bytes) list \<Rightarrow> string + tar_entry \<Rightarrow> bundle_error + (string \<times> bytes) list" where
  "read_entry entries item =
     and_then (map_err (\<lambda>e. Archive [Lit ''tar entry is invalid: '', Disp e]) item) (\<lambda>entry.
     and_then (ensure (length entries \<noteq> 5) (Archive [Lit ''bundle archive contains more than five entries'']))
     (\<lambda>_.
     and_then (ensure (te_regular entry) (Archive [Lit ''only regular tar entries are allowed''])) (\<lambda>_.
     and_then (map_err (\<lambda>e. Archive [Lit ''invalid tar path: '', Disp e]) (te_path entry)) (\<lambda>path.
     and_then (ensure (\<not> (is_absolute path \<or> length (components path) \<noteq> 1 \<or>
                            list_ex (\<lambda>c. c = ParentDir \<or> c = RootDir) (components path)))
                 (Archive [Lit ''unsafe tar entry path '', Disp path])) (\<lambda>_.
     and_then (ensure (utf8_valid path) (Archive [Lit ''tar path is not UTF-8''])) (\<lambda>_.
     and_then (map_err (\<lambda>e. Archive [Lit ''cannot read tar entry: '', Disp e]) (te_contents entry)) (\<lambda>contents.
       Inr (entries @ [(path, contents)]))))))))"

definition valid_names :: "string list \<Rightarrow> bool" where
  "valid_names names \<longleftrightarrow>
     names \<in> {[MANIFEST_PATH, POLICIES_PATH, LABELS_PATH],
              [MANIFEST_PATH, POLICIES_PATH, SCHEMA_PATH, LABELS_PATH],
              [MANIFEST_PATH, SIGNATURE_PATH, POLICIES_PATH, LABELS_PATH],
              [MANIFEST_PATH, SIGNATURE_PATH, POLICIES_PATH, SCHEMA_PATH, LABELS_PATH]}"

definition decode_archive :: "codec \<Rightarrow> bytes \<Rightarrow> archive_limits \<Rightarrow> bundle_error + decoded_archive" where
  "decode_archive K bytes limits =
     and_then (ensure (length bytes \<le> unat (al_max_compressed_bytes limits))
       (SizeLimit ''compressed'' (al_max_compressed_bytes limits))) (\<lambda>_.
     and_then (limit_plus_one (al_max_uncompressed_bytes limits) ''uncompressed'') (\<lambda>budget.
       let stream = cx_gunzip K bytes;
           visible = take (unat budget) (gz_output stream);
           read_error = (if length (gz_output stream) < unat budget then gz_error stream else None)
       in and_then (map_err (\<lambda>e. Archive [Lit ''tar decoding failed: '', Disp e])
                      (cx_tar_entries K visible read_error)) (\<lambda>items.
          and_then (try_fold read_entry [] items) (\<lambda>entries.
          and_then (case read_error of
                      Some e \<Rightarrow> Inl (Archive [Lit ''gzip decoding failed: '', Disp e])
                    | None \<Rightarrow> Inr ()) (\<lambda>_.
          and_then (ensure (length (gz_output stream) < unat budget)
            (SizeLimit ''uncompressed'' (al_max_uncompressed_bytes limits))) (\<lambda>_.
          and_then (ensure (gz_position stream = length bytes)
            (Archive [Lit ''concatenated gzip members or trailing bytes are not allowed''])) (\<lambda>_.
          and_then (ensure (valid_names (map fst entries))
            (Archive [Lit ''archive entries are missing, unknown, duplicated, or out of order: '',
                      Dbgs (map fst entries)])) (\<lambda>_.
            let by_name = bm_collect entries
            in Inr \<lparr>da_manifest = the (map_of by_name MANIFEST_PATH),
                    da_signature = map_of by_name SIGNATURE_PATH,
                    da_policies = the (map_of by_name POLICIES_PATH),
                    da_schema = map_of by_name SCHEMA_PATH,
                    da_labels = the (map_of by_name LABELS_PATH)\<rparr>))))))))"

section \<open>Validating what was decoded\<close>

definition parse_json ::
  "json_lib \<Rightarrow> string \<Rightarrow> (json \<Rightarrow> 'a option) \<Rightarrow> string \<Rightarrow> bytes \<Rightarrow> bundle_error + 'a" where
  "parse_json J ty decode path bytes =
     and_then (ensure (utf8_valid bytes) (Archive [Disp path, Lit '' is not UTF-8: '', Utf8_error bytes])) (\<lambda>_.
     map_err (\<lambda>e. Archive [Disp path, Lit '' is invalid JSON: '', Disp (je_text e)])
       (from_str J ty decode bytes))"

definition utf8 :: "string \<Rightarrow> bytes \<Rightarrow> bundle_error + string" where
  "utf8 path bytes =
     and_then (ensure (utf8_valid bytes) (Archive [Disp path, Lit '' is not UTF-8: '', Utf8_error bytes])) (\<lambda>_.
     Inr bytes)"

definition compute_bundle_id :: "archive_env \<Rightarrow> archive_manifest \<Rightarrow> bundle_error + string" where
  "compute_bundle_id E m =
     map_ok (sha256_hex (ar_crypto E))
       (canonical_json_bytes (ar_json E) (JObject (im_swap_remove ''bundle_id'' (manifest_members m))))"

text \<open>The closure over the imports of a module: stops at the first bad one.\<close>

fun any_bad_import :: "string set \<Rightarrow> string \<Rightarrow> string set \<Rightarrow> string list \<Rightarrow> bool" where
  "any_bad_import selected namespace seen [] = False"
| "any_bad_import selected namespace seen (i # rest) =
     (i \<notin> selected \<or> i = namespace \<or>
      (case hs_insert i seen of (new, seen') \<Rightarrow> \<not> new \<or> any_bad_import selected namespace seen' rest))"

text \<open>The body of the loop over the modules: names, policy ids assigned so far.\<close>

fun validate_module_record ::
  "cedar \<Rightarrow> string set \<Rightarrow> string set \<times> string set \<Rightarrow> module_record \<Rightarrow>
     bundle_error + string set \<times> string set" where
  "validate_module_record C selected (names, assigned) m =
     and_then (ensure (\<not> (is_blank (mr_name m) \<or> is_blank (mr_namespace m) \<or>
                            cd_parse_name C (mr_namespace m) = None))
       (Archive [Lit ''manifest contains an invalid module name or namespace''])) (\<lambda>_.
     (case hs_insert (mr_name m) names of (new, names) \<Rightarrow>
       and_then (ensure new (Archive [Lit ''manifest contains duplicate module names''])) (\<lambda>_.
       and_then (ensure (\<not> any_bad_import selected (mr_namespace m) {} (mr_imports m))
         (Archive [Lit ''manifest contains an unresolved, self, or duplicate module import''])) (\<lambda>_.
       (case any_repeat hs_insert assigned (mr_policy_ids m) of (repeated, assigned) \<Rightarrow>
         and_then (ensure (\<not> repeated)
           (Archive [Lit ''manifest assigns a policy ID more than once''])) (\<lambda>_.
           Inr (names, assigned)))))))"

definition validate_manifest :: "cedar \<Rightarrow> archive_manifest \<Rightarrow> bundle_error + unit" where
  "validate_manifest C m =
     and_then (ensure (am_format_version m = FORMAT_VERSION)
       (Archive [Lit ''unsupported bundle format version '', Num (unat (am_format_version m))])) (\<lambda>_.
     and_then (ensure (\<not> is_blank (am_name m))
       (Archive [Lit ''bundle manifest name must not be empty''])) (\<lambda>_.
     and_then (ensure (\<not> (gr_treetop_bundle (am_generator m) \<noteq> PKG_VERSION \<or>
                            gr_treetop_core (am_generator m) \<noteq> TREETOP_CORE_VERSION \<or>
                            gr_cedar (am_generator m) \<noteq> CEDAR_VERSION))
       (Archive [Lit ''bundle generator dependency versions are unsupported''])) (\<lambda>_.
     and_then (ensure (am_modules m \<noteq> [])
       (Archive [Lit ''manifest must contain at least one module''])) (\<lambda>_.
     and_then (ensure (list_all (\<lambda>(a, b). a < b) (windows2 (map mr_name (am_modules m))))
       (Archive [Lit ''manifest modules are not ordered by name''])) (\<lambda>_.
     and_then (ensure (list_all (\<lambda>(a, b). a < b) (windows2 (am_policy_ids m)))
       (Archive [Lit ''manifest policy IDs must be sorted and unique''])) (\<lambda>_.
     and_then (try_fold (validate_module_record C (set (map mr_namespace (am_modules m)))) ({}, {}) (am_modules m))
     (\<lambda>(names, assigned).
     and_then (ensure (\<not> list_ex (\<lambda>(a, b). namespace_owns a b \<or> namespace_owns b a)
                          (windows2 (sort (map mr_namespace (am_modules m)))))
       (Archive [Lit ''manifest contains overlapping module namespaces''])) (\<lambda>_.
     ensure (assigned = set (am_policy_ids m))
       (Archive [Lit ''manifest module policy assignments do not match policy_ids''])))))))))"

definition check_artifacts ::
  "crypto \<Rightarrow> artifact_record list \<Rightarrow> (string \<times> bytes) list \<Rightarrow> bundle_error + unit" where
  "check_artifacts X records expected =
     try_fold (\<lambda>_ (record, path, contents).
       ensure (\<not> (af_path record \<noteq> path \<or> unat (af_size record) \<noteq> length contents \<or>
                  af_sha256 record \<noteq> sha256_hex X contents))
         (Archive [Lit ''artifact hash or size mismatch for '', Disp path])) () (zip records expected)"

definition verify_decoded ::
  "crypto \<Rightarrow> trust_store \<Rightarrow> signature_policy \<Rightarrow> bool \<Rightarrow> bytes \<Rightarrow> bundle_signature option \<Rightarrow>
     bundle_error + verified_signature" where
  "verify_decoded X store policy verify_signature manifest signature =
     (case signature of
        Some s \<Rightarrow>
          if verify_signature
          then map_ok (\<lambda>i. \<lparr>vs_signed = True, vs_key_id = Some i\<rparr>) (trust_verify X store manifest s)
          else Inr \<lparr>vs_signed = True, vs_key_id = Some (bs_key_id s)\<rparr>
      | None \<Rightarrow>
          if policy = Required then Inl (Archive [Lit ''signature_missing''])
          else Inr \<lparr>vs_signed = False, vs_key_id = None\<rparr>)"

definition validate_decoded ::
  "archive_env \<Rightarrow> decoded_archive \<Rightarrow> signature_policy \<Rightarrow> trust_store \<Rightarrow> bool \<Rightarrow>
     bundle_error + archive_manifest \<times> verified_signature \<times> bundle_parts" where
  "validate_decoded E d policy store verify_signature =
     (let J = ar_json E; X = ar_crypto E; C = ce_cedar (ar_compile E) in
      and_then (parse_json J ''ArchiveManifest'' decode_manifest MANIFEST_PATH (da_manifest d)) (\<lambda>manifest.
      and_then (transpose (map_option (parse_json J ''BundleSignature'' decode_signature SIGNATURE_PATH)
                             (da_signature d))) (\<lambda>signature.
      and_then (case signature of None \<Rightarrow> Inr () | Some s \<Rightarrow> validate_format X s) (\<lambda>_.
      and_then (verify_decoded X store policy verify_signature (da_manifest d) signature) (\<lambda>verified.
      and_then (validate_manifest C manifest) (\<lambda>_.
      and_then (ensure (length (am_artifacts manifest) = length (artifact_entries d))
        (Archive [Lit ''manifest artifact list does not match archive entries''])) (\<lambda>_.
      and_then (check_artifacts X (am_artifacts manifest) (artifact_entries d)) (\<lambda>_.
      and_then (compute_bundle_id E manifest) (\<lambda>bundle_id.
      and_then (ensure (am_bundle_id manifest = bundle_id)
        (Archive [Lit ''manifest bundle_id does not match its canonical payload''])) (\<lambda>_.
      and_then (utf8 POLICIES_PATH (da_policies d)) (\<lambda>policies.
      and_then (transpose (map_option (parse_json J ''Value'' decode_value SCHEMA_PATH) (da_schema d)))
      (\<lambda>schema_json.
      and_then (utf8 LABELS_PATH (da_labels d)) (\<lambda>labels_source.
      and_then (from_json_str (ce_labels (ar_compile E)) labels_source) (\<lambda>labels.
      and_then (validate_archive_parts (ar_compile E) (am_name manifest) (am_modules manifest) policies
                  schema_json labels (am_policy_ids manifest)) (\<lambda>parts.
        Inr (manifest, verified, parts))))))))))))))))"

section \<open>The public operations\<close>

record validated_bundle =
  vb_format_version :: u32
  vb_bundle_id :: string
  vb_name :: string
  vb_modules :: "module_record list"
  vb_policies :: string
  vb_schema_json :: "json option"
  vb_labels :: label_set
  vb_policy_ids :: "string list"
  vb_diagnostics :: "diagnostic list"
  vb_archive_sha256 :: string
  vb_compressed_size :: nat
  vb_signature :: verified_signature

definition validate_inner ::
  "archive_env \<Rightarrow> bytes \<Rightarrow> signature_policy \<Rightarrow> trust_store \<Rightarrow> archive_limits \<Rightarrow> bool \<Rightarrow>
     bundle_error + validated_bundle" where
  "validate_inner E bytes policy store limits verify_signature =
     and_then (decode_archive (ar_codec E) bytes limits) (\<lambda>decoded.
     and_then (validate_decoded E decoded policy store verify_signature) (\<lambda>(manifest, signature, parts).
       Inr \<lparr>vb_format_version = am_format_version manifest, vb_bundle_id = am_bundle_id manifest,
            vb_name = bp_name parts, vb_modules = bp_modules parts, vb_policies = bp_policies parts,
            vb_schema_json = bp_schema_json parts, vb_labels = bp_labels parts,
            vb_policy_ids = bp_policy_ids parts, vb_diagnostics = bp_diagnostics parts,
            vb_archive_sha256 = sha256_hex (ar_crypto E) bytes, vb_compressed_size = length bytes,
            vb_signature = signature\<rparr>))"

definition validate ::
  "archive_env \<Rightarrow> bytes \<Rightarrow> signature_policy \<Rightarrow> trust_store \<Rightarrow> archive_limits \<Rightarrow>
     bundle_error + validated_bundle" where
  "validate E bytes policy store limits = validate_inner E bytes policy store limits True"

definition signature_document :: "archive_env \<Rightarrow> bytes \<Rightarrow> bytes \<Rightarrow> bundle_error + bytes" where
  "signature_document E key manifest =
     canonical_json_bytes (ar_json E) (signature_to_json (sign_manifest (ar_crypto E) key manifest))"

definition resign :: "archive_env \<Rightarrow> bytes \<Rightarrow> bytes \<Rightarrow> archive_limits \<Rightarrow> bundle_error + bytes" where
  "resign E bytes key limits =
     and_then (decode_archive (ar_codec E) bytes limits) (\<lambda>decoded.
     and_then (validate_decoded E decoded AllowUnsigned [] False) (\<lambda>_.
     and_then (signature_document E key (da_manifest decoded)) (\<lambda>signature.
       encode_archive (ar_codec E) (da_manifest decoded) (Some signature) (artifact_entries decoded))))"

definition artifact_of :: "crypto \<Rightarrow> string \<times> bytes \<Rightarrow> artifact_record" where
  "artifact_of X entry =
     (case entry of (path, bytes) \<Rightarrow>
       \<lparr>af_path = path, af_size = of_nat (length bytes), af_sha256 = sha256_hex X bytes\<rparr>)"

definition manifest_of :: "crypto \<Rightarrow> bundle_parts \<Rightarrow> (string \<times> bytes) list \<Rightarrow> archive_manifest" where
  "manifest_of X parts data =
     \<lparr>am_format_version = FORMAT_VERSION, am_bundle_id = [], am_name = bp_name parts,
      am_generator = this_generator, am_modules = bp_modules parts,
      am_policy_ids = bp_policy_ids parts, am_artifacts = map (artifact_of X) data\<rparr>"

definition build :: "archive_env \<Rightarrow> bundle_parts \<Rightarrow> bytes option \<Rightarrow> bundle_error + bytes" where
  "build E parts key =
     (let J = ar_json E in
      and_then (transpose (map_option (canonical_json_bytes J) (bp_schema_json parts))) (\<lambda>schema.
      and_then (canonical_json_bytes J (label_set_to_json (le_core (ce_labels (ar_compile E))) (bp_labels parts)))
      (\<lambda>labels.
        let data = [(POLICIES_PATH, bp_policies parts)] @
                   (case schema of None \<Rightarrow> [] | Some s \<Rightarrow> [(SCHEMA_PATH, s)]) @ [(LABELS_PATH, labels)];
            manifest = manifest_of (ar_crypto E) parts data
        in and_then (compute_bundle_id E manifest) (\<lambda>bundle_id.
           and_then (canonical_json_bytes J (manifest_to_json (manifest\<lparr>am_bundle_id := bundle_id\<rparr>)))
           (\<lambda>manifest_bytes.
           and_then (transpose (map_option (\<lambda>k. signature_document E k manifest_bytes) key)) (\<lambda>signature.
             encode_archive (ar_codec E) manifest_bytes signature data))))))"

text \<open>\<open>BundleArchive::read\<close>, on an opened file.\<close>

definition archive_read :: "opener \<Rightarrow> string \<Rightarrow> usize \<Rightarrow> bundle_error + bytes" where
  "archive_read open path max_compressed_bytes =
     and_then (map_err (Io path) (open path)) (\<lambda>file.
     and_then (map_err (Io path) (of_metadata file)) (\<lambda>metadata.
     and_then (ensure (md_is_file metadata)
       (Io path (Io_new InvalidInput ''archive is not a regular file''))) (\<lambda>_.
     and_then (ensure (md_len metadata \<le> ucast max_compressed_bytes)
       (SizeLimit ''compressed'' max_compressed_bytes)) (\<lambda>_.
     and_then (limit_plus_one max_compressed_bytes ''compressed'') (\<lambda>budget.
     and_then (map_err (Io path) (read_take (unat budget) file)) (\<lambda>bytes.
     and_then (ensure (length bytes \<le> unat max_compressed_bytes)
       (SizeLimit ''compressed'' max_compressed_bytes)) (\<lambda>_.
       Inr bytes)))))))"

definition bytes_to_string :: "bytes \<Rightarrow> bundle_error + string" where
  "bytes_to_string bytes =
     and_then (ensure (utf8_valid bytes) (Serialization [Utf8_error bytes])) (\<lambda>_. Inr bytes)"

definition schema_json_string :: "archive_env \<Rightarrow> validated_bundle \<Rightarrow> bundle_error + string option" where
  "schema_json_string E b =
     and_then (transpose (map_option (canonical_json_bytes (ar_json E)) (vb_schema_json b))) (\<lambda>value.
       transpose (map_option bytes_to_string value))"

definition labels_json :: "archive_env \<Rightarrow> validated_bundle \<Rightarrow> bundle_error + string" where
  "labels_json E b =
     and_then (canonical_json_bytes (ar_json E)
                 (label_set_to_json (le_core (ce_labels (ar_compile E))) (vb_labels b))) bytes_to_string"

end
