(* ===== verification/Archive_Correct.thy ===== *)
theory Archive_Correct
  imports Archive
begin

text \<open>
  What an accepted archive satisfies, and that what is built or re-signed is read back.

  \<open>manifest_ok\<close> specifies an accepted archive manifest, \<open>decoded_from\<close> what decoding a stream
  means, and \<open>archive_ok\<close> what \<open>validate\<close> has established.
\<close>

section \<open>Limits\<close>

lemma unat_u64: "n < 2 ^ 64 \<Longrightarrow> unat (of_nat n :: u64) = n"
  by (simp add: unat_of_nat)

lemma limit_plus_one_Inr_iff:
  "limit_plus_one limit kind = Inr b \<longleftrightarrow> unat limit < 2 ^ 64 - 1 \<and> unat b = unat limit + 1"
  by (auto simp: limit_plus_one_def result_iff checked_add_Some_iff)

lemma limit_plus_one_fits: "(\<exists>b. limit_plus_one w kind = Inr b) \<longleftrightarrow> unat w < 2 ^ 64 - 1"
proof
  assume "unat w < 2 ^ 64 - 1"
  then have "unat (of_nat (unat w + 1) :: u64) = unat w + 1" by (intro unat_u64) simp
  with \<open>unat w < 2 ^ 64 - 1\<close> show "\<exists>b. limit_plus_one w kind = Inr b"
    unfolding limit_plus_one_Inr_iff by blast
qed (auto simp: limit_plus_one_Inr_iff)

lemma archive_limits_new_Inr_iff:
  "(\<exists>l. archive_limits_new c u = Inr l) \<longleftrightarrow>
     c \<noteq> 0 \<and> u \<noteq> 0 \<and> unat c < 2 ^ 64 - 1 \<and> unat u < 2 ^ 64 - 1"
  "archive_limits_new c u = Inr l \<Longrightarrow> al_max_compressed_bytes l = c \<and> al_max_uncompressed_bytes l = u"
proof -
  show "(\<exists>l. archive_limits_new c u = Inr l) \<longleftrightarrow>
     c \<noteq> 0 \<and> u \<noteq> 0 \<and> unat c < 2 ^ 64 - 1 \<and> unat u < 2 ^ 64 - 1"
    unfolding limit_plus_one_fits [symmetric, of c "''compressed''"] limit_plus_one_fits [symmetric, of u "''uncompressed''"]
    by (auto simp: archive_limits_new_def result_iff)
  show "archive_limits_new c u = Inr l \<Longrightarrow> al_max_compressed_bytes l = c \<and> al_max_uncompressed_bytes l = u"
    by (auto simp: archive_limits_new_def result_iff)
qed

lemma archive_read_Inr:
  assumes "archive_read open path limit = Inr b"
  shows "length b \<le> unat limit \<and> (\<exists>fl. open path = Inr (fl :: open_file) \<and> of_contents fl = Inr b \<and>
    (\<exists>m. of_metadata fl = Inr (m :: metadata) \<and> md_is_file m))"
proof -
  from assms obtain fl :: open_file and m :: metadata where
    f: "open path = Inr fl" "of_metadata fl = Inr m" "md_is_file m"
      "read_take (Suc (unat limit)) fl = Inr b" "length b \<le> unat limit"
    by (auto simp: archive_read_def result_iff limit_plus_one_Inr_iff)
  from f(4) obtain contents where c: "of_contents fl = Inr contents" "b = take (Suc (unat limit)) contents"
    by (auto simp: read_take_def result_iff)
  from f(5) c(2) have "b = contents" by (auto simp: min_def split: if_splits)
  with c(1) have "of_contents fl = Inr b" by simp
  with f show ?thesis by auto
qed

section \<open>Decoding\<close>

definition safe_entry :: "tar_entry \<Rightarrow> string \<times> bytes \<Rightarrow> bool" where
  "safe_entry e pc \<longleftrightarrow>
     te_regular e \<and> te_path e = Inr (fst pc) \<and> te_contents e = Inr (snd pc) \<and>
     utf8_valid (fst pc) \<and> \<not> is_absolute (fst pc) \<and> length (components (fst pc)) = 1 \<and>
     ParentDir \<notin> set (components (fst pc))"

lemma read_entry_Inr_iff:
  "read_entry entries item = Inr entries' \<longleftrightarrow>
     length entries \<noteq> 5 \<and> (\<exists>e pc. item = Inr e \<and> safe_entry e pc \<and> entries' = entries @ [pc])"
  using RootDir_components
  by (cases item) (auto simp: read_entry_def result_iff safe_entry_def list_ex_iff)

lemma read_entries_Inr:
  "try_fold read_entry es items = Inr es' \<Longrightarrow>
     \<exists>new. es' = es @ new \<and> list_all2 (\<lambda>item pc. \<exists>e. item = Inr e \<and> safe_entry e pc) items new"
proof (induction items arbitrary: es)
  case Nil
  then show ?case by simp
next
  case (Cons item items)
  then obtain es1 where "read_entry es item = Inr es1" and rest: "try_fold read_entry es1 items = Inr es'"
    by (auto simp: result_iff)
  then obtain e pc where "item = Inr e" "safe_entry e pc" "es1 = es @ [pc]"
    by (auto simp: read_entry_Inr_iff)
  moreover from Cons.IH [OF rest] obtain new where "es' = es1 @ new"
    "list_all2 (\<lambda>item pc. \<exists>e. item = Inr e \<and> safe_entry e pc) items new" by blast
  ultimately show ?case by (intro exI [of _ "pc # new"]) simp
qed

lemma read_entries_ok:
  "length es + length pcs \<le> 5 \<Longrightarrow> list_all2 (\<lambda>item pc. \<exists>e. item = Inr e \<and> safe_entry e pc) items pcs \<Longrightarrow>
     try_fold read_entry es items = Inr (es @ pcs)"
proof (induction items arbitrary: es pcs)
  case Nil
  then show ?case by simp
next
  case (Cons item items)
  then obtain pc pcs' e where "pcs = pc # pcs'" "item = Inr e" "safe_entry e pc"
    "list_all2 (\<lambda>item pc. \<exists>e. item = Inr e \<and> safe_entry e pc) items pcs'"
    by (auto simp: list_all2_Cons1)
  moreover from this Cons.prems(1) have "read_entry es item = Inr (es @ [pc])"
    unfolding read_entry_Inr_iff by (intro conjI exI [of _ e] exI [of _ pc]) simp_all
  ultimately show ?case using Cons.IH [of "es @ [pc]" pcs'] Cons.prems(1) by simp
qed

text \<open>The entries of an archive in their fixed order.\<close>

definition archive_entries :: "decoded_archive \<Rightarrow> (string \<times> bytes) list" where
  "archive_entries d =
     [(MANIFEST_PATH, da_manifest d)] @
     (case da_signature d of None \<Rightarrow> [] | Some s \<Rightarrow> [(SIGNATURE_PATH, s)]) @ artifact_entries d"

lemma valid_names_entries:
  assumes "valid_names (map fst entries)"
  shows "entries = archive_entries
    \<lparr>da_manifest = the (map_of (bm_collect entries) MANIFEST_PATH),
     da_signature = map_of (bm_collect entries) SIGNATURE_PATH,
     da_policies = the (map_of (bm_collect entries) POLICIES_PATH),
     da_schema = map_of (bm_collect entries) SCHEMA_PATH,
     da_labels = the (map_of (bm_collect entries) LABELS_PATH)\<rparr>"
proof -
  have d: "distinct (map fst entries)" using assms by (auto simp: valid_names_def entry_paths)
  show ?thesis
    using assms unfolding bm_collect_distinct [OF d] valid_names_def
    by (auto simp: map_eq_Cons_conv archive_entries_def artifact_entries_def entry_paths)
qed

lemma valid_names_archive_entries: "valid_names (map fst (archive_entries d))"
  by (auto simp: valid_names_def archive_entries_def artifact_entries_def split: option.split)

lemma lookup_archive_entries:
  "\<lparr>da_manifest = the (map_of (bm_collect (archive_entries d)) MANIFEST_PATH),
     da_signature = map_of (bm_collect (archive_entries d)) SIGNATURE_PATH,
     da_policies = the (map_of (bm_collect (archive_entries d)) POLICIES_PATH),
     da_schema = map_of (bm_collect (archive_entries d)) SCHEMA_PATH,
     da_labels = the (map_of (bm_collect (archive_entries d)) LABELS_PATH)\<rparr> = d"
proof -
  have "distinct (map fst (archive_entries d))"
    by (auto simp: archive_entries_def artifact_entries_def entry_paths split: option.split)
  from bm_collect_distinct [OF this] show ?thesis
    by (cases d) (auto simp: archive_entries_def artifact_entries_def entry_paths split: option.split)
qed

text \<open>What it means that a byte sequence decodes to \<open>d\<close> within the limits.\<close>

definition decoded_from :: "codec \<Rightarrow> bytes \<Rightarrow> archive_limits \<Rightarrow> decoded_archive \<Rightarrow> bool" where
  "decoded_from K bytes limits d \<longleftrightarrow>
     (let stream = cx_gunzip K bytes in
      length bytes \<le> unat (al_max_compressed_bytes limits) \<and>
      length (gz_output stream) \<le> unat (al_max_uncompressed_bytes limits) \<and>
      unat (al_max_uncompressed_bytes limits) < 2 ^ 64 - 1 \<and>
      gz_error stream = None \<and> gz_position stream = length bytes \<and>
      (\<exists>items. cx_tar_entries K (gz_output stream) None = Inr items \<and>
         list_all2 (\<lambda>item pc. \<exists>e. item = Inr e \<and> safe_entry e pc) items (archive_entries d)))"

lemma decode_archive_decoded:
  assumes dec: "decode_archive K bytes limits = Inr d"
  shows "decoded_from K bytes limits d"
proof -
  from dec obtain budget where b: "limit_plus_one (al_max_uncompressed_bytes limits) ''uncompressed'' = Inr budget"
    and c: "length bytes \<le> unat (al_max_compressed_bytes limits)"
    by (auto simp: decode_archive_def result_iff)
  from b have u: "unat budget = unat (al_max_uncompressed_bytes limits) + 1"
    "unat (al_max_uncompressed_bytes limits) < 2 ^ 64 - 1" by (simp_all add: limit_plus_one_Inr_iff)
  let ?s = "cx_gunzip K bytes"
  from dec b c have len: "length (gz_output ?s) < unat budget" and pos: "gz_position ?s = length bytes"
    by (auto simp: decode_archive_def result_iff Let_def)
  then have vis: "take (unat budget) (gz_output ?s) = gz_output ?s" by simp
  from dec b c len vis have err: "gz_error ?s = None"
    by (auto simp: decode_archive_def result_iff Let_def split: option.splits)
  from dec b c len vis err obtain items entries where
    i: "cx_tar_entries K (gz_output ?s) None = Inr items" "try_fold read_entry [] items = Inr entries"
    and v: "valid_names (map fst entries)"
    and d: "d = \<lparr>da_manifest = the (map_of (bm_collect entries) MANIFEST_PATH),
                  da_signature = map_of (bm_collect entries) SIGNATURE_PATH,
                  da_policies = the (map_of (bm_collect entries) POLICIES_PATH),
                  da_schema = map_of (bm_collect entries) SCHEMA_PATH,
                  da_labels = the (map_of (bm_collect entries) LABELS_PATH)\<rparr>"
    by (auto simp: decode_archive_def result_iff Let_def)
  from valid_names_entries [OF v] have "entries = archive_entries d" unfolding d .
  with read_entries_Inr [OF i(2)] i(1) c u len pos err show "decoded_from K bytes limits d"
    by (simp add: decoded_from_def Let_def)
qed

lemma decoded_from_decodes:
  assumes "decoded_from K bytes limits d"
  shows "decode_archive K bytes limits = Inr d"
proof -
  from assms obtain items where
    c: "length bytes \<le> unat (al_max_compressed_bytes limits)"
    and len: "length (gz_output (cx_gunzip K bytes)) \<le> unat (al_max_uncompressed_bytes limits)"
    and u: "unat (al_max_uncompressed_bytes limits) < 2 ^ 64 - 1"
    and err: "gz_error (cx_gunzip K bytes) = None" and pos: "gz_position (cx_gunzip K bytes) = length bytes"
    and i: "cx_tar_entries K (gz_output (cx_gunzip K bytes)) None = Inr items"
    and l: "list_all2 (\<lambda>item pc. \<exists>e. item = Inr e \<and> safe_entry e pc) items (archive_entries d)"
    by (auto simp: decoded_from_def Let_def)
  define budget :: u64 where "budget = of_nat (unat (al_max_uncompressed_bytes limits) + 1)"
  have ub: "unat budget = unat (al_max_uncompressed_bytes limits) + 1"
    unfolding budget_def using u by (intro unat_u64) simp
  with u have b: "limit_plus_one (al_max_uncompressed_bytes limits) ''uncompressed'' = Inr budget"
    by (simp add: limit_plus_one_Inr_iff)
  have five: "length (archive_entries d) \<le> 5"
    by (auto simp: archive_entries_def artifact_entries_def split: option.split)
  from read_entries_ok [of "[]", OF _ l] five have r: "try_fold read_entry [] items = Inr (archive_entries d)"
    by simp
  show "decode_archive K bytes limits = Inr d"
    using c len u err pos i r b ub
    by (simp add: decode_archive_def Let_def valid_names_archive_entries lookup_archive_entries)
qed

lemma decode_archive_Inr_iff:
  "decode_archive K bytes limits = Inr d \<longleftrightarrow> decoded_from K bytes limits d"
  using decode_archive_decoded decoded_from_decodes by blast

section \<open>Encoding\<close>

definition member_of :: "string \<times> bytes \<Rightarrow> tar_member" where
  "member_of entry =
     (case entry of (path, contents) \<Rightarrow>
       (\<lparr>th_regular = True, th_mode = 0x1A4, th_uid = 0, th_gid = 0, th_mtime = 0,
         th_size = of_nat (length contents)\<rparr>, path, contents))"

lemma append_tar_file_Inr:
  "append_tar_file K ms e = Inr ms' \<longleftrightarrow> cx_tar_append_error K (member_of e) = None \<and> ms' = ms @ [member_of e]"
  by (cases e) (auto simp: append_tar_file_def member_of_def Let_def split: option.splits)

lemma append_tar_files_Inr:
  "try_fold (append_tar_file K) ms es = Inr ms' \<longleftrightarrow>
     (\<forall>e \<in> set es. cx_tar_append_error K (member_of e) = None) \<and> ms' = ms @ map member_of es"
  by (induction es arbitrary: ms) (auto simp: result_iff append_tar_file_Inr)

lemma encode_archive_Inr_iff:
  "encode_archive K (da_manifest d) (da_signature d) (artifact_entries d) = Inr b \<longleftrightarrow>
     (\<forall>e \<in> set (archive_entries d). cx_tar_append_error K (member_of e) = None) \<and>
     (\<exists>t. cx_tar_finish K (map member_of (archive_entries d)) = Inr t \<and> cx_gzip_finish K t = Inr b)"
  by (cases "da_signature d")
    (auto simp: encode_archive_def result_iff append_tar_file_Inr append_tar_files_Inr archive_entries_def)

text \<open>
  Documented behaviour of the crates: decompressing gives back what was compressed and consumes
  it all, the entries of a tar stream are the regular members appended to it, and what is appended
  is a Rust slice, which holds at most \<open>isize::MAX\<close> bytes.
\<close>

definition codec_documented :: "codec \<Rightarrow> bool" where
  "codec_documented K \<longleftrightarrow>
     (\<forall>t b. cx_gzip_finish K t = Inr b \<longrightarrow>
        cx_gunzip K b = \<lparr>gz_output = t, gz_error = None, gz_position = length b\<rparr>) \<and>
     (\<forall>ms t. cx_tar_finish K ms = Inr t \<and>
        (\<forall>(h, p, c) \<in> set ms. cx_tar_append_error K (h, p, c) = None \<and> th_regular h \<and> unat (th_size h) = length c) \<longrightarrow>
        cx_tar_entries K t None =
          Inr (map (\<lambda>(h, p, c). Inr \<lparr>te_regular = True, te_path = Inr p, te_contents = Inr c\<rparr>) ms)) \<and>
     (\<forall>h p c. cx_tar_append_error K (h, p, c) = None \<longrightarrow> length c < 2 ^ 63)"

text \<open>A \<open>Vec\<close> holds at most \<open>isize::MAX\<close> bytes.\<close>

definition in_memory :: "decoded_archive \<Rightarrow> bool" where
  "in_memory d \<longleftrightarrow> (\<forall>(p, c) \<in> set (archive_entries d). length c < 2 ^ 63)"

definition safe_name :: "string \<Rightarrow> bool" where
  "safe_name p \<longleftrightarrow>
     utf8_valid p \<and> \<not> is_absolute p \<and> length (components p) = 1 \<and> ParentDir \<notin> set (components p)"

lemma entry_names_safe:
  "list_all safe_name [MANIFEST_PATH, SIGNATURE_PATH, POLICIES_PATH, SCHEMA_PATH, LABELS_PATH]"
  by code_simp

lemma entries_names:
  "pc \<in> set (archive_entries d) \<Longrightarrow>
     fst pc \<in> {MANIFEST_PATH, SIGNATURE_PATH, POLICIES_PATH, SCHEMA_PATH, LABELS_PATH}"
  by (auto simp: archive_entries_def artifact_entries_def split: option.splits)

lemma decode_encode_archive:
  assumes doc: "codec_documented K" and mem: "in_memory d"
    and enc: "encode_archive K (da_manifest d) (da_signature d) (artifact_entries d) = Inr b"
    and c: "length b \<le> unat (al_max_compressed_bytes limits)"
    and u: "length (gz_output (cx_gunzip K b)) \<le> unat (al_max_uncompressed_bytes limits)"
      "unat (al_max_uncompressed_bytes limits) < 2 ^ 64 - 1"
  shows "decode_archive K b limits = Inr d"
proof -
  from enc obtain t where t: "cx_tar_finish K (map member_of (archive_entries d)) = Inr t"
    "cx_gzip_finish K t = Inr b" and app: "\<forall>e \<in> set (archive_entries d). cx_tar_append_error K (member_of e) = None"
    by (auto simp: encode_archive_Inr_iff)
  from doc t(2) have g: "cx_gunzip K b = \<lparr>gz_output = t, gz_error = None, gz_position = length b\<rparr>"
    by (simp add: codec_documented_def)
  have "case member_of e of (h, p, c) \<Rightarrow>
      cx_tar_append_error K (h, p, c) = None \<and> th_regular h \<and> unat (th_size h) = length c"
    if "e \<in> set (archive_entries d)" for e
    using that app mem by (cases e) (auto simp: member_of_def in_memory_def unat_u64)
  then have "\<forall>(h, p, c) \<in> set (map member_of (archive_entries d)).
      cx_tar_append_error K (h, p, c) = None \<and> th_regular h \<and> unat (th_size h) = length c" by simp
  with doc t(1) have i: "cx_tar_entries K t None =
      Inr (map (\<lambda>(h, p, c). Inr \<lparr>te_regular = True, te_path = Inr p, te_contents = Inr c\<rparr>)
        (map member_of (archive_entries d)))"
    unfolding codec_documented_def by blast
  have "safe_entry \<lparr>te_regular = True, te_path = Inr p, te_contents = Inr c\<rparr> (p, c)"
    if "(p, c) \<in> set (archive_entries d)" for p c
    using entry_names_safe entries_names [OF that] by (auto simp: safe_entry_def safe_name_def)
  then have "list_all2 (\<lambda>item pc. \<exists>e. item = Inr e \<and> safe_entry e pc)
      (map (\<lambda>(h, p, c). Inr \<lparr>te_regular = True, te_path = Inr p, te_contents = Inr c\<rparr>)
        (map member_of (archive_entries d))) (archive_entries d)"
    by (auto simp: list_all2_map1 member_of_def list.rel_refl_strong split: prod.splits
        intro!: list.rel_refl_strong)
  with c u g i show ?thesis by (simp add: decode_archive_Inr_iff decoded_from_def)
qed

section \<open>The manifest of an archive\<close>

definition module_record_ok :: "cedar \<Rightarrow> string set \<Rightarrow> module_record \<Rightarrow> bool" where
  "module_record_ok C selected m \<longleftrightarrow>
     \<not> is_blank (mr_name m) \<and> namespace_ok C (mr_namespace m) \<and> distinct (mr_imports m) \<and>
     mr_namespace m \<notin> set (mr_imports m) \<and> set (mr_imports m) \<subseteq> selected"

definition manifest_ok :: "cedar \<Rightarrow> archive_manifest \<Rightarrow> bool" where
  "manifest_ok C m \<longleftrightarrow>
     am_format_version m = FORMAT_VERSION \<and> \<not> is_blank (am_name m) \<and> am_generator m = this_generator \<and>
     am_modules m \<noteq> [] \<and> sorted_wrt (<) (map mr_name (am_modules m)) \<and> sorted_wrt (<) (am_policy_ids m) \<and>
     (\<forall>r \<in> set (am_modules m). module_record_ok C (mr_namespace ` set (am_modules m)) r) \<and>
     distinct (concat (map mr_policy_ids (am_modules m))) \<and>
     set (am_policy_ids m) = set (concat (map mr_policy_ids (am_modules m))) \<and>
     neighbours_disjoint (map mr_namespace (am_modules m))"

lemma any_bad_import_iff:
  "any_bad_import selected ns seen is \<longleftrightarrow>
     \<not> (set is \<subseteq> selected \<and> ns \<notin> set is \<and> distinct is \<and> set is \<inter> seen = {})"
  by (induction "is" arbitrary: seen) (auto simp: hs_insert_def)

lemma validate_module_record_Inr:
  "validate_module_record C selected (names, assigned) m = Inr (names', assigned') \<longleftrightarrow>
     module_record_ok C selected m \<and> mr_name m \<notin> names \<and> names' = insert (mr_name m) names \<and>
     distinct (mr_policy_ids m) \<and> set (mr_policy_ids m) \<inter> assigned = {} \<and>
     assigned' = assigned \<union> set (mr_policy_ids m)"
proof -
  obtain rep s where r: "any_repeat hs_insert assigned (mr_policy_ids m) = (rep, s)" by fastforce
  with hash_set.any_repeat_spec [of assigned "mr_policy_ids m"]
  have "rep \<longleftrightarrow> \<not> distinct (mr_policy_ids m) \<or> assigned \<inter> set (mr_policy_ids m) \<noteq> {}"
    "\<not> rep \<longrightarrow> s = assigned \<union> set (mr_policy_ids m)" by auto
  with r show ?thesis
    by (auto simp: result_iff hs_insert_def any_bad_import_iff module_record_ok_def namespace_ok_def
        split: if_splits)
qed

lemma validate_module_records_Inr:
  "try_fold (validate_module_record C selected) (names, assigned) ms = Inr (names', assigned') \<longleftrightarrow>
     (\<forall>m \<in> set ms. module_record_ok C selected m) \<and> distinct (map mr_name ms) \<and>
     names \<inter> mr_name ` set ms = {} \<and> names' = names \<union> mr_name ` set ms \<and>
     distinct (concat (map mr_policy_ids ms)) \<and> set (concat (map mr_policy_ids ms)) \<inter> assigned = {} \<and>
     assigned' = assigned \<union> set (concat (map mr_policy_ids ms))"
proof (induction ms arbitrary: names assigned)
  case Nil
  then show ?case by auto
next
  case (Cons m ms)
  have "try_fold (validate_module_record C selected) (names, assigned) (m # ms) = Inr (names', assigned') \<longleftrightarrow>
      (\<exists>n a. validate_module_record C selected (names, assigned) m = Inr (n, a) \<and>
        try_fold (validate_module_record C selected) (n, a) ms = Inr (names', assigned'))"
    by (simp add: result_iff del: validate_module_record.simps)
  also have "\<dots> \<longleftrightarrow> module_record_ok C selected m \<and> mr_name m \<notin> names \<and> distinct (mr_policy_ids m) \<and>
      set (mr_policy_ids m) \<inter> assigned = {} \<and>
      try_fold (validate_module_record C selected) (insert (mr_name m) names, assigned \<union> set (mr_policy_ids m)) ms =
        Inr (names', assigned')"
    unfolding validate_module_record_Inr by blast
  also have "\<dots> \<longleftrightarrow> (\<forall>x \<in> set (m # ms). module_record_ok C selected x) \<and> distinct (map mr_name (m # ms)) \<and>
     names \<inter> mr_name ` set (m # ms) = {} \<and> names' = names \<union> mr_name ` set (m # ms) \<and>
     distinct (concat (map mr_policy_ids (m # ms))) \<and>
     set (concat (map mr_policy_ids (m # ms))) \<inter> assigned = {} \<and>
     assigned' = assigned \<union> set (concat (map mr_policy_ids (m # ms)))"
  proof -
    let ?f = "mr_name" and ?p = "mr_policy_ids :: module_record \<Rightarrow> string list"
    have 1: "names \<union> ?f ` set (m # ms) = insert (?f m) names \<union> ?f ` set ms" by auto
    have 2: "assigned \<union> set (concat (map ?p (m # ms))) = assigned \<union> set (?p m) \<union> set (concat (map ?p ms))"
      by auto
    have 3: "(?f m \<notin> names \<and> distinct (map ?f ms) \<and> insert (?f m) names \<inter> ?f ` set ms = {}) \<longleftrightarrow>
       distinct (map ?f (m # ms)) \<and> names \<inter> ?f ` set (m # ms) = {}" by auto
    have 4: "(distinct (?p m) \<and> set (?p m) \<inter> assigned = {} \<and> distinct (concat (map ?p ms)) \<and>
         set (concat (map ?p ms)) \<inter> (assigned \<union> set (?p m)) = {}) \<longleftrightarrow>
       distinct (concat (map ?p (m # ms))) \<and> set (concat (map ?p (m # ms))) \<inter> assigned = {}"
      by (simp add: Int_Un_distrib Int_Un_distrib2 Int_commute) blast
    have 5: "(\<forall>x \<in> set (m # ms). module_record_ok C selected x) \<longleftrightarrow>
        module_record_ok C selected m \<and> (\<forall>x \<in> set ms. module_record_ok C selected x)" by simp
    show ?thesis unfolding Cons.IH 1 2 5 using 3 4 by argo
  qed
  finally show ?case .
qed

lemma windows2_overlap:
  "\<not> list_ex (\<lambda>(a, b). namespace_owns a b \<or> namespace_owns b a) (windows2 (sort ns)) \<longleftrightarrow> neighbours_disjoint ns"
  by (auto simp: neighbours_disjoint_def namespaces_overlap_def list_ex_iff list_all_iff)

lemma validate_manifest_Inr_iff: "validate_manifest C m = Inr u \<longleftrightarrow> manifest_ok C m"
proof -
  have gen: "am_generator m = this_generator \<longleftrightarrow> gr_treetop_bundle (am_generator m) = PKG_VERSION \<and>
      gr_treetop_core (am_generator m) = TREETOP_CORE_VERSION \<and> gr_cedar (am_generator m) = CEDAR_VERSION"
    by (cases "am_generator m") (auto simp: this_generator_def)
  have "validate_manifest C m = Inr u \<longleftrightarrow>
      am_format_version m = FORMAT_VERSION \<and> \<not> is_blank (am_name m) \<and> am_generator m = this_generator \<and>
      am_modules m \<noteq> [] \<and> sorted_wrt (<) (map mr_name (am_modules m)) \<and> sorted_wrt (<) (am_policy_ids m) \<and>
      (\<exists>names assigned. try_fold (validate_module_record C (set (map mr_namespace (am_modules m)))) ({}, {}) (am_modules m)
          = Inr (names, assigned) \<and> neighbours_disjoint (map mr_namespace (am_modules m)) \<and>
        assigned = set (am_policy_ids m))"
    unfolding validate_manifest_def
    by (simp only: and_then_Inr ensure_Inr list_all_windows2_ordered windows2_overlap gen de_Morgan_disj
        not_not split_paired_Ex prod.case simp_thms ex_simps)
  also have "\<dots> \<longleftrightarrow> manifest_ok C m"
  proof -
    have "distinct (map mr_name (am_modules m))" if "sorted_wrt (<) (map mr_name (am_modules m))"
      using that by (simp only: strict_sorted_iff)
    then show ?thesis unfolding validate_module_records_Inr manifest_ok_def
      by (intro iffI conjI; (elim conjE exE)?; (simp; fail)?)
  qed
  finally show ?thesis .
qed

section \<open>What validation establishes\<close>

definition artifact_matches :: "crypto \<Rightarrow> artifact_record \<Rightarrow> string \<times> bytes \<Rightarrow> bool" where
  "artifact_matches X r pc \<longleftrightarrow>
     af_path r = fst pc \<and> unat (af_size r) = length (snd pc) \<and> af_sha256 r = sha256_hex X (snd pc)"

lemma check_artifacts_Inr_iff:
  "length records = length expected \<Longrightarrow>
     check_artifacts X records expected = Inr u \<longleftrightarrow> list_all2 (artifact_matches X) records expected"
proof (induction records expected rule: list_induct2)
  case Nil
  then show ?case by (simp add: check_artifacts_def)
next
  case (Cons r records pc expected)
  then show ?case by (cases pc) (auto simp: check_artifacts_def result_iff artifact_matches_def)
qed

definition parsed_signature :: "archive_env \<Rightarrow> bytes \<Rightarrow> bundle_signature \<Rightarrow> bool" where
  "parsed_signature E b s \<longleftrightarrow>
     parse_json (ar_json E) ''BundleSignature'' decode_signature SIGNATURE_PATH b = Inr s \<and>
     format_ok (ar_crypto E) s"

text \<open>How the signature was dealt with.\<close>

definition signature_accepted ::
  "archive_env \<Rightarrow> decoded_archive \<Rightarrow> signature_policy \<Rightarrow> trust_store \<Rightarrow> bool \<Rightarrow> verified_signature \<Rightarrow> bool" where
  "signature_accepted E d policy store verify_signature vs \<longleftrightarrow>
     (case da_signature d of
        None \<Rightarrow> policy \<noteq> Required \<and> vs = \<lparr>vs_signed = False, vs_key_id = None\<rparr>
      | Some b \<Rightarrow>
          (\<exists>s i. parsed_signature E b s \<and> vs = \<lparr>vs_signed = True, vs_key_id = Some i\<rparr> \<and>
             (if verify_signature then trust_verify (ar_crypto E) store (da_manifest d) s = Inr i
              else i = bs_key_id s)))"

text \<open>The manifest describes exactly the artifacts of the archive.\<close>

definition manifest_describes :: "archive_env \<Rightarrow> decoded_archive \<Rightarrow> archive_manifest \<Rightarrow> bool" where
  "manifest_describes E d m \<longleftrightarrow>
     parse_json (ar_json E) ''ArchiveManifest'' decode_manifest MANIFEST_PATH (da_manifest d) = Inr m \<and>
     manifest_ok (ce_cedar (ar_compile E)) m \<and>
     list_all2 (artifact_matches (ar_crypto E)) (am_artifacts m) (artifact_entries d) \<and>
     compute_bundle_id E m = Inr (am_bundle_id m)"

text \<open>The contents are what the artifacts say, and they pass the checks on the parts.\<close>

definition contents_accepted ::
  "archive_env \<Rightarrow> decoded_archive \<Rightarrow> archive_manifest \<Rightarrow> bundle_parts \<Rightarrow> bool" where
  "contents_accepted E d m parts \<longleftrightarrow>
     utf8_valid (da_policies d) \<and> utf8_valid (da_labels d) \<and>
     (\<exists>schema_json labels.
        transpose (map_option (parse_json (ar_json E) ''Value'' decode_value SCHEMA_PATH) (da_schema d)) =
          Inr schema_json \<and>
        from_json_str (ce_labels (ar_compile E)) (da_labels d) = Inr labels \<and>
        validate_archive_parts (ar_compile E) (am_name m) (am_modules m) (da_policies d) schema_json labels
          (am_policy_ids m) = Inr parts)"

lemma signature_stage:
  "(\<exists>signature. transpose (map_option (parse_json (ar_json E) ''BundleSignature'' decode_signature SIGNATURE_PATH)
        (da_signature d)) = Inr signature \<and>
      (\<exists>u. (case signature of None \<Rightarrow> Inr () | Some s \<Rightarrow> validate_format (ar_crypto E) s) = Inr u \<and>
        verify_decoded (ar_crypto E) store policy v (da_manifest d) signature = Inr vs)) \<longleftrightarrow>
     signature_accepted E d policy store v vs"
proof (cases "da_signature d")
  case None
  then show ?thesis by (auto simp: signature_accepted_def verify_decoded_def)
next
  case (Some b)
  show ?thesis
  proof (cases "parse_json (ar_json E) ''BundleSignature'' decode_signature SIGNATURE_PATH b")
    case (Inl e)
    with Some show ?thesis by (simp add: signature_accepted_def parsed_signature_def)
  next
    case (Inr s)
    with Some show ?thesis
      by (auto simp: signature_accepted_def parsed_signature_def verify_decoded_def validate_format_Inr_iff
          map_ok_Inr)
  qed
qed

lemma validate_decoded_Inr_iff:
  "validate_decoded E d policy store v = Inr (m, vs, parts) \<longleftrightarrow>
     signature_accepted E d policy store v vs \<and> manifest_describes E d m \<and> contents_accepted E d m parts"
proof -
  have len: "length (am_artifacts m) = length (artifact_entries d) \<and>
      (\<exists>u. check_artifacts (ar_crypto E) (am_artifacts m) (artifact_entries d) = Inr u) \<longleftrightarrow>
      list_all2 (artifact_matches (ar_crypto E)) (am_artifacts m) (artifact_entries d)" for m
    using check_artifacts_Inr_iff [of "am_artifacts m" "artifact_entries d" "ar_crypto E"]
    by (auto dest: list_all2_lengthD)
  have contents: "contents_accepted E d m parts \<longleftrightarrow>
      (\<exists>policies. utf8 POLICIES_PATH (da_policies d) = Inr policies \<and>
       (\<exists>schema_json. transpose (map_option (parse_json (ar_json E) ''Value'' decode_value SCHEMA_PATH)
            (da_schema d)) = Inr schema_json \<and>
        (\<exists>source. utf8 LABELS_PATH (da_labels d) = Inr source \<and>
         (\<exists>labels. from_json_str (ce_labels (ar_compile E)) source = Inr labels \<and>
           validate_archive_parts (ar_compile E) (am_name m) (am_modules m) policies schema_json labels
             (am_policy_ids m) = Inr parts))))"
    by (auto simp: contents_accepted_def utf8_def result_iff)
  show ?thesis
    unfolding signature_stage [symmetric] contents manifest_describes_def len [of m, symmetric]
      validate_decoded_def Let_def and_then_Inr ensure_Inr validate_manifest_Inr_iff
    by (auto simp del: map_option_case)
qed

end
