(* ===== verification/Archive_Round_Trip.thy ===== *)
theory Archive_Round_Trip
  imports Archive_Correct
begin

text \<open>
  What is built is read back: the manifest and the signature document survive their JSON form, an
  archive decodes to what was encoded, a built archive validates, and re-signing changes nothing
  but the signature.
\<close>

section \<open>The manifest as JSON and back\<close>

lemma decode_role_to_json [simp]: "decode_role (role_to_json r) = Some r"
  by (cases r) (simp_all add: role_to_json_def decode_role_def)

lemma sort_json_leaves [simp]:
  "sort_json (strings_to_json ss) = strings_to_json ss" "sort_json (role_to_json r) = role_to_json r"
  by (simp_all add: strings_to_json_def role_to_json_def comp_def)

lemma decode_strings [simp]: "decode_vec as_str (strings_to_json ss) = Some ss"
  by (simp add: strings_to_json_def decode_vec_str)

lemma decode_module_sorted: "decode_module (sort_json (module_to_json m)) = Some m"
  by (simp add: decode_module_def module_to_json_def decode_fields_sort)

lemma decode_generator_sorted: "decode_generator (sort_json (generator_to_json g)) = Some g"
  by (simp add: decode_generator_def generator_to_json_def decode_fields_sort)

lemma decode_artifact_sorted: "decode_artifact (sort_json (artifact_to_json a)) = Some a"
  by (simp add: decode_artifact_def artifact_to_json_def decode_fields_sort decode_encode_uint)

lemma decode_manifest_sorted: "decode_manifest (sort_json (manifest_to_json m)) = Some m"
proof -
  have arrays: "decode_vec decode_module (JArray (map (\<lambda>x. sort_json (module_to_json x)) ms)) = Some ms"
    "decode_vec decode_artifact (JArray (map (\<lambda>x. sort_json (artifact_to_json x)) as)) = Some as" for ms as
    by (rule decode_vec_map, simp add: decode_module_sorted decode_artifact_sorted)+
  show ?thesis
    unfolding decode_manifest_def manifest_to_json_def manifest_members_def
    by (subst decode_fields_sort)
      (auto simp: decode_encode_uint decode_generator_sorted arrays comp_def)
qed

lemma compute_bundle_id_update [simp]:
  "compute_bundle_id E (m\<lparr>am_bundle_id := i\<rparr>) = compute_bundle_id E m"
  by (simp add: compute_bundle_id_def manifest_members_def im_swap_remove_def)

section \<open>Printable documents\<close>

definition record_utf8 :: "module_record \<Rightarrow> bool" where
  "record_utf8 r \<longleftrightarrow>
     utf8_valid (mr_name r) \<and> utf8_valid (mr_namespace r) \<and> list_all utf8_valid (mr_imports r) \<and>
     list_all utf8_valid (mr_policy_ids r)"

text \<open>The strings of the parts are Rust strings.\<close>

definition parts_utf8 :: "bundle_parts \<Rightarrow> bool" where
  "parts_utf8 parts \<longleftrightarrow>
     utf8_valid (bp_name parts) \<and> list_all record_utf8 (bp_modules parts) \<and>
     list_all utf8_valid (bp_policy_ids parts) \<and> utf8_valid (bp_policies parts)"

lemma printable_strings: "list_all utf8_valid ss \<Longrightarrow> json_wf (strings_to_json ss) \<and>
    float_free (strings_to_json ss) \<and> json_utf8 (strings_to_json ss)"
  by (simp add: strings_to_json_def list_all_iff)

lemma nested_strings: "nested_within (Suc d) (strings_to_json ss)"
  by (simp add: strings_to_json_def list_all_iff)

lemma encode_uint_printable [simp]:
  "json_wf (encode_uint n)" "float_free (encode_uint n)" "json_utf8 (encode_uint n)"
  "nested_within d (encode_uint n)"
  by (simp_all add: encode_uint_def)

lemma role_printable [simp]:
  "json_wf (role_to_json r)" "float_free (role_to_json r)" "json_utf8 (role_to_json r)"
  "nested_within d (role_to_json r)"
  by (cases r; simp add: role_to_json_def byte_in_def)+

lemma printable_module:
  assumes "record_utf8 r"
  shows "json_wf (module_to_json r) \<and> float_free (module_to_json r) \<and> json_utf8 (module_to_json r)"
  using assms printable_strings [of "mr_imports r"] printable_strings [of "mr_policy_ids r"]
  by (simp add: module_to_json_def record_utf8_def byte_in_def)

lemma nested_module: "nested_within (Suc (Suc d)) (module_to_json r)"
  by (simp add: module_to_json_def nested_strings)

lemma printable_artifact:
  "json_wf (artifact_to_json (artifact_of X pc)) \<and> float_free (artifact_to_json (artifact_of X pc)) \<and>
   (utf8_valid (fst pc) \<longrightarrow> json_utf8 (artifact_to_json (artifact_of X pc)))"
  by (cases pc) (simp add: artifact_to_json_def artifact_of_def sha256_hex_def byte_in_def)

lemma nested_artifact: "nested_within (Suc d) (artifact_to_json a)"
  by (simp add: artifact_to_json_def)

lemma printable_generator:
  "json_wf (generator_to_json this_generator) \<and> float_free (generator_to_json this_generator) \<and>
   json_utf8 (generator_to_json this_generator) \<and> nested_within (Suc d) (generator_to_json this_generator)"
  by (simp add: generator_to_json_def this_generator_def PKG_VERSION_def TREETOP_CORE_VERSION_def
      CEDAR_VERSION_def byte_in_def)

lemma printable_manifest:
  assumes p: "parts_utf8 parts" and a: "\<forall>pc \<in> set data. utf8_valid (fst pc)" and i: "utf8_valid i"
  shows "printable (manifest_to_json ((manifest_of X parts data)\<lparr>am_bundle_id := i\<rparr>))"
proof -
  have m: "\<forall>r \<in> set (bp_modules parts). record_utf8 r" "list_all utf8_valid (bp_policy_ids parts)"
    "utf8_valid (bp_name parts)" using p by (simp_all add: parts_utf8_def list_all_iff)
  show ?thesis
    using m a i printable_strings [OF m(2)] printable_module printable_artifact [of X] printable_generator
    by (auto simp: printable_def manifest_to_json_def manifest_members_def manifest_of_def list_all_iff
        byte_in_def numeral_eq_Suc nested_strings nested_module nested_artifact)
qed

section \<open>Reading back the manifest and the signature\<close>

lemma parse_json_canonical:
  assumes "json_documented J" "printable v" "canonical_json_bytes J v = Inr b" "d (sort_json v) = Some x"
  shows "parse_json J ty d path b = Inr x"
  using assms canonical_read_back [OF assms(1-3)] by (simp add: parse_json_def from_str_canonical)

lemma printable_signature:
  assumes "\<forall>b. utf8_valid (cr_b64_encode X b)"
  shows "printable (signature_to_json (sign_manifest X key manifest))"
  using assms
  by (simp add: printable_def signature_to_json_def sign_manifest_def key_id_def byte_in_def)

text \<open>A signature document made by \<open>sign_manifest\<close> is read back and is well formed.\<close>

definition base64_text :: "crypto \<Rightarrow> bool" where
  "base64_text X \<longleftrightarrow> (\<forall>b. utf8_valid (cr_b64_encode X b))"

lemma signature_document_parsed:
  assumes "json_documented (ar_json E)" "crypto_documented (ar_crypto E)" "base64_text (ar_crypto E)"
    and "signature_document E key manifest = Inr b"
  shows "parsed_signature E b (sign_manifest (ar_crypto E) key manifest)"
proof -
  have "printable (signature_to_json (sign_manifest (ar_crypto E) key manifest))"
    using assms(3) by (intro printable_signature) (simp add: base64_text_def)
  from parse_json_canonical [where d = decode_signature, OF assms(1) this assms(4) [unfolded signature_document_def]]
    decode_signature_sorted sign_manifest_format [OF assms(2)]
  show ?thesis by (simp add: parsed_signature_def)
qed

section \<open>Building\<close>

text \<open>What the parts of a bundle must satisfy for their manifest to be accepted.\<close>

definition parts_ok :: "cedar \<Rightarrow> bundle_parts \<Rightarrow> bool" where
  "parts_ok C parts \<longleftrightarrow>
     \<not> is_blank (bp_name parts) \<and> bp_modules parts \<noteq> [] \<and>
     sorted_wrt (<) (map mr_name (bp_modules parts)) \<and> sorted_wrt (<) (bp_policy_ids parts) \<and>
     (\<forall>r \<in> set (bp_modules parts). module_record_ok C (mr_namespace ` set (bp_modules parts)) r) \<and>
     distinct (concat (map mr_policy_ids (bp_modules parts))) \<and>
     set (bp_policy_ids parts) = set (concat (map mr_policy_ids (bp_modules parts))) \<and>
     neighbours_disjoint (map mr_namespace (bp_modules parts))"

lemma manifest_of_ok: "parts_ok C parts \<Longrightarrow> manifest_ok C ((manifest_of X parts data)\<lparr>am_bundle_id := i\<rparr>)"
  by (simp add: parts_ok_def manifest_ok_def manifest_of_def)

lemma artifacts_match:
  "\<forall>pc \<in> set data. length (snd pc) < 2 ^ 63 \<Longrightarrow>
     list_all2 (artifact_matches X) (map (artifact_of X) data) data"
  by (induction data) (auto simp: artifact_matches_def artifact_of_def unat_u64 split: prod.splits)

abbreviation labels_document :: "archive_env \<Rightarrow> bundle_parts \<Rightarrow> json" where
  "labels_document E parts \<equiv> label_set_to_json (le_core (ce_labels (ar_compile E))) (bp_labels parts)"

text \<open>The archive that \<open>build\<close> encodes.\<close>

definition built :: "archive_env \<Rightarrow> bundle_parts \<Rightarrow> bytes option \<Rightarrow> decoded_archive \<Rightarrow> archive_manifest \<Rightarrow> bool" where
  "built E parts key d m \<longleftrightarrow>
     da_policies d = bp_policies parts \<and>
     transpose (map_option (canonical_json_bytes (ar_json E)) (bp_schema_json parts)) = Inr (da_schema d) \<and>
     canonical_json_bytes (ar_json E) (labels_document E parts) = Inr (da_labels d) \<and>
     (\<exists>i. m = (manifest_of (ar_crypto E) parts (artifact_entries d))\<lparr>am_bundle_id := i\<rparr> \<and>
        compute_bundle_id E m = Inr i) \<and>
     canonical_json_bytes (ar_json E) (manifest_to_json m) = Inr (da_manifest d) \<and>
     transpose (map_option (\<lambda>k. signature_document E k (da_manifest d)) key) = Inr (da_signature d)"

lemma build_Inr:
  assumes "build E parts key = Inr b"
  shows "\<exists>d m. built E parts key d m \<and>
    encode_archive (ar_codec E) (da_manifest d) (da_signature d) (artifact_entries d) = Inr b"
proof -
  from assms obtain schema labels where
    s: "transpose (map_option (canonical_json_bytes (ar_json E)) (bp_schema_json parts)) = Inr schema"
    and l: "canonical_json_bytes (ar_json E) (labels_document E parts) = Inr labels"
    unfolding build_def Let_def and_then_Inr by blast
  define d0 where "d0 = \<lparr>da_manifest = [], da_signature = None, da_policies = bp_policies parts,
    da_schema = schema, da_labels = labels\<rparr>"
  have data: "[(POLICIES_PATH, bp_policies parts)] @
      (case schema of None \<Rightarrow> [] | Some s \<Rightarrow> [(SCHEMA_PATH, s)]) @ [(LABELS_PATH, labels)] = artifact_entries d0"
    by (simp add: d0_def artifact_entries_def)
  let ?m0 = "manifest_of (ar_crypto E) parts (artifact_entries d0)"
  from assms s l obtain i mb sig where
    i: "compute_bundle_id E ?m0 = Inr i"
    and mb: "canonical_json_bytes (ar_json E) (manifest_to_json (?m0\<lparr>am_bundle_id := i\<rparr>)) = Inr mb"
    and sig: "transpose (map_option (\<lambda>k. signature_document E k mb) key) = Inr sig"
    and enc: "encode_archive (ar_codec E) mb sig (artifact_entries d0) = Inr b"
    unfolding build_def Let_def by (simp only: and_then_simps data and_then_Inr) blast
  define d where "d = d0\<lparr>da_manifest := mb, da_signature := sig\<rparr>"
  have e: "artifact_entries d = artifact_entries d0" by (simp add: d_def artifact_entries_def)
  have "built E parts key d (?m0\<lparr>am_bundle_id := i\<rparr>)"
    unfolding built_def e using s l i mb sig by (auto simp: d_def d0_def)
  moreover have "encode_archive (ar_codec E) (da_manifest d) (da_signature d) (artifact_entries d) = Inr b"
    unfolding e using enc by (simp add: d_def)
  ultimately show ?thesis by blast
qed

text \<open>A built archive describes itself.\<close>

lemma built_describes:
  assumes "json_documented (ar_json E)" "parts_utf8 parts" "parts_ok (ce_cedar (ar_compile E)) parts"
    and "built E parts key d m" "in_memory d"
  shows "manifest_describes E d m"
proof -
  let ?X = "ar_crypto E"
  from assms(4) obtain i where m: "m = (manifest_of ?X parts (artifact_entries d))\<lparr>am_bundle_id := i\<rparr>"
    and i: "compute_bundle_id E m = Inr i"
    and c: "canonical_json_bytes (ar_json E) (manifest_to_json m) = Inr (da_manifest d)"
    by (auto simp: built_def)
  from i obtain h where "i = to_hex h" by (auto simp: compute_bundle_id_def result_iff sha256_hex_def)
  then have ui: "utf8_valid i" by simp
  have "\<forall>pc \<in> set (artifact_entries d). utf8_valid (fst pc)"
    using entry_names_safe
    by (auto simp: artifact_entries_def safe_name_def split: option.splits)
  from printable_manifest [OF assms(2) this ui] have p: "printable (manifest_to_json m)" unfolding m .
  have "\<forall>pc \<in> set (artifact_entries d). length (snd pc) < 2 ^ 63"
    using assms(5) by (fastforce simp: in_memory_def archive_entries_def)
  from artifacts_match [OF this, of ?X]
  have "list_all2 (artifact_matches ?X) (am_artifacts m) (artifact_entries d)" by (simp add: m manifest_of_def)
  moreover have "manifest_ok (ce_cedar (ar_compile E)) m" unfolding m by (rule manifest_of_ok [OF assms(3)])
  moreover have "am_bundle_id m = i" by (simp add: m)
  ultimately show ?thesis
    using parse_json_canonical [where d = decode_manifest, OF assms(1) p c] decode_manifest_sorted i
    by (simp add: manifest_describes_def)
qed

text \<open>Its contents are the parts, with the schema in its canonical form.\<close>

lemma built_contents:
  assumes docs: "json_documented (ar_json E)" "core_documented (le_core (ce_labels (ar_compile E)))"
    and p: "utf8_valid (bp_policies parts)" "printable (labels_document E parts)"
      "\<And>S. bp_schema_json parts = Some S \<Longrightarrow> printable S"
    and l: "label_set_ok (ce_labels (ar_compile E)) (bp_labels parts)"
    and b: "built E parts key d m"
    and v: "validate_archive_parts (ar_compile E) (bp_name parts) (bp_modules parts) (bp_policies parts)
      (map_option sort_json (bp_schema_json parts)) (bp_labels parts) (bp_policy_ids parts) = Inr parts'"
  shows "contents_accepted E d m parts'"
proof -
  have m: "am_name m = bp_name parts" "am_modules m = bp_modules parts" "am_policy_ids m = bp_policy_ids parts"
    using b by (auto simp: built_def manifest_of_def)
  have lb: "canonical_json_bytes (ar_json E) (labels_document E parts) = Inr (da_labels d)"
    using b by (simp add: built_def)
  have labels: "from_json_str (ce_labels (ar_compile E)) (da_labels d) = Inr (bp_labels parts)"
    using label_set_round_trip [OF docs(1,2) p(2) lb l] .
  have schema: "transpose (map_option (parse_json (ar_json E) ''Value'' decode_value SCHEMA_PATH) (da_schema d)) =
      Inr (map_option sort_json (bp_schema_json parts))"
  proof (cases "bp_schema_json parts")
    case None
    with b show ?thesis by (auto simp: built_def)
  next
    case (Some S)
    with b obtain sb where sb: "canonical_json_bytes (ar_json E) S = Inr sb" "da_schema d = Some sb"
      by (auto simp: built_def result_iff)
    have "collapse (sort_json S) = sort_json S"
      by (intro collapse_id json_wf_if_keys_sorted keys_sorted_sort_json)
    then have "parse_json (ar_json E) ''Value'' decode_value SCHEMA_PATH sb = Inr (sort_json S)"
      using parse_json_canonical [OF docs(1) p(3) [OF Some] sb(1), of decode_value] by simp
    with sb Some show ?thesis by simp
  qed
  have "utf8_valid (da_labels d)" by (rule canonical_read_back(2) [OF docs(1) p(2) lb])
  with p(1) labels schema v b m show ?thesis
    unfolding contents_accepted_def by (auto simp: built_def)
qed

end
