(* ===== verification/Archive_Validate.thy ===== *)
theory Archive_Validate
  imports Archive_Round_Trip
begin

text \<open>
  \<open>validate\<close>, \<open>build\<close> and \<open>resign\<close> of \<open>src/archive.rs\<close> as a whole.  \<open>archive_accepted\<close> is what an
  accepted archive satisfies; a bundle that is compiled, built and validated comes back, and
  re-signing an archive changes nothing but its signature.
\<close>

section \<open>What is accepted\<close>

definition bundle_of ::
  "crypto \<Rightarrow> bytes \<Rightarrow> archive_manifest \<Rightarrow> verified_signature \<Rightarrow> bundle_parts \<Rightarrow> validated_bundle" where
  "bundle_of X bytes m vs parts =
     \<lparr>vb_format_version = am_format_version m, vb_bundle_id = am_bundle_id m, vb_name = bp_name parts,
      vb_modules = bp_modules parts, vb_policies = bp_policies parts, vb_schema_json = bp_schema_json parts,
      vb_labels = bp_labels parts, vb_policy_ids = bp_policy_ids parts,
      vb_diagnostics = bp_diagnostics parts, vb_archive_sha256 = sha256_hex X bytes,
      vb_compressed_size = length bytes, vb_signature = vs\<rparr>"

definition archive_accepted ::
  "archive_env \<Rightarrow> bytes \<Rightarrow> signature_policy \<Rightarrow> trust_store \<Rightarrow> archive_limits \<Rightarrow> bool \<Rightarrow> validated_bundle \<Rightarrow> bool" where
  "archive_accepted E bytes policy store limits v vb \<longleftrightarrow>
     (\<exists>d m vs parts. decoded_from (ar_codec E) bytes limits d \<and> signature_accepted E d policy store v vs \<and>
        manifest_describes E d m \<and> contents_accepted E d m parts \<and>
        vb = bundle_of (ar_crypto E) bytes m vs parts)"

lemma validate_inner_Inr_iff:
  "validate_inner E bytes policy store limits v = Inr vb \<longleftrightarrow>
     archive_accepted E bytes policy store limits v vb"
  unfolding validate_inner_def and_then_Inr decode_archive_Inr_iff archive_accepted_def split_paired_Ex
    prod.case validate_decoded_Inr_iff bundle_of_def sum.inject
  by blast

lemma validate_Inr_iff:
  "validate E bytes policy store limits = Inr vb \<longleftrightarrow> archive_accepted E bytes policy store limits True vb"
  by (simp add: validate_def validate_inner_Inr_iff)

text \<open>The contents of a bundle: everything but how it was packed and signed.\<close>

definition same_contents :: "validated_bundle \<Rightarrow> validated_bundle \<Rightarrow> bool" where
  "same_contents a b \<longleftrightarrow>
     a\<lparr>vb_archive_sha256 := vb_archive_sha256 b, vb_compressed_size := vb_compressed_size b,
       vb_signature := vb_signature b\<rparr> = b"

section \<open>A compiled bundle describes itself\<close>

lemma compiled_labels_ok:
  assumes "core_documented (le_core (ce_labels E))" "bundle_compiled E b outs parts"
  shows "label_set_ok (ce_labels E) (bp_labels parts)"
proof -
  have l2: "list_all2 (module_compiled E) (bun_modules b) outs"
    and c: "combine (concat (map (\<lambda>(_, _, Ls). Ls) outs)) = Inr (bp_labels parts)"
    using assms(2) by (simp_all add: bundle_compiled_def)
  have "label_set_ok (ce_labels E) L" if "L \<in> set (concat (map (\<lambda>(_, _, Ls). Ls) outs))" for L
  proof -
    from that obtain rc Fs Ls where o: "(rc, Fs, Ls) \<in> set outs" "L \<in> set Ls" by auto
    from list_all2_right [OF l2 o(1)] obtain sel where "module_compiled E sel (rc, Fs, Ls)" by blast
    then have "list_all2 (label_source E (ms_manifest sel)) (mm_labels (ms_manifest sel)) Ls"
      by (simp add: module_compiled_def Let_def)
    from list_all2_right [OF this o(2)] obtain path where "label_source E (ms_manifest sel) path L" by blast
    with from_json_str_label_set_ok [OF assms(1)] show ?thesis by (auto simp: label_source_def)
  qed
  with combine_label_set_ok c show ?thesis by blast
qed

lemma compiled_records:
  assumes "list_all2 (module_compiled E) sels outs"
  shows "list_all2 (\<lambda>sel r. mr_name r = ms_name sel \<and> mr_namespace r = ms_namespace sel \<and>
    mr_imports r = mm_imports (ms_manifest sel)) sels (map fst outs)"
  using assms
  by (induction rule: list_all2_induct) (auto simp: module_compiled_def Let_def record_of_def)

lemma list_all2_map_eq: "list_all2 P xs ys \<Longrightarrow> (\<And>x y. P x y \<Longrightarrow> f x = g y) \<Longrightarrow> map f xs = map g ys"
  by (induction rule: list_all2_induct) auto

text \<open>The modules that the build selects give parts whose manifest is accepted.\<close>

lemma compiled_parts_ok:
  assumes b: "bundle_ok S b" "se_cedar S = ce_cedar E" and c: "bundle_compiled E b outs parts"
  shows "parts_ok (ce_cedar E) parts"
proof -
  have c': "list_all2 (module_compiled E) (bun_modules b) outs" "bp_modules parts = map fst outs"
    "bp_name parts = bun_name b" "distinct (concat (map mr_policy_ids (bp_modules parts)))"
    "set (bp_policy_ids parts) = set (concat (map mr_policy_ids (bp_modules parts)))"
    "sorted_wrt (<) (bp_policy_ids parts)" using c unfolding bundle_compiled_def by blast+
  note r = compiled_records [OF c'(1), folded c'(2)]
  have names: "map mr_name (bp_modules parts) = map ms_name (bun_modules b)"
    "map mr_namespace (bp_modules parts) = map ms_namespace (bun_modules b)"
    using list_all2_map_eq [OF r, of ms_name mr_name] list_all2_map_eq [OF r, of ms_namespace mr_namespace]
    by simp_all
  have sel: "mr_namespace ` set (bp_modules parts) = ms_namespace ` set (bun_modules b)"
    using names(2) by (metis list.set_map)
  have rec: "module_record_ok (ce_cedar E) (mr_namespace ` set (bp_modules parts)) x"
    if "x \<in> set (bp_modules parts)" for x
  proof -
    from list_all2_right [OF r that] obtain m where m: "m \<in> set (bun_modules b)" "mr_name x = ms_name m"
      "mr_namespace x = ms_namespace m" "mr_imports x = mm_imports (ms_manifest m)"
      by blast
    with b show ?thesis
      unfolding module_record_ok_def sel by (auto simp: bundle_ok_def module_ok_def module_set_ok_def)
  qed
  have "bp_modules parts \<noteq> []" using names(1) b(1) by (auto simp: bundle_ok_def)
  with rec names c' b(1) show ?thesis by (simp add: parts_ok_def bundle_ok_def module_set_ok_def)
qed

section \<open>Build and validate\<close>

definition libraries_documented :: "archive_env \<Rightarrow> bool" where
  "libraries_documented E \<longleftrightarrow>
     json_documented (ar_json E) \<and> le_json (ce_labels (ar_compile E)) = ar_json E \<and>
     core_documented (le_core (ce_labels (ar_compile E))) \<and> crypto_documented (ar_crypto E) \<and>
     base64_text (ar_crypto E) \<and> codec_documented (ar_codec E)"

text \<open>The strings and documents of the parts are printable, and they pass the checks on an archive.\<close>

definition parts_valid :: "archive_env \<Rightarrow> bundle_parts \<Rightarrow> bool" where
  "parts_valid E parts \<longleftrightarrow>
     parts_utf8 parts \<and> printable (labels_document E parts) \<and>
     (\<forall>S. bp_schema_json parts = Some S \<longrightarrow> printable S) \<and>
     parts_ok (ce_cedar (ar_compile E)) parts \<and> label_set_ok (ce_labels (ar_compile E)) (bp_labels parts) \<and>
     (\<exists>ps. cd_parse_policies (ce_cedar (ar_compile E)) (bp_policies parts) = Inr ps \<and>
        archive_parts_ok (ar_compile E) (bp_modules parts) ps (map_option sort_json (bp_schema_json parts))
          (bp_labels parts) (bp_policy_ids parts))"

definition within_limits :: "codec \<Rightarrow> bytes \<Rightarrow> archive_limits \<Rightarrow> bool" where
  "within_limits K b limits \<longleftrightarrow>
     length b \<le> unat (al_max_compressed_bytes limits) \<and>
     length (gz_output (cx_gunzip K b)) \<le> unat (al_max_uncompressed_bytes limits) \<and>
     unat (al_max_uncompressed_bytes limits) < 2 ^ 64 - 1"

text \<open>The verifier trusts the signer, if there is one; with none, it does not ask for a signature.\<close>

definition signer_trusted :: "crypto \<Rightarrow> signature_policy \<Rightarrow> trust_store \<Rightarrow> bytes option \<Rightarrow> bool" where
  "signer_trusted X policy store key \<longleftrightarrow>
     (case key of None \<Rightarrow> policy \<noteq> Required
      | Some k \<Rightarrow> trust_ok X store \<and>
          trusted_bytes store (key_id X (cr_verifying_key X k)) = Some (cr_verifying_key X k))"

definition signed_by :: "crypto \<Rightarrow> bytes option \<Rightarrow> verified_signature" where
  "signed_by X key =
     (case key of None \<Rightarrow> \<lparr>vs_signed = False, vs_key_id = None\<rparr>
      | Some k \<Rightarrow> \<lparr>vs_signed = True, vs_key_id = Some (key_id X (cr_verifying_key X k))\<rparr>)"

lemma encode_in_memory:
  assumes "codec_documented K"
    and "encode_archive K (da_manifest d) (da_signature d) (artifact_entries d) = Inr b"
  shows "in_memory d"
proof -
  have "length c < 2 ^ 63" if "(p, c) \<in> set (archive_entries d)" for p c
  proof -
    have "cx_tar_append_error K (member_of (p, c)) = None"
      using assms(2) that unfolding encode_archive_Inr_iff by blast
    with assms(1) show ?thesis by (simp add: codec_documented_def member_of_def)
  qed
  then show ?thesis by (auto simp: in_memory_def)
qed

lemma encode_decoded_from:
  assumes "codec_documented K"
    and "encode_archive K (da_manifest d) (da_signature d) (artifact_entries d) = Inr b"
    and "within_limits K b limits"
  shows "decoded_from K b limits d"
  using decode_encode_archive [OF assms(1) encode_in_memory [OF assms(1,2)] assms(2), of limits] assms(3)
  by (simp add: within_limits_def decode_archive_Inr_iff)

lemma signed_document_accepted:
  assumes "libraries_documented E" "signer_trusted (ar_crypto E) policy store key"
    and "transpose (map_option (\<lambda>k. signature_document E k (da_manifest d)) key) = Inr (da_signature d)"
  shows "signature_accepted E d policy store True (signed_by (ar_crypto E) key)"
proof (cases key)
  case None
  with assms show ?thesis by (simp add: signature_accepted_def signer_trusted_def signed_by_def)
next
  case (Some k)
  with assms(3) obtain s where s: "signature_document E k (da_manifest d) = Inr s" "da_signature d = Some s"
    by (auto simp: result_iff)
  have l: "json_documented (ar_json E)" "crypto_documented (ar_crypto E)" "base64_text (ar_crypto E)"
    using assms(1) by (simp_all add: libraries_documented_def)
  from Some assms(2) have t: "trust_ok (ar_crypto E) store"
    "trusted_bytes store (key_id (ar_crypto E) (cr_verifying_key (ar_crypto E) k)) =
       Some (cr_verifying_key (ar_crypto E) k)"
    by (simp_all add: signer_trusted_def)
  show ?thesis
    using signature_document_parsed [OF l s(1)] sign_verify [OF l(2) t, of "da_manifest d"] s(2) Some
    by (auto simp: signature_accepted_def signed_by_def)
qed

lemma build_accepted:
  assumes lib: "libraries_documented E" and v: "parts_valid E parts"
    and b: "build E parts key = Inr b" and lim: "within_limits (ar_codec E) b limits"
    and t: "signer_trusted (ar_crypto E) policy store key"
  shows "\<exists>vb. validate E b policy store limits = Inr vb \<and>
    vb_name vb = bp_name parts \<and> vb_modules vb = bp_modules parts \<and> vb_policies vb = bp_policies parts \<and>
    vb_schema_json vb = map_option sort_json (bp_schema_json parts) \<and> vb_labels vb = bp_labels parts \<and>
    vb_policy_ids vb = bp_policy_ids parts \<and> vb_signature vb = signed_by (ar_crypto E) key"
proof -
  let ?C = "ar_compile E"
  from build_Inr [OF b] obtain d m where d: "built E parts key d m"
    and enc: "encode_archive (ar_codec E) (da_manifest d) (da_signature d) (artifact_entries d) = Inr b"
    by blast
  have codec: "codec_documented (ar_codec E)" using lib by (simp add: libraries_documented_def)
  note l = lib [unfolded libraries_documented_def] and pv = v [unfolded parts_valid_def]
  obtain ps where ps: "cd_parse_policies (ce_cedar ?C) (bp_policies parts) = Inr ps"
    "archive_parts_ok ?C (bp_modules parts) ps (map_option sort_json (bp_schema_json parts)) (bp_labels parts)
       (bp_policy_ids parts)" using pv by blast
  from validate_archive_parts_eq [OF ps(1), of "bp_modules parts" "map_option sort_json (bp_schema_json parts)"
      "bp_labels parts" "bp_policy_ids parts" "bp_name parts"] ps(2)
  obtain parts' where p': "validate_archive_parts ?C (bp_name parts) (bp_modules parts) (bp_policies parts)
      (map_option sort_json (bp_schema_json parts)) (bp_labels parts) (bp_policy_ids parts) = Inr parts'"
    by auto
  from validate_archive_parts_Inr(2) [OF p'] have f: "bp_name parts' = bp_name parts"
    "bp_modules parts' = bp_modules parts" "bp_policies parts' = bp_policies parts"
    "bp_schema_json parts' = map_option sort_json (bp_schema_json parts)" "bp_labels parts' = bp_labels parts"
    "bp_policy_ids parts' = bs_collect (bp_policy_ids parts)" by simp_all
  have "bs_collect (bp_policy_ids parts) = bp_policy_ids parts"
    using pv by (intro bs_collect_sorted) (simp add: parts_ok_def)
  moreover have "manifest_describes E d m"
    using l pv d encode_in_memory [OF codec enc] by (intro built_describes [of E parts key]) simp_all
  moreover have "contents_accepted E d m parts'"
    using l pv d p' by (intro built_contents [of E parts key]) (simp_all add: parts_utf8_def)
  moreover have "signature_accepted E d policy store True (signed_by (ar_crypto E) key)"
    using d by (intro signed_document_accepted [OF lib t]) (simp add: built_def)
  ultimately have "validate E b policy store limits =
      Inr (bundle_of (ar_crypto E) b m (signed_by (ar_crypto E) key) parts')"
    using encode_decoded_from [OF codec enc lim] unfolding validate_Inr_iff archive_accepted_def by blast
  with f \<open>bs_collect (bp_policy_ids parts) = bp_policy_ids parts\<close> show ?thesis by (simp add: bundle_of_def)
qed

section \<open>Re-signing\<close>

lemma manifest_describes_signature [simp]:
  "manifest_describes E (d\<lparr>da_signature := s\<rparr>) m = manifest_describes E d m"
  by (simp add: manifest_describes_def artifact_entries_def)

lemma contents_accepted_signature [simp]:
  "contents_accepted E (d\<lparr>da_signature := s\<rparr>) m parts = contents_accepted E d m parts"
  by (simp add: contents_accepted_def)

lemma contents_unique:
  "manifest_describes E d m \<Longrightarrow> manifest_describes E d m' \<Longrightarrow> m = m'"
  "contents_accepted E d m parts \<Longrightarrow> contents_accepted E d m parts' \<Longrightarrow> parts = parts'"
  by (auto simp: manifest_describes_def contents_accepted_def)

lemma decoded_unique: "decoded_from K b limits d \<Longrightarrow> decoded_from K b limits d' \<Longrightarrow> d = d'"
  by (simp add: decode_archive_Inr_iff [symmetric])

lemma resign_accepted:
  assumes lib: "libraries_documented E" and r: "resign E b key limits = Inr b'"
    and lim: "within_limits (ar_codec E) b' limits'"
    and t: "signer_trusted (ar_crypto E) policy store (Some key)"
  shows "\<exists>vb vb'. validate_inner E b AllowUnsigned [] limits False = Inr vb \<and>
    validate E b' policy store limits' = Inr vb' \<and> same_contents vb vb' \<and>
    vb_signature vb' = signed_by (ar_crypto E) (Some key)"
proof -
  have codec: "codec_documented (ar_codec E)" using lib by (simp add: libraries_documented_def)
  from r obtain d m vs parts sig where d: "decoded_from (ar_codec E) b limits d"
    and v: "signature_accepted E d AllowUnsigned [] False vs" "manifest_describes E d m"
      "contents_accepted E d m parts"
    and s: "signature_document E key (da_manifest d) = Inr sig"
    and enc: "encode_archive (ar_codec E) (da_manifest d) (Some sig) (artifact_entries d) = Inr b'"
    unfolding resign_def and_then_Inr decode_archive_Inr_iff split_paired_Ex validate_decoded_Inr_iff
    by blast
  let ?d = "d\<lparr>da_signature := Some sig\<rparr>"
  have "encode_archive (ar_codec E) (da_manifest ?d) (da_signature ?d) (artifact_entries ?d) = Inr b'"
    using enc by (simp add: artifact_entries_def)
  from encode_decoded_from [OF codec this lim] have d': "decoded_from (ar_codec E) b' limits' ?d" .
  have "signature_accepted E ?d policy store True (signed_by (ar_crypto E) (Some key))"
    using s by (intro signed_document_accepted [OF lib t]) simp
  with d' v(2,3) have "validate E b' policy store limits' =
      Inr (bundle_of (ar_crypto E) b' m (signed_by (ar_crypto E) (Some key)) parts)"
    unfolding validate_Inr_iff archive_accepted_def
    by (intro exI [of _ ?d] exI [of _ m] exI [of _ parts] exI conjI) (auto simp: bundle_of_def)
  moreover from d v have "validate_inner E b AllowUnsigned [] limits False =
      Inr (bundle_of (ar_crypto E) b m vs parts)"
    unfolding validate_inner_Inr_iff archive_accepted_def by blast
  ultimately show ?thesis by (auto simp: same_contents_def bundle_of_def)
qed

text \<open>
  A signature covers the contents through the hashes of the manifest: two accepted archives with the
  same manifest bytes carry the same artifacts, when none collides with the one in its place.
\<close>

definition no_collision :: "crypto \<Rightarrow> decoded_archive \<Rightarrow> decoded_archive \<Rightarrow> bool" where
  "no_collision X d d' \<longleftrightarrow>
     (\<forall>a \<in> set (artifact_entries d). \<forall>b \<in> set (artifact_entries d').
        fst a = fst b \<longrightarrow> sha256_hex X (snd a) = sha256_hex X (snd b) \<longrightarrow> snd a = snd b)"

lemma artifact_entries_inject:
  "artifact_entries d = artifact_entries d' \<Longrightarrow>
     da_policies d = da_policies d' \<and> da_schema d = da_schema d' \<and> da_labels d = da_labels d'"
  by (auto simp: artifact_entries_def split: option.splits)

lemma manifest_covers_contents:
  assumes "manifest_describes E d m" "manifest_describes E d' m'" "da_manifest d = da_manifest d'"
    and "no_collision (ar_crypto E) d d'"
  shows "m = m' \<and> artifact_entries d = artifact_entries d'"
proof -
  have m: "m = m'" using assms(1-3) by (simp add: manifest_describes_def)
  let ?P = "artifact_matches (ar_crypto E)"
  have l: "list_all2 ?P (am_artifacts m) (artifact_entries d)" "list_all2 ?P (am_artifacts m) (artifact_entries d')"
    using assms(1,2) m by (simp_all add: manifest_describes_def)
  have len: "length (artifact_entries d) = length (artifact_entries d')"
    using l by (metis list_all2_lengthD)
  have "artifact_entries d ! i = artifact_entries d' ! i" if "i < length (artifact_entries d)" for i
  proof (rule prod_eqI)
    have p: "?P (am_artifacts m ! i) (artifact_entries d ! i)" "?P (am_artifacts m ! i) (artifact_entries d' ! i)"
      using l that len by (simp_all add: list_all2_conv_all_nth)
    then show "fst (artifact_entries d ! i) = fst (artifact_entries d' ! i)" by (simp add: artifact_matches_def)
    moreover have "sha256_hex (ar_crypto E) (snd (artifact_entries d ! i)) =
        sha256_hex (ar_crypto E) (snd (artifact_entries d' ! i))" using p by (simp add: artifact_matches_def)
    ultimately show "snd (artifact_entries d ! i) = snd (artifact_entries d' ! i)"
      using assms(4) that len unfolding no_collision_def by (metis nth_mem)
  qed
  with len m show ?thesis by (simp add: nth_equalityI)
qed

text \<open>Two accepted archives with one manifest.\<close>

lemma pinned_contents:
  assumes v: "validate E b policy store limits = Inr vb" "validate E b' policy' store' limits' = Inr vb'"
    and d: "decode_archive (ar_codec E) b limits = Inr d" "decode_archive (ar_codec E) b' limits' = Inr d'"
    and same: "da_manifest d = da_manifest d'" "no_collision (ar_crypto E) d d'"
  shows "artifact_entries d = artifact_entries d' \<and> same_contents vb vb'"
proof -
  from v(1) d(1) obtain m vs parts where 1: "manifest_describes E d m" "contents_accepted E d m parts"
    "vb = bundle_of (ar_crypto E) b m vs parts"
    by (auto simp: validate_Inr_iff archive_accepted_def simp flip: decode_archive_Inr_iff)
  from v(2) d(2) obtain m' vs' parts' where 2: "manifest_describes E d' m'" "contents_accepted E d' m' parts'"
    "vb' = bundle_of (ar_crypto E) b' m' vs' parts'"
    by (auto simp: validate_Inr_iff archive_accepted_def simp flip: decode_archive_Inr_iff)
  from manifest_covers_contents [OF 1(1) 2(1) same] have eq: "m = m'" "artifact_entries d = artifact_entries d'" by simp_all
  from artifact_entries_inject [OF eq(2)] have "contents_accepted E d' m parts"
    using 1(2) by (simp add: contents_accepted_def)
  with 2(2) eq(1) have "parts = parts'" using contents_unique(2) by blast
  with 1(3) 2(3) eq show ?thesis by (simp add: same_contents_def bundle_of_def)
qed

end
