(* ===== verification/Compiled_Archive.thy ===== *)
theory Compiled_Archive
  imports Compile_Correct
begin

text \<open>
  What compilation accepts, the validation of an archive accepts again.  The archive holds one text
  for all policy files and the schema with sorted members; \<open>cedar_documented\<close> says what Cedar
  documents of such texts and values.  From it, and from what compilation checked file by file,
  follows every check of \<open>validate_archive_parts\<close> on the compiled parts.
\<close>

section \<open>Policy sets\<close>

text \<open>What is in a policy set, up to the identifiers and the order that Cedar gives the policies.\<close>

definition policy_content :: "policy \<Rightarrow> policy" where
  "policy_content p = p\<lparr>p_id := []\<rparr>"

definition policies_in :: "policy list \<Rightarrow> policy multiset" where
  "policies_in ps = image_mset policy_content (mset ps)"

abbreviation holds :: "policy_set \<Rightarrow> policy multiset \<Rightarrow> bool" where
  "holds ps P \<equiv> ps_templates ps = 0 \<and> policies_in (ps_policies ps) = P"

text \<open>
  What Cedar documents: a policy set is a sequence of policies, in which a comment extends to the end
  of its line; adding a static policy adds it; a schema does not depend on the order of the members
  of a JSON object; and each policy is validated by itself, whatever its identifier.
\<close>

definition texts_documented :: "cedar \<Rightarrow> bool" where
  "texts_documented C \<longleftrightarrow>
     (\<exists>ps. cd_parse_policies C [] = Inr ps \<and> holds ps {#}) \<and>
     (\<forall>c t ps. CR \<notin> set c \<longrightarrow> LF \<notin> set c \<longrightarrow> cd_parse_policies C t = Inr ps \<longrightarrow> ps_templates ps = 0 \<longrightarrow>
        (\<exists>qs. cd_parse_policies C (''//'' @ c @ LF # t) = Inr qs \<and> holds qs (policies_in (ps_policies ps)))) \<and>
     (\<forall>t u ps qs. cd_parse_policies C (t @ [LF]) = Inr ps \<longrightarrow> cd_parse_policies C u = Inr qs \<longrightarrow>
        ps_templates ps = 0 \<longrightarrow> ps_templates qs = 0 \<longrightarrow>
        (\<exists>rs. cd_parse_policies C (t @ LF # u) = Inr rs \<and>
           holds rs (policies_in (ps_policies ps) + policies_in (ps_policies qs))))"

definition sets_documented :: "cedar \<Rightarrow> bool" where
  "sets_documented C \<longleftrightarrow>
     (\<forall>ps p qs. p_static p \<longrightarrow> cd_add_policy C ps p = Inr qs \<longrightarrow>
        ps_templates qs = ps_templates ps \<and>
        policies_in (ps_policies qs) = add_mset (policy_content p) (policies_in (ps_policies ps)))"

definition schemas_documented :: "cedar \<Rightarrow> bool" where
  "schemas_documented C \<longleftrightarrow>
     (\<forall>i j S. json_wf i \<longrightarrow> json_wf j \<longrightarrow> sort_json i = sort_json j \<longrightarrow> cd_schema_from_json C i = Inr S \<longrightarrow>
        (\<exists>T. cd_schema_from_json C j = Inr T \<and> set (sc_entity_types T) = set (sc_entity_types S) \<and>
           (\<forall>ps qs. holds ps (policies_in (ps_policies qs)) \<longrightarrow> ps_templates qs = 0 \<longrightarrow>
              policy_set_valid T ps \<longleftrightarrow> policy_set_valid S qs)))"

definition cedar_documented :: "cedar \<Rightarrow> bool" where
  "cedar_documented C \<longleftrightarrow> texts_documented C \<and> sets_documented C \<and> schemas_documented C"

lemma policies_in_simps [simp]:
  "policies_in [] = {#}" "policies_in (p # ps) = add_mset (policy_content p) (policies_in ps)"
  "policies_in (ps @ qs) = policies_in ps + policies_in qs"
  by (simp_all add: policies_in_def)

lemma policy_content_select [simp]:
  "p_pst (policy_content p) = p_pst p" "p_static (policy_content p) = p_static p"
  "non_empty_id (policy_content p) = non_empty_id p" "policy_ok m (policy_content p) = policy_ok m p"
  by (simp_all add: policy_content_def non_empty_id_def policy_ok_def)

lemma set_contents: "set_mset (policies_in ps) = policy_content ` set ps"
  by (simp add: policies_in_def)

text \<open>Facts about each policy, and the declared identifiers, depend on the contents only.\<close>

lemma all_contents:
  assumes "\<And>p. Q (policy_content p) = Q p"
  shows "(\<forall>p \<in> set ps. Q p) \<longleftrightarrow> (\<forall>p \<in># policies_in ps. Q p)"
  by (simp add: set_contents assms)

definition content_ids :: "policy multiset \<Rightarrow> string multiset" where
  "content_ids P = image_mset (the \<circ> non_empty_id) (filter_mset (\<lambda>p. non_empty_id p \<noteq> None) P)"

lemma content_ids_plus [simp]: "content_ids {#} = {#}" "content_ids (P + Q) = content_ids P + content_ids Q"
  by (simp_all add: content_ids_def)

lemma mset_declared_ids: "mset (declared_ids ps) = content_ids (policies_in ps)"
  by (induction ps) (auto simp: content_ids_def List.map_filter_simps)

section \<open>The aggregate policy set\<close>

text \<open>The policies of the files of a module.\<close>

definition file_contents :: "compile_env \<Rightarrow> module_manifest \<Rightarrow> string \<Rightarrow> policy multiset" where
  "file_contents E m path =
     (case source_text E m path of
        None \<Rightarrow> {#}
      | Some src \<Rightarrow>
          (case cd_parse_policies (ce_cedar E) (normalize_text src) of
             Inl _ \<Rightarrow> {#} | Inr ps \<Rightarrow> policies_in (ps_policies ps)))"

abbreviation module_contents :: "compile_env \<Rightarrow> module_selection \<Rightarrow> policy multiset" where
  "module_contents E sel \<equiv> sum_list (map (file_contents E (ms_manifest sel)) (mm_policies (ms_manifest sel)))"

lemma file_contents_source: "policy_source E m path ps \<Longrightarrow> file_contents E m path = policies_in (ps_policies ps)"
  by (auto simp: policy_source_def file_contents_def)

text \<open>Unless an error was reported, the aggregate holds the policies of the files so far.\<close>

definition aggregates :: "policy multiset \<Rightarrow> compile_state \<Rightarrow> bool" where
  "aggregates P s \<longleftrightarrow>
     has_error (cs_diagnostics s) \<or> cs_aggregate_valid s \<and> holds (cs_aggregate s) P"

lemma add_to_aggregate_aggregates:
  assumes "sets_documented C" "p_static p" "aggregates P s"
  shows "aggregates (add_mset (policy_content p) P) (add_to_aggregate C p s)"
proof -
  let ?q = "p\<lparr>p_id := aggregate_id (cs_index s)\<rparr>"
  have q: "policy_content ?q = policy_content p" "p_static ?q" using assms(2) by (simp_all add: policy_content_def)
  show ?thesis
  proof (cases "cd_add_policy C (cs_aggregate s) ?q")
    case (Inr ps)
    with assms(1) q have "ps_templates ps = ps_templates (cs_aggregate s)"
      "policies_in (ps_policies ps) = add_mset (policy_content p) (policies_in (ps_policies (cs_aggregate s)))"
      unfolding sets_documented_def by metis+
    with assms(3) Inr show ?thesis by (auto simp: aggregates_def add_to_aggregate_def Let_def)
  qed (simp add: aggregates_def add_to_aggregate_def Let_def)
qed

lemma fold_aggregates:
  "sets_documented C \<Longrightarrow> \<forall>p \<in> set ps. p_static p \<Longrightarrow> aggregates P s \<Longrightarrow>
     aggregates (P + policies_in ps) (fold (add_to_aggregate C) ps s)"
proof (induction ps arbitrary: P s)
  case (Cons p ps)
  then have "aggregates (add_mset (policy_content p) P) (add_to_aggregate C p s)"
    by (simp add: add_to_aggregate_aggregates)
  from Cons.IH [OF Cons.prems(1) _ this] Cons.prems(2) show ?case by simp
qed simp


lemma compile_policy_file_aggregates:
  assumes doc: "sets_documented (ce_cedar E)" and agg: "aggregates P s"
    and step: "compile_policy_file E m rc (ids, s) path = Inr (ids', s')"
  shows "aggregates (P + file_contents E m path) s'"
proof (cases "has_error (cs_diagnostics s')")
  case False
  from step obtain src where src: "source_text E m path = Some src" by (auto simp: result_iff read_utf8_Inr)
  from compile_policy_file_spec [OF step False] obtain ps where ok: "\<not> has_error (cs_diagnostics s)"
    "policy_source E m path ps" "\<not> not_static ps" by blast
  then have ps: "cd_parse_policies (ce_cedar E) (normalize_text src) = Inr ps" using src by (auto simp: policy_source_def)
  have static: "\<forall>p \<in> set (ps_policies ps). p_static p" "filter p_static (ps_policies ps) = ps_policies ps"
    using ok(3) by (auto simp: not_static_def list_ex_iff)
  obtain mids all ds where
    v: "validate_module_policies ps rc path (ids, cs_policy_ids s, cs_diagnostics s) = (mids, all, ds)"
    by (metis prod_cases3)
  have "aggregates P (s\<lparr>cs_policy_ids := all, cs_diagnostics := ds\<rparr>)"
    using agg ok(1) by (simp add: aggregates_def)
  from fold_aggregates [OF doc static(1) this]
  show ?thesis
    using step src ps v
    by (auto simp: result_iff read_utf8_Inr Let_def aggregates_def static(2) file_contents_source [OF ok(2)]
        simp del: validate_module_policies.simps)
qed (simp add: aggregates_def)

lemma policy_files_aggregate:
  "try_fold (compile_policy_file E m rc) (ids, s) paths = Inr (ids', s') \<Longrightarrow> sets_documented (ce_cedar E) \<Longrightarrow>
     aggregates P s \<Longrightarrow> aggregates (P + sum_list (map (file_contents E m) paths)) s'"
proof (induction paths arbitrary: ids s P)
  case (Cons path paths)
  then obtain ids1 s1 where step: "compile_policy_file E m rc (ids, s) path = Inr (ids1, s1)"
    and rest: "try_fold (compile_policy_file E m rc) (ids1, s1) paths = Inr (ids', s')"
    by (auto simp: result_iff simp del: compile_policy_file.simps)
  from Cons.IH [OF rest Cons.prems(2) compile_policy_file_aggregates [OF Cons.prems(2,3) step]]
  show ?case by (simp add: add.assoc)
qed simp

lemma compile_schema_file_aggregates:
  assumes "compile_schema_file E m s path = Inr s'" "aggregates P s"
  shows "aggregates P s'"
proof (cases "has_error (cs_diagnostics s')")
  case False
  with compile_schema_file_spec [OF assms(1) False] assms(2) have "cs_aggregate_valid s \<and> holds (cs_aggregate s) P"
    by (simp add: aggregates_def)
  moreover have "cs_aggregate s' = cs_aggregate s \<and> cs_aggregate_valid s' = cs_aggregate_valid s"
  proof -
    from assms(1) obtain src where src: "source_text E m path = Some src"
      by (auto simp: compile_schema_file_def Let_def result_iff read_utf8_Inr)
    show ?thesis
      by (cases "parse_schema_fragment (ce_cedar E) src")
        (use assms(1) src in \<open>auto simp: compile_schema_file_def Let_def result_iff read_utf8_Inr case_prod_beta\<close>)
  qed
  ultimately show ?thesis by (simp add: aggregates_def)
qed (simp add: aggregates_def)

lemma compile_label_file_aggregates:
  assumes "compile_label_file E m s path = Inr s'" "aggregates P s"
  shows "aggregates P s'"
proof (cases "has_error (cs_diagnostics s')")
  case False
  with compile_label_file_spec [OF assms(1) False] assms(2) have "cs_aggregate_valid s \<and> holds (cs_aggregate s) P"
    by (simp add: aggregates_def)
  moreover have "cs_aggregate s' = cs_aggregate s \<and> cs_aggregate_valid s' = cs_aggregate_valid s"
  proof -
    from assms(1) obtain src where src: "source_text E m path = Some src"
      by (auto simp: compile_label_file_def result_iff read_utf8_Inr)
    show ?thesis
    proof (cases "from_json_str (ce_labels E) src")
      case (Inl e)
      with assms(1) src show ?thesis by (cases e) (auto simp: compile_label_file_def result_iff read_utf8_Inr)
    qed (use assms(1) src in \<open>auto simp: compile_label_file_def result_iff read_utf8_Inr\<close>)
  qed
  ultimately show ?thesis by (simp add: aggregates_def)
qed (simp add: aggregates_def)

lemma compile_module_aggregates:
  assumes "compile_module E s sel = Inr s'" "sets_documented (ce_cedar E)" "aggregates P s"
  shows "aggregates (P + module_contents E sel) s'"
proof -
  let ?m = "ms_manifest sel"
  from assms(1) obtain ids s1 s2 s3 where
    1: "try_fold (compile_policy_file E ?m (record_of sel)) ([], s) (mm_policies ?m) = Inr (ids, s1)"
    and 2: "try_fold (compile_schema_file E ?m) s1 (mm_schemas ?m) = Inr s2"
    and 3: "try_fold (compile_label_file E ?m) s2 (mm_labels ?m) = Inr s3"
    and s': "s' = s3\<lparr>cs_modules := cs_modules s3 @ [(record_of sel)\<lparr>mr_policy_ids := ids\<rparr>]\<rparr>"
    by (auto simp: compile_module_def Let_def result_iff)
  let ?P = "P + module_contents E sel"
  from policy_files_aggregate [OF 1 assms(2,3)] have "aggregates ?P s1" .
  with 2 have "aggregates ?P s2" by (rule try_fold_invariant) (rule compile_schema_file_aggregates)
  with 3 have "aggregates ?P s3" by (rule try_fold_invariant) (rule compile_label_file_aggregates)
  then show ?thesis by (simp add: aggregates_def s')
qed

lemma compile_modules_aggregate:
  "try_fold (compile_module E) s sels = Inr s' \<Longrightarrow> sets_documented (ce_cedar E) \<Longrightarrow> aggregates P s \<Longrightarrow>
     aggregates (P + sum_list (map (module_contents E) sels)) s'"
proof (induction sels arbitrary: s P)
  case (Cons sel sels)
  then obtain s1 where step: "compile_module E s sel = Inr s1"
    and rest: "try_fold (compile_module E) s1 sels = Inr s'" by (auto simp: result_iff)
  from Cons.IH [OF rest Cons.prems(2) compile_module_aggregates [OF step Cons.prems(2,3)]]
  show ?case by (simp add: add.assoc)
qed simp

lemma check_aggregate_valid:
  assumes "check_aggregate E s labels ds = (Some S, ds')" "\<not> has_error ds'" "cs_aggregate_valid s"
  shows "\<exists>schema. cd_schema_from_json (ce_cedar E) S = Inr schema \<and> policy_set_valid schema (cs_aggregate s)"
  using assms
  by (auto simp: check_aggregate_def Let_def validate_policy_set_iff split: if_splits sum.splits)

text \<open>The policies of all files, as one set, are valid against the schema of the bundle.\<close>

lemma compiled_policies_valid:
  assumes "compile_manifest E b = Inr parts" "sets_documented (ce_cedar E)" "bp_schema_json parts = Some S"
  shows "\<exists>schema aggregate. cd_schema_from_json (ce_cedar E) S = Inr schema \<and> policy_set_valid schema aggregate \<and>
    holds aggregate (sum_list (map (module_contents E) (bun_modules b)))"
proof -
  from assms(1) obtain s labels ds where
    s: "try_fold (compile_module E) compile_init (bun_modules b) = Inr s"
    and l: "combine_labels s = Inr (labels, ds)"
    by (auto simp: compile_manifest_def result_iff)
  obtain sj ds' where a: "check_aggregate E s labels ds = (sj, ds')" by fastforce
  with assms(1,3) s l have ok: "\<not> has_error ds'" "sj = Some S"
    by (auto simp: compile_manifest_def split: if_splits)
  from check_aggregate_spec [OF a ok(1)] have "\<not> has_error ds" by simp
  with l have "\<not> has_error (cs_diagnostics s)" by (auto simp: combine_labels_def split: sum.splits bundle_error.splits)
  moreover have "aggregates {#} compile_init" by (simp add: aggregates_def compile_init_def)
  ultimately have "cs_aggregate_valid s" "holds (cs_aggregate s) (sum_list (map (module_contents E) (bun_modules b)))"
    using compile_modules_aggregate [OF s assms(2), of "{#}"] by (auto simp: aggregates_def)
  with check_aggregate_valid [OF a [unfolded ok(2)] ok(1)] show ?thesis by blast
qed

section \<open>The policy text\<close>

lemma policy_section_parses:
  assumes doc: "texts_documented C" and ps: "cd_parse_policies C (normalize_text src) = Inr ps" "ps_templates ps = 0"
    and qs: "cd_parse_policies C t = Inr qs" "ps_templates qs = 0"
  shows "\<exists>rs. cd_parse_policies C ((section_header name path @ normalize_text src) @ t) = Inr rs \<and>
    holds rs (policies_in (ps_policies ps) + policies_in (ps_policies qs))"
proof -
  define x where "x = pop_newlines (replace_cr (replace_crlf src))"
  have n: "normalize_text src = x @ [LF]" by (simp add: normalize_text_def x_def)
  with doc ps qs obtain rs where rs: "cd_parse_policies C (normalize_text src @ t) = Inr rs"
    "holds rs (policies_in (ps_policies ps) + policies_in (ps_policies qs))"
    unfolding texts_documented_def by (metis append.assoc append_Cons append_Nil)
  define c where "c = '' treetop-module: '' @ single_line name @ ''; path: '' @ single_line path"
  have c: "CR \<notin> set c" "LF \<notin> set c"
    using single_line_one_line by (auto simp: c_def)
  have "(section_header name path @ normalize_text src) @ t = ''//'' @ c @ LF # (normalize_text src @ t)"
    by (simp add: section_header_def c_def)
  with doc c rs show ?thesis unfolding texts_documented_def by metis
qed

lemma policy_sections_parse:
  assumes doc: "texts_documented (ce_cedar E)"
    and t: "cd_parse_policies (ce_cedar E) t = Inr qs" "holds qs Q"
  shows "list_all2 (policy_source E m) paths pss \<Longrightarrow> \<forall>ps \<in> set pss. ps_templates ps = 0 \<Longrightarrow>
    \<exists>rs. cd_parse_policies (ce_cedar E) (concat (map (policy_section E m) paths) @ t) = Inr rs \<and>
      holds rs (sum_list (map (file_contents E m) paths) + Q)"
proof (induction rule: list_all2_induct)
  case Nil
  with t show ?case by simp
next
  case (Cons path paths ps pss)
  then obtain rs where rs: "cd_parse_policies (ce_cedar E) (concat (map (policy_section E m) paths) @ t) = Inr rs"
    "holds rs (sum_list (map (file_contents E m) paths) + Q)" by auto
  from Cons.hyps(1) obtain src where src: "source_text E m path = Some src"
    "cd_parse_policies (ce_cedar E) (normalize_text src) = Inr ps" by (auto simp: policy_source_def)
  have "ps_templates ps = 0" using Cons.prems by simp
  from policy_section_parses [OF doc src(2) this rs(1), of "mm_name m" path] rs(2) src(1)
    file_contents_source [OF Cons.hyps(1)]
  show ?case by (auto simp: policy_section_def [of E m path] add.assoc)
qed

lemma module_texts_parse:
  assumes doc: "texts_documented (ce_cedar E)"
  shows "list_all2 (module_compiled E) sels outs \<Longrightarrow>
    \<exists>rs. cd_parse_policies (ce_cedar E) (concat (map (module_text E) sels)) = Inr rs \<and>
      holds rs (sum_list (map (module_contents E) sels))"
proof (induction rule: list_all2_induct)
  case Nil
  with doc show ?case by (simp add: texts_documented_def)
next
  case (Cons sel sels out outs)
  from Cons.hyps(1) obtain pss where pss: "list_all2 (policy_source E (ms_manifest sel)) (mm_policies (ms_manifest sel)) pss"
    "\<forall>ps \<in> set pss. static_policies (fst out) ps"
    by (auto simp: module_compiled_def Let_def split: prod.splits)
  from Cons.IH obtain rs where "cd_parse_policies (ce_cedar E) (concat (map (module_text E) sels)) = Inr rs"
    "holds rs (sum_list (map (module_contents E) sels))" by blast
  from policy_sections_parse [OF doc this pss(1)] pss(2)
  show ?case by (auto simp: module_text_def [of E sel] static_policies_def not_static_def)
qed

section \<open>A schema with sorted members\<close>

lemma json_get_sort: "json_wf v \<Longrightarrow> json_get (sort_json v) k = map_option sort_json (json_get v k)"
proof (cases v)
  case (JObject m)
  moreover assume "json_wf v"
  ultimately have "distinct (map fst (map (map_prod id sort_json) m))" by simp
  from JObject show ?thesis
    unfolding json_get_def sort_json_Object JObject json.case bm_collect_distinct [OF \<open>distinct _\<close>]
    by (simp add: map_of_map_prod_id del: map_map)
qed (simp_all add: json_get_def sort_json_simps)

lemma json_wf_get: "json_wf v \<Longrightarrow> json_get v k = Some w \<Longrightarrow> json_wf w"
  by (cases v) (auto simp: json_get_def list_all_iff dest!: map_of_SomeD)

lemma as_str_sort: "as_str (sort_json v) = as_str v"
  by (cases v) (simp_all add: as_str_def sort_json_simps)

lemma bind_as_str_sort: "Option.bind (map_option sort_json x) as_str = Option.bind x as_str"
  by (cases x) (simp_all add: as_str_sort)

lemma type_is_sort: "json_wf v \<Longrightarrow> type_is (sort_json v) t = type_is v t"
  by (simp add: type_is_def json_get_sort bind_as_str_sort)

lemma string_type_sort: "json_wf v \<Longrightarrow> is_string_type (sort_json v) = is_string_type v"
  by (simp add: is_string_type_def type_is_sort json_get_sort bind_as_str_sort)

lemma string_set_type_sort: "json_wf v \<Longrightarrow> is_string_set_type (sort_json v) = is_string_set_type v"
  by (auto simp: is_string_set_type_def type_is_sort json_get_sort string_type_sort json_wf_get split: option.split)

lemma common_type_get: "common_type S q = Option.bind (json_get S (fst q)) (\<lambda>ns. Option.bind (json_get ns ''commonTypes'') (\<lambda>types. json_get types (snd q)))"
  by (cases S) (simp_all add: common_type_def json_get_def as_object_def)

lemma json_get_path_sort:
  assumes "json_wf v" "json_get v k = Some w"
  shows "json_get (sort_json v) k = Some (sort_json w)" "json_wf w"
  using assms by (simp_all add: json_get_sort json_wf_get)

lemma common_type_sort:
  "json_wf S \<Longrightarrow> common_type S q = Some v \<Longrightarrow> common_type (sort_json S) q = Some (sort_json v) \<and> json_wf v"
  unfolding common_type_get bind_eq_Some_conv by (meson json_get_path_sort)

lemma record_attributes_sort:
  "record_attributes S namespace shape visited = Some m \<Longrightarrow> json_wf S \<Longrightarrow> json_wf shape \<Longrightarrow>
     \<exists>m'. record_attributes (sort_json S) namespace (sort_json shape) visited = Some m' \<and>
       JObject m' = sort_json (JObject m) \<and> json_wf (JObject m)"
proof (induction S namespace shape visited rule: record_attributes.induct)
  case (1 S namespace shape visited)
  note ty = type_is_sort [OF "1.prems"(3)]
  show ?case
  proof (cases "type_is shape ''Record''")
    case True
    with "1.prems"(1) have g: "json_get shape ''attributes'' = Some (JObject m)"
      by (auto simp: record_attributes.simps [of S namespace] bind_eq_Some_conv)
    from json_get_path_sort [OF "1.prems"(3) g]
    show ?thesis by (simp add: record_attributes.simps [of "sort_json S"] ty True sort_json_Object del: map_map)
  next
    case False
    with "1.prems"(1) obtain name common where
      e: "type_is shape ''EntityOrCommon''" "json_get shape ''name'' = Some (JString name)"
      and new: "qualified_name (resolve_name namespace name) \<notin> visited"
      and c: "common_type S (resolve_name namespace name) = Some common"
      and rec: "record_attributes S (fst (resolve_name namespace name)) common
          (insert (qualified_name (resolve_name namespace name)) visited) = Some m"
      by (auto simp: record_attributes.simps [of S namespace] bind_eq_Some_conv hs_insert_def Let_def
          split: if_splits option.splits)
    note c' = common_type_sort [OF "1.prems"(2) c]
    have "\<exists>m'. record_attributes (sort_json S) (fst (resolve_name namespace name)) (sort_json common)
        (insert (qualified_name (resolve_name namespace name)) visited) = Some m' \<and>
        JObject m' = sort_json (JObject m) \<and> json_wf (JObject m)"
      using e new c rec False "1.prems"(2) c' by (intro "1.IH") (auto simp: hs_insert_def)
    then obtain m' where m': "record_attributes (sort_json S) (fst (resolve_name namespace name)) (sort_json common)
        (insert (qualified_name (resolve_name namespace name)) visited) = Some m'"
      "JObject m' = sort_json (JObject m)" "json_wf (JObject m)" by blast
    from json_get_path_sort(1) [OF "1.prems"(3) e(2)] have "json_get (sort_json shape) ''name'' = Some (JString name)"
      by (simp add: sort_json_simps)
    with m' e new c' False show ?thesis
      by (auto simp: record_attributes.simps [of "sort_json S" namespace] ty hs_insert_def Let_def)
  qed
qed

lemma entity_attributes_sort:
  assumes "entity_attributes C S kind = Some m" "json_wf S"
  shows "\<exists>m'. entity_attributes C (sort_json S) kind = Some m' \<and>
    (\<forall>k v. map_of m k = Some v \<longrightarrow> map_of m' k = Some (sort_json v) \<and> json_wf v)"
proof -
  from assms(1) obtain ns base n types d shape where
    a: "cd_parse_name C kind = Some (ns, base)" "json_get S ns = Some n" "json_get n ''entityTypes'' = Some types"
      "json_get types base = Some d" "json_get d ''shape'' = Some shape"
    and r: "record_attributes S ns shape {} = Some m"
    by (auto simp: entity_attributes_def bind_eq_Some_conv)
  note 1 = json_get_path_sort [OF assms(2) a(2)]
  note 2 = json_get_path_sort [OF 1(2) a(3)]
  note 3 = json_get_path_sort [OF 2(2) a(4)]
  note 4 = json_get_path_sort [OF 3(2) a(5)]
  from record_attributes_sort [OF r assms(2) 4(2)] obtain m' where
    m': "record_attributes (sort_json S) ns (sort_json shape) {} = Some m'"
      "JObject m' = sort_json (JObject m)" "json_wf (JObject m)" by blast
  obtain x where x: "sort_json S = JObject x" using 1(1) by (cases "sort_json S") (simp_all add: json_get_def)
  from 1(1) x have "map_of x ns = Some (sort_json n)" by simp
  with x a(1) 2 3 4 m'(1) have "entity_attributes C (sort_json S) kind = Some m'"
    by (simp add: entity_attributes_def)
  moreover have "map_of m' k = Some (sort_json v) \<and> json_wf v" if "map_of m k = Some v" for k v
    using json_get_path_sort [OF m'(3), of k v] that by (simp flip: m'(2))
  ultimately show ?thesis by blast
qed

lemma declared_string_field_sort:
  assumes "declared_string_field C S j r" "json_wf j" "set (sc_entity_types T) = set (sc_entity_types S)"
  shows "declared_string_field C T (sort_json j) r"
proof -
  from assms(1) obtain m v w where "entity_attributes C j (lt_resource_type (lr_target r)) = Some m"
    "map_of m (lr_field r) = Some v" "is_string_type v"
    "map_of m (lt_attribute (lr_target r)) = Some w" "is_string_set_type w"
    "lt_resource_type (lr_target r) \<in> set (sc_entity_types S)"
    by (auto simp: declared_string_field_def)
  with entity_attributes_sort [of C j _ m] assms(2,3) show ?thesis
    by (fastforce simp: declared_string_field_def string_type_sort string_set_type_sort)
qed

lemma declared_namespaces_sort: "json_wf j \<Longrightarrow> declared_namespaces (sort_json j) = declared_namespaces j"
  by (auto simp: declared_namespaces_get json_get_sort)

section \<open>Compiled parts are accepted again\<close>

lemma files_contents:
  "list_all2 (policy_source E m) paths pss \<Longrightarrow>
     sum_list (map (file_contents E m) paths) = policies_in (concat (map ps_policies pss))"
  by (induction rule: list_all2_induct) (auto simp: file_contents_source)

lemma mset_ids_of_sets: "mset (ids_of_sets pss) = content_ids (policies_in (concat (map ps_policies pss)))"
  by (induction pss) (simp_all add: mset_declared_ids)

text \<open>The policies of a compiled module belong to its record.\<close>

lemma module_contents_compiled:
  assumes "module_compiled E sel out"
  shows "content_ids (module_contents E sel) = mset (mr_policy_ids (fst out))"
    and "q \<in># module_contents E sel \<Longrightarrow> p_static q \<and> policy_ok (fst out) q \<and>
      (\<exists>pid \<in> set (mr_policy_ids (fst out)). non_empty_id q = Some pid)"
proof -
  obtain rc Fs Ls where out: "out = (rc, Fs, Ls)" by (cases out)
  from assms obtain pss where
    src: "list_all2 (policy_source E (ms_manifest sel)) (mm_policies (ms_manifest sel)) pss"
    and ok: "\<forall>ps \<in> set pss. static_policies (fst out) ps"
    and ids: "mr_policy_ids (fst out) = ids_of_sets pss"
    unfolding module_compiled_def Let_def out prod.case fst_conv by force
  note eq = files_contents [OF src]
  show "content_ids (module_contents E sel) = mset (mr_policy_ids (fst out))"
    by (simp add: eq ids mset_ids_of_sets)
  assume "q \<in># module_contents E sel"
  then obtain ps p where p: "ps \<in> set pss" "p \<in> set (ps_policies ps)" "q = policy_content p"
    by (auto simp: eq set_contents)
  with ok have "p_static p" "policy_ok (fst out) p" "non_empty_id p \<noteq> None"
    by (auto simp: static_policies_def not_static_def list_ex_iff)
  moreover from \<open>non_empty_id p \<noteq> None\<close> obtain pid where pid: "non_empty_id p = Some pid" by blast
  have "pid \<in> set (declared_ids (ps_policies ps))"
    using p(2) pid by (force simp: List.map_filter_def)
  with p(1) have "pid \<in> set (mr_policy_ids (fst out))" by (auto simp: ids)
  ultimately show "p_static q \<and> policy_ok (fst out) q \<and>
      (\<exists>pid \<in> set (mr_policy_ids (fst out)). non_empty_id q = Some pid)"
    using pid unfolding p(3) policy_content_select by blast
qed

lemma modules_contents_compiled:
  assumes "list_all2 (module_compiled E) sels outs"
  shows "content_ids (sum_list (map (module_contents E) sels)) = mset (concat (map (mr_policy_ids \<circ> fst) outs))"
    and "q \<in># sum_list (map (module_contents E) sels) \<Longrightarrow>
      p_static q \<and> (\<exists>m \<in> fst ` set outs. policy_ok m q \<and> (\<exists>pid \<in> set (mr_policy_ids m). non_empty_id q = Some pid))"
proof -
  show "content_ids (sum_list (map (module_contents E) sels)) = mset (concat (map (mr_policy_ids \<circ> fst) outs))"
    using assms by (induction rule: list_all2_induct) (simp_all add: module_contents_compiled(1))
  assume "q \<in># sum_list (map (module_contents E) sels)"
  then obtain sel where sel: "sel \<in> set sels" "q \<in># module_contents E sel" by auto
  from assms sel(1) obtain out where "out \<in> set outs" "module_compiled E sel out"
    by (meson list_all2_left)
  with module_contents_compiled(2) [OF _ sel(2)]
  show "p_static q \<and> (\<exists>m \<in> fst ` set outs. policy_ok m q \<and> (\<exists>pid \<in> set (mr_policy_ids m). non_empty_id q = Some pid))"
    by blast
qed

text \<open>A declared identifier leads to the record that declares it.\<close>

lemma module_by_policy_lookup:
  assumes "distinct (concat (map mr_policy_ids modules))" "m \<in> set modules" "pid \<in> set (mr_policy_ids m)"
  shows "map_of (module_by_policy modules) pid = Some m"
proof -
  let ?kvs = "concat (map (\<lambda>m. map (\<lambda>pid. (pid, m)) (mr_policy_ids m)) modules)"
  have "map fst ?kvs = concat (map mr_policy_ids modules)"
    by (simp add: map_concat comp_def)
  with assms(1) have d: "distinct (map fst ?kvs)" by simp
  moreover have "(pid, m) \<in> set ?kvs" using assms(2,3) by auto
  ultimately have "map_of ?kvs pid = Some m" by (simp only: map_of_eq_Some_iff)
  then show ?thesis by (simp only: module_by_policy_def bm_collect_distinct [OF d])
qed

lemma compiled_policies_accepted:
  assumes c: "bundle_compiled E b outs parts" and ps: "holds ps (sum_list (map (module_contents E) (bun_modules b)))"
  shows "\<not> not_static ps" "\<forall>p \<in> set (ps_policies ps). archive_policy_ok (bp_modules parts) p"
    "distinct (declared_ids (ps_policies ps))" "set (declared_ids (ps_policies ps)) = set (bp_policy_ids parts)"
proof -
  have c': "list_all2 (module_compiled E) (bun_modules b) outs" "bp_modules parts = map fst outs"
    "distinct (concat (map mr_policy_ids (bp_modules parts)))"
    "set (bp_policy_ids parts) = set (concat (map mr_policy_ids (bp_modules parts)))"
    using c unfolding bundle_compiled_def by blast+
  have ids: "mset (declared_ids (ps_policies ps)) = mset (concat (map mr_policy_ids (bp_modules parts)))"
    using ps modules_contents_compiled(1) [OF c'(1)] by (simp add: mset_declared_ids c'(2))
  then show "distinct (declared_ids (ps_policies ps))" "set (declared_ids (ps_policies ps)) = set (bp_policy_ids parts)"
    using c'(3,4) mset_eq_imp_distinct_iff [OF ids] mset_eq_setD [OF ids] by simp_all
  have each: "p_static p \<and> archive_policy_ok (bp_modules parts) p" if "p \<in> set (ps_policies ps)" for p
  proof -
    from that ps have "policy_content p \<in># sum_list (map (module_contents E) (bun_modules b))"
      by (metis image_eqI set_contents)
    from modules_contents_compiled(2) [OF c'(1) this] obtain m pid where
      "p_static p" "m \<in> set (bp_modules parts)" "policy_ok m p" "pid \<in> set (mr_policy_ids m)" "non_empty_id p = Some pid"
      by (auto simp: c'(2))
    with module_by_policy_lookup [OF c'(3)] show ?thesis by (auto simp: archive_policy_ok_def)
  qed
  then show "\<forall>p \<in> set (ps_policies ps). archive_policy_ok (bp_modules parts) p" by blast
  from each ps show "\<not> not_static ps" by (auto simp: not_static_def list_ex_iff)
qed

lemma compiled_module_owns:
  assumes "module_compiled E sel (rc, Fs, Ls)"
  shows "F \<in> set Fs \<Longrightarrow> ns \<in> declared_namespaces F \<Longrightarrow> namespace_owns (mr_namespace rc) ns"
    and "L \<in> set Ls \<Longrightarrow> r \<in> set L \<Longrightarrow> namespace_owns (mr_namespace rc) (lt_resource_type (lr_target r))"
  using assms by (auto simp: module_compiled_def Let_def record_of_def)

lemma compiled_labels_owned:
  assumes c: "bundle_compiled E b outs parts" and r: "r \<in> set (bp_labels parts)"
  shows "\<exists>m \<in> set (bp_modules parts). namespace_owns (mr_namespace m) (lt_resource_type (lr_target r))"
proof -
  have c': "list_all2 (module_compiled E) (bun_modules b) outs" "bp_modules parts = map fst outs"
    "combine (concat (map (\<lambda>(_, _, Ls). Ls) outs)) = Inr (bp_labels parts)"
    using c unfolding bundle_compiled_def by blast+
  from r c'(3) obtain rc Fs Ls L where out: "(rc, Fs, Ls) \<in> set outs" "L \<in> set Ls" "r \<in> set L"
    by (auto simp: combine_Inr_iff)
  from c'(1) out(1) obtain sel where "module_compiled E sel (rc, Fs, Ls)" by (meson list_all2_right)
  from compiled_module_owns(2) [OF this out(2,3)] out(1) show ?thesis by (force simp: c'(2))
qed

lemma compiled_schema_accepted:
  assumes c: "bundle_compiled E b outs parts" and S: "bp_schema_json parts = Some S" "json_wf S"
    and doc: "schemas_documented (ce_cedar E)"
    and valid: "cd_schema_from_json (ce_cedar E) S = Inr schema" "policy_set_valid schema aggregate"
    and same: "holds ps (policies_in (ps_policies aggregate))" "ps_templates aggregate = 0"
  shows "archive_schema_ok E (bp_modules parts) ps (sort_json S) (bp_labels parts)"
proof -
  have c': "list_all2 (module_compiled E) (bun_modules b) outs" "bp_modules parts = map fst outs"
    "schema_union S (concat (map (\<lambda>(_, Fs, _). Fs) outs))"
    "\<forall>r \<in> set (bp_labels parts). declared_string_field (ce_cedar E) schema S r"
    using c valid(1) unfolding bundle_compiled_def S(1) by auto
  have "\<exists>m \<in> set (bp_modules parts). namespace_owns (mr_namespace m) ns" if ns: "ns \<in> declared_namespaces S" for ns
  proof -
    from ns c'(3) obtain rc Fs Ls F where out: "(rc, Fs, Ls) \<in> set outs" "F \<in> set Fs" "ns \<in> declared_namespaces F"
      by (auto simp: schema_union_def)
    from c'(1) out(1) obtain sel where "module_compiled E sel (rc, Fs, Ls)" by (meson list_all2_right)
    from compiled_module_owns(1) [OF this out(2,3)] out(1) show ?thesis by (force simp: c'(2))
  qed
  moreover have "json_wf (sort_json S)" by (rule json_wf_if_keys_sorted [OF keys_sorted_sort_json])
  with doc S(2) valid(1) obtain T where T: "cd_schema_from_json (ce_cedar E) (sort_json S) = Inr T"
    "set (sc_entity_types T) = set (sc_entity_types schema)"
    "\<And>ps qs. holds ps (policies_in (ps_policies qs)) \<Longrightarrow> ps_templates qs = 0 \<Longrightarrow>
       policy_set_valid T ps \<longleftrightarrow> policy_set_valid schema qs"
    unfolding schemas_documented_def by (metis sort_json_idem)
  moreover have "policy_set_valid T ps" using T(3) [OF same] valid(2) by simp
  ultimately show ?thesis
    using c'(4) declared_string_field_sort [OF _ S(2) T(2)]
    unfolding archive_schema_ok_def declared_namespaces_sort [OF S(2)] by blast
qed

lemma compiled_parts_accepted:
  assumes "compile_manifest E b = Inr parts" "schema_documented E" "cedar_documented (ce_cedar E)"
    and wf: "\<And>S. bp_schema_json parts = Some S \<Longrightarrow> json_wf S"
  shows "\<exists>ps. cd_parse_policies (ce_cedar E) (bp_policies parts) = Inr ps \<and>
    archive_parts_ok E (bp_modules parts) ps (map_option sort_json (bp_schema_json parts))
      (bp_labels parts) (bp_policy_ids parts)"
proof -
  from assms(3) have doc: "texts_documented (ce_cedar E)" "sets_documented (ce_cedar E)" "schemas_documented (ce_cedar E)"
    by (simp_all add: cedar_documented_def)
  from compile_manifest_spec [OF assms(1,2)] obtain outs where c: "bundle_compiled E b outs parts" ..
  then have c': "list_all2 (module_compiled E) (bun_modules b) outs"
    "bp_policies parts = concat (map (module_text E) (bun_modules b))" unfolding bundle_compiled_def by blast+
  from module_texts_parse [OF doc(1) c'(1)] obtain ps where ps: "cd_parse_policies (ce_cedar E) (bp_policies parts) = Inr ps"
    "holds ps (sum_list (map (module_contents E) (bun_modules b)))" unfolding c'(2) by blast
  have "case map_option sort_json (bp_schema_json parts) of None \<Rightarrow> True
    | Some j \<Rightarrow> archive_schema_ok E (bp_modules parts) ps j (bp_labels parts)"
  proof (cases "bp_schema_json parts")
    case (Some S)
    from compiled_policies_valid [OF assms(1) doc(2) Some] ps(2) wf [OF Some] show ?thesis
      using compiled_schema_accepted [OF c Some _ doc(3)] by (auto simp: Some)
  qed simp
  with compiled_policies_accepted [OF c ps(2)] compiled_labels_owned [OF c] have
    "archive_parts_ok E (bp_modules parts) ps (map_option sort_json (bp_schema_json parts))
      (bp_labels parts) (bp_policy_ids parts)"
    unfolding archive_parts_ok_def by blast
  with ps(1) show ?thesis by blast
qed
end
