(* ===== verification/Builder.thy ===== *)
theory Builder
  imports Archive_Validate Compiled_Archive
begin

text \<open>
  \<open>src/builder.rs\<close>: the entry point that checks and builds an organization manifest.  A builder that
  denies warnings refuses what compiles with one; what \<open>build\<close> returns is the archive of parts that
  \<open>check\<close> accepts.
\<close>

record bundle_builder =
  bb_manifest :: bundle_manifest
  bb_deny_warnings :: bool

definition builder_from_manifest :: "compile_env \<Rightarrow> string \<Rightarrow> bundle_error + bundle_builder" where
  "builder_from_manifest E path =
     and_then (bundle_from_path (ce_source E) path) (\<lambda>manifest.
       Inr \<lparr>bb_manifest = manifest, bb_deny_warnings = False\<rparr>)"

definition deny_warnings :: "bundle_builder \<Rightarrow> bool \<Rightarrow> bundle_builder" where
  "deny_warnings b deny = b\<lparr>bb_deny_warnings := deny\<rparr>"

definition builder_check :: "compile_env \<Rightarrow> bundle_builder \<Rightarrow> bundle_error + policy_check" where
  "builder_check E b =
     and_then (compile_manifest E (bb_manifest b)) (\<lambda>parts.
     and_then (ensure (\<not> (bb_deny_warnings b \<and> has_warning (bp_diagnostics parts)))
       (Validation (bp_diagnostics parts))) (\<lambda>_.
       Inr \<lparr>pc_diagnostics = bp_diagnostics parts\<rparr>))"

definition builder_build :: "archive_env \<Rightarrow> bundle_builder \<Rightarrow> bytes option \<Rightarrow> bundle_error + bytes" where
  "builder_build E b signing_key =
     and_then (compile_manifest (ar_compile E) (bb_manifest b)) (\<lambda>parts.
     and_then (ensure (\<not> (bb_deny_warnings b \<and> has_warning (bp_diagnostics parts)))
       (Validation (bp_diagnostics parts))) (\<lambda>_.
       build E parts signing_key))"

section \<open>Checks\<close>

lemma compile_manifest_name:
  assumes "compile_manifest E b = Inr parts"
  shows "bp_name parts = bun_name b \<and> \<not> has_error (bp_diagnostics parts)"
proof -
  from assms obtain s labels ds where "combine_labels s = Inr (labels, ds)"
    "try_fold (compile_module E) compile_init (bun_modules b) = Inr s"
    by (auto simp: compile_manifest_def result_iff)
  with assms show ?thesis
    by (cases "check_aggregate E s labels ds") (auto simp: compile_manifest_def split: if_splits)
qed

lemmas compile_manifest_no_error = compile_manifest_name [THEN conjunct2]

lemma no_error_is_valid:
  "\<not> has_error ds \<Longrightarrow> is_valid \<lparr>pc_diagnostics = ds\<rparr> deny \<longleftrightarrow> \<not> (deny \<and> has_warning ds)"
  by (auto simp: is_valid_def has_error_def has_warning_def list_ex_iff)

text \<open>An accepted bundle is one that compiles to parts whose diagnostics are valid under the setting.\<close>

lemma builder_check_Inr_iff:
  "builder_check E b = Inr c \<longleftrightarrow>
     (\<exists>parts. compile_manifest E (bb_manifest b) = Inr parts \<and> c = \<lparr>pc_diagnostics = bp_diagnostics parts\<rparr> \<and>
        is_valid c (bb_deny_warnings b))"
  by (auto simp: builder_check_def result_iff compile_manifest_no_error no_error_is_valid)

lemma builder_build_Inr_iff:
  "builder_build E b key = Inr a \<longleftrightarrow>
     (\<exists>parts. compile_manifest (ar_compile E) (bb_manifest b) = Inr parts \<and>
        builder_check (ar_compile E) b = Inr \<lparr>pc_diagnostics = bp_diagnostics parts\<rparr> \<and>
        build E parts key = Inr a)"
  by (auto simp: builder_build_def builder_check_def result_iff)

text \<open>How building the archive itself fails: only in a serializer or an encoder.\<close>

definition encoding_failure :: "bundle_error \<Rightarrow> bool" where
  "encoding_failure e \<longleftrightarrow> (\<exists>m. e = Serialization m \<or> e = Archive m)"

lemma canonical_json_bytes_Inl: "canonical_json_bytes J v = Inl e \<Longrightarrow> encoding_failure e"
  by (auto simp: canonical_json_bytes_def result_iff encoding_failure_def map_err_def split: sum.splits)

lemma transpose_Inl: "transpose (map_option f x) = Inl e \<Longrightarrow> \<exists>y. x = Some y \<and> f y = Inl e"
  by (cases x) (auto simp: transpose_def map_ok_def split: sum.splits)

lemma append_tar_file_Inl: "append_tar_file K ms entry = Inl e \<Longrightarrow> encoding_failure e"
  by (cases entry) (auto simp: append_tar_file_def Let_def encoding_failure_def split: option.splits)

lemma encode_archive_Inl:
  assumes "encode_archive K m s es = Inl e"
  shows "encoding_failure e"
proof -
  have fold: "encoding_failure e" if "try_fold (append_tar_file K) ms es = Inl e" for ms
    using try_fold_Inl [OF that] append_tar_file_Inl by blast
  have enc: "encoding_failure e" if "map_err (\<lambda>x. Archive (f x)) r = Inl e" for f :: "string \<Rightarrow> message" and r :: "string + bytes"
    using that by (auto simp: map_err_def encoding_failure_def split: sum.splits)
  show ?thesis
    using assms unfolding encode_archive_def
    by (auto simp: and_then_Inl split: option.splits dest: append_tar_file_Inl fold enc)
qed

lemma build_Inl:
  assumes "build E parts key = Inl e"
  shows "encoding_failure e"
proof -
  have "encoding_failure e" if "compute_bundle_id E m = Inl e" for m
    using that by (auto simp: compute_bundle_id_def map_ok_def split: sum.splits dest: canonical_json_bytes_Inl)
  moreover have "encoding_failure e" if "transpose (map_option (\<lambda>k. signature_document E k m) key) = Inl e" for m
    using transpose_Inl [OF that] by (auto simp: signature_document_def dest: canonical_json_bytes_Inl)
  moreover have "encoding_failure e" if "transpose (map_option (canonical_json_bytes (ar_json E)) s) = Inl e" for s
    using transpose_Inl [OF that] by (auto dest: canonical_json_bytes_Inl)
  ultimately show ?thesis
    using assms unfolding build_def Let_def and_then_Inl
    by (elim disjE exE conjE) (auto dest: canonical_json_bytes_Inl encode_archive_Inl)
qed

section \<open>From the manifest to the validated archive\<close>

text \<open>
  The strings of compiled parts are UTF-8, as those of Rust are, and their JSON documents are ones that
  \<open>serde_json\<close> reads back.
\<close>

definition parts_printable :: "archive_env \<Rightarrow> bundle_parts \<Rightarrow> bool" where
  "parts_printable E parts \<longleftrightarrow>
     parts_utf8 parts \<and> printable (labels_document E parts) \<and>
     (\<forall>S. bp_schema_json parts = Some S \<longrightarrow> printable S)"

lemma compiled_parts_valid:
  assumes "libraries_documented E" "schema_documented (ar_compile E)" "cedar_documented (ce_cedar (ar_compile E))"
    and "builder_from_manifest (ar_compile E) path = Inr b"
    and "compile_manifest (ar_compile E) (bb_manifest b) = Inr parts" "parts_printable E parts"
  shows "parts_valid E parts"
proof -
  from assms(4) have "bundle_from_path (ce_source (ar_compile E)) path = Inr (bb_manifest b)"
    by (auto simp: builder_from_manifest_def result_iff)
  with bundle_from_path_Inr have ok: "bundle_ok (ce_source (ar_compile E)) (bb_manifest b)" by blast
  from compile_manifest_spec [OF assms(5,2)] obtain outs where
    "bundle_compiled (ar_compile E) (bb_manifest b) outs parts" ..
  with compiled_parts_ok [OF ok refl this] compiled_labels_ok [OF _ this] compiled_parts_accepted [OF assms(5,2,3)]
    assms(1,6) show ?thesis
    by (simp add: parts_valid_def parts_printable_def libraries_documented_def printable_def)
qed

lemma manifest_to_archive:
  assumes "libraries_documented E" "schema_documented (ar_compile E)" "cedar_documented (ce_cedar (ar_compile E))"
    and "builder_from_manifest (ar_compile E) path = Inr b"
    and "compile_manifest (ar_compile E) (bb_manifest b) = Inr parts" "parts_printable E parts"
    and "builder_build E (deny_warnings b deny) key = Inr a" "within_limits (ar_codec E) a limits"
    and "signer_trusted (ar_crypto E) policy store key"
  shows "\<exists>vb. validate E a policy store limits = Inr vb \<and> vb_name vb = bun_name (bb_manifest b) \<and>
    vb_modules vb = bp_modules parts \<and> vb_policies vb = bp_policies parts \<and>
    vb_schema_json vb = map_option sort_json (bp_schema_json parts) \<and> vb_labels vb = bp_labels parts \<and>
    vb_policy_ids vb = bp_policy_ids parts \<and> vb_signature vb = signed_by (ar_crypto E) key"
proof -
  from assms(5,7) have "build E parts key = Inr a"
    by (auto simp: builder_build_Inr_iff deny_warnings_def)
  moreover from assms(5) have "bp_name parts = bun_name (bb_manifest b)"
    by (simp add: compile_manifest_name)
  ultimately show ?thesis
    using build_accepted [OF assms(1) compiled_parts_valid [OF assms(1-6)] _ assms(8,9)] by simp
qed

end
