(* ===== verification/Cli.thy ===== *)
theory Cli
  imports Builder
begin

text \<open>
  \<open>cli/src/main.rs\<close>: the \<open>check\<close>, \<open>build\<close> and \<open>sign\<close> commands, and the
  process around them: the argument parser is a parameter, the output streams may refuse a line.

  A command is run in a \<open>cli_env\<close>: the libraries, the file system it opens files on, the environment
  variable and the terminal prompt.  What it does to the outside is the list of its effects, in order:
  lines it prints and files it creates.  A command returns a result or panics.  Printed lines are the
  arguments of the \<open>println!\<close> call, or JSON text.
\<close>

section \<open>Environment, arguments and effects\<close>

datatype env_var = Present string | NotPresent | NotUnicode

text \<open>
  \<open>ci_create\<close> is \<open>OpenOptions::create_new\<close>; \<open>ci_write_all\<close> says how many bytes \<open>write_all\<close> wrote and
  the error that stopped it, if any; \<open>ci_format\<close> is \<open>format!\<close>.
\<close>

record cli_env =
  ci_archive :: archive_env
  ci_open :: opener
  ci_exists :: "string \<Rightarrow> bool"
  ci_create :: "string \<Rightarrow> io_error + unit"
  ci_write_all :: "string \<Rightarrow> bytes \<Rightarrow> nat \<times> io_error option"
  ci_env_password :: env_var
  ci_prompt :: "io_error + string"
  ci_format :: "message \<Rightarrow> string"

abbreviation ci_compile :: "cli_env \<Rightarrow> compile_env" where "ci_compile E \<equiv> ar_compile (ci_archive E)"
abbreviation ci_fs :: "cli_env \<Rightarrow> file_system" where "ci_fs E \<equiv> ce_fs (ci_compile E)"
abbreviation ci_crypto :: "cli_env \<Rightarrow> crypto" where "ci_crypto E \<equiv> ar_crypto (ci_archive E)"
abbreviation ci_json :: "cli_env \<Rightarrow> json_lib" where "ci_json E \<equiv> ar_json (ci_archive E)"

definition SIGNING_KEY_PASSWORD_ENV :: string where
  "SIGNING_KEY_PASSWORD_ENV = ''TREETOP_BUNDLE_SIGNING_KEY_PASSWORD''"

definition MAX_SIGNING_KEY_PASSWORD_BYTES :: nat where
  "MAX_SIGNING_KEY_PASSWORD_BYTES = 64 * 1024"

datatype output_format = Human | Json

datatype signature_policy_arg = Arg_allow_unsigned | Arg_required

definition signature_policy_of :: "signature_policy_arg \<Rightarrow> signature_policy" where
  "signature_policy_of v = (case v of Arg_allow_unsigned \<Rightarrow> AllowUnsigned | Arg_required \<Rightarrow> Required)"

record common_args =
  ca_format :: output_format
  ca_deny_warnings :: bool

datatype check_target =
    Check_policy string "string option" "string option" common_args
  | Check_module string common_args
  | Check_bundle string common_args
  | Check_archive string "string list" signature_policy_arg common_args

record build_args =
  ba_manifest :: string
  ba_output :: string
  ba_signing_key :: "string option"
  ba_password_file :: "string option"
  ba_format :: output_format
  ba_deny_warnings :: bool

record sign_args =
  sa_archive :: string
  sa_signing_key :: string
  sa_password_file :: "string option"
  sa_output :: string

datatype command = Check check_target | Build build_args | Sign sign_args

text \<open>\<open>Cli\<close>, what the command line is parsed to.\<close>

record cli =
  cl_command :: command

datatype cli_effect =
    Stdout message
  | Stdout_json string
  | Stderr message
  | Created string bytes

type_synonym 'a effectful = "cli_effect list \<times> (bundle_error + 'a) outcome"

definition fails :: "bundle_error \<Rightarrow> 'a effectful" where
  "fails e = ([], Value (Inl e))"

definition then_run :: "bundle_error + 'a \<Rightarrow> ('a \<Rightarrow> 'b effectful) \<Rightarrow> 'b effectful" where
  "then_run r f = (case r of Inl e \<Rightarrow> fails e | Inr x \<Rightarrow> f x)"

lemma then_run_simps [simp]: "then_run (Inl e) f = fails e" "then_run (Inr x) f = f x"
  by (simp_all add: then_run_def)

section \<open>Reading\<close>

definition read_string :: "cli_env \<Rightarrow> string \<Rightarrow> bundle_error + string" where
  "read_string E path =
     and_then (map_err (Io path) (fs_read (ci_fs E) path)) (\<lambda>b.
     and_then (ensure (utf8_valid b) (Io path invalid_utf8_error)) (\<lambda>_. Inr b))"

definition configured_signing_key_password ::
  "cli_env \<Rightarrow> string option \<Rightarrow> bundle_error + bytes option" where
  "configured_signing_key_password E password_file =
     (case password_file of
        Some path \<Rightarrow>
          and_then (map_err (Io path) (ci_open E path)) (\<lambda>file.
          and_then (map_err (Io path) (read_take (MAX_SIGNING_KEY_PASSWORD_BYTES + 1) file)) (\<lambda>password.
          and_then (ensure (length password \<le> MAX_SIGNING_KEY_PASSWORD_BYTES)
            (Key [Lit ''signing-key password file '', Disp path, Lit '' exceeds '',
                  Num MAX_SIGNING_KEY_PASSWORD_BYTES, Lit '' bytes''])) (\<lambda>_.
            Inr (Some (trim_line_ending password)))))
      | None \<Rightarrow>
          (case ci_env_password E of
             Present password \<Rightarrow> Inr (Some password)
           | NotPresent \<Rightarrow> Inr None
           | NotUnicode \<Rightarrow>
               Inl (Key [Lit ''environment variable '', Disp SIGNING_KEY_PASSWORD_ENV,
                         Lit '' is not valid UTF-8''])))"

definition load_signing_key :: "cli_env \<Rightarrow> string \<Rightarrow> string option \<Rightarrow> bundle_error + bytes" where
  "load_signing_key E path password_file =
     and_then (configured_signing_key_password E password_file) (\<lambda>configured.
       case configured of
         Some password \<Rightarrow> from_pkcs8_pem_file_with_password (ci_crypto E) (ci_open E) path password
       | None \<Rightarrow>
           (let result = from_pkcs8_pem_file (ci_crypto E) (ci_open E) path
            in if result = Inl SigningKeyPasswordRequired
               then and_then (map_err (\<lambda>e. Key [Lit ''failed to read signing-key password: '',
                                                Disp (fs_io_text (ci_fs E) e)]) (ci_prompt E)) (\<lambda>password.
                    from_pkcs8_encrypted_pem_file (ci_crypto E) (ci_open E) path password)
               else result))"

definition load_trust_store :: "cli_env \<Rightarrow> string list \<Rightarrow> bundle_error + trust_store" where
  "load_trust_store E paths =
     and_then (try_map (from_spki_pem_file (ci_crypto E) (ci_fs E)) paths) from_keys"

definition refuse_overwrite :: "cli_env \<Rightarrow> string \<Rightarrow> bundle_error + unit" where
  "refuse_overwrite E path =
     ensure (\<not> ci_exists E path) (Io path (Io_new AlreadyExists ''refusing to overwrite output''))"

definition write_new_file :: "cli_env \<Rightarrow> string \<Rightarrow> bytes \<Rightarrow> unit effectful" where
  "write_new_file E path contents =
     (case ci_create E path of
        Inl e \<Rightarrow> fails (Io path e)
      | Inr _ \<Rightarrow>
          (case ci_write_all E path contents of
             (n, e) \<Rightarrow>
               ([Created path (take n contents)],
                Value (case e of None \<Rightarrow> Inr () | Some e \<Rightarrow> Inl (Io path e)))))"

section \<open>Rendering\<close>

text \<open>The text of an error, from the attributes in \<open>src/error.rs\<close>.\<close>

definition error_display :: "(io_error \<Rightarrow> string) \<Rightarrow> bundle_error \<Rightarrow> message" where
  "error_display io_text e =
     (case e of
        Validation _ \<Rightarrow> [Lit ''bundle validation failed'']
      | Manifest_error path m \<Rightarrow> [Lit ''failed to parse manifest '', Disp path, Lit '': ''] @ m
      | Json_error path m \<Rightarrow> [Lit ''failed to parse JSON '', Disp path, Lit '': ''] @ m
      | Io path source \<Rightarrow> [Lit ''filesystem error for '', Disp path, Lit '': '', Disp (io_text source)]
      | Key m \<Rightarrow> [Lit ''key error: ''] @ m
      | SigningKeyPasswordRequired \<Rightarrow> [Lit ''the signing key is encrypted and requires a password'']
      | Archive m \<Rightarrow> [Lit ''invalid bundle archive: ''] @ m
      | SizeLimit kind limit \<Rightarrow>
          [Lit ''bundle '', Disp kind, Lit '' size exceeds the configured limit of '', Num (unat limit),
           Lit '' bytes'']
      | Serialization m \<Rightarrow> [Lit ''serialization failed: ''] @ m)"

definition severity_json :: "severity \<Rightarrow> json" where
  "severity_json s = JString (case s of Error \<Rightarrow> ''error'' | Warning \<Rightarrow> ''warning'')"

definition severity_debug :: "severity \<Rightarrow> fmt" where
  "severity_debug s = Lit (case s of Error \<Rightarrow> ''Error'' | Warning \<Rightarrow> ''Warning'')"

definition option_json :: "('a \<Rightarrow> json) \<Rightarrow> 'a option \<Rightarrow> json" where
  "option_json f v = (case v of None \<Rightarrow> JNull | Some x \<Rightarrow> f x)"

definition diagnostic_to_json :: "(message \<Rightarrow> string) \<Rightarrow> diagnostic \<Rightarrow> json" where
  "diagnostic_to_json format d =
     JObject [(''severity'', severity_json (d_severity d)), (''code'', JString (d_code d)),
              (''module'', option_json JString (d_module d)), (''path'', option_json JString (d_path d)),
              (''line'', option_json (\<lambda>n. encode_uint (of_nat n :: usize)) (d_line d)),
              (''column'', option_json (\<lambda>n. encode_uint (of_nat n :: usize)) (d_column d)),
              (''message'', JString (format (d_message d)))]"

definition command_output ::
  "(message \<Rightarrow> string) \<Rightarrow> bool \<Rightarrow> diagnostic list \<Rightarrow> string option \<Rightarrow> string option \<Rightarrow> json" where
  "command_output format valid diagnostics bundle_id archive_sha256 =
     JObject ([(''valid'', JBool valid),
               (''diagnostics'', JArray (map (diagnostic_to_json format) diagnostics))] @
              (case bundle_id of None \<Rightarrow> [] | Some i \<Rightarrow> [(''bundle_id'', JString i)]) @
              (case archive_sha256 of None \<Rightarrow> [] | Some h \<Rightarrow> [(''archive_sha256'', JString h)]))"

definition diagnostic_line :: "diagnostic \<Rightarrow> cli_effect" where
  "diagnostic_line d =
     (let location = (case d_path d of Some p \<Rightarrow> p
                      | None \<Rightarrow> (case d_module d of Some m \<Rightarrow> m | None \<Rightarrow> ''bundle''))
      in Stdout ([severity_debug (d_severity d), Lit '' ['', Disp (d_code d), Lit ''] '', Disp location,
                  Lit '': ''] @ d_message d))"

definition render_check ::
  "cli_env \<Rightarrow> common_args \<Rightarrow> diagnostic list \<Rightarrow> string option \<Rightarrow> string option \<Rightarrow> unit effectful" where
  "render_check E common diagnostics bundle_id archive_sha256 =
     (let invalid = list_ex (\<lambda>d. d_severity d = Error \<or> ca_deny_warnings common \<and> d_severity d = Warning)
                      diagnostics;
          result = Value (if invalid then Inl (Validation diagnostics) else Inr ())
      in case ca_format common of
           Human \<Rightarrow>
             (map diagnostic_line diagnostics @ (if invalid then [] else [Stdout [Lit ''valid'']]), result)
         | Json \<Rightarrow>
             then_run (map_err (\<lambda>e. Serialization [Disp e])
               (jl_to_vec (ci_json E)
                  (command_output (ci_format E) (\<not> invalid) diagnostics bundle_id archive_sha256)))
               (\<lambda>line. ([Stdout_json line], result)))"

definition render_content_error :: "cli_env \<Rightarrow> common_args \<Rightarrow> bundle_error \<Rightarrow> unit effectful" where
  "render_content_error E common e =
     (if \<not> is_validation e then fails e
      else let diagnostics =
                 (case e of
                    Validation ds \<Rightarrow> ds
                  | other \<Rightarrow> [diag_error ''bundle.invalid_content''
                                (error_display (fs_io_text (ci_fs E)) other)])
           in render_check E common diagnostics None None)"

definition render_policy_check ::
  "cli_env \<Rightarrow> common_args \<Rightarrow> bundle_error + policy_check \<Rightarrow> unit effectful" where
  "render_policy_check E common result =
     (case result of
        Inr checked \<Rightarrow> render_check E common (pc_diagnostics checked) None None
      | Inl e \<Rightarrow> render_content_error E common e)"

section \<open>Commands\<close>

definition run_check :: "cli_env \<Rightarrow> check_target \<Rightarrow> unit effectful" where
  "run_check E target =
     (case target of
        Check_policy path schema labels common \<Rightarrow>
          then_run (read_string E path) (\<lambda>policy.
          then_run (transpose (map_option (read_string E) schema)) (\<lambda>schema.
          then_run (transpose (map_option (read_string E) labels)) (\<lambda>labels.
          then_run (check_policy (ci_compile E) policy schema labels) (\<lambda>checked.
            render_check E common (pc_diagnostics checked) None None))))
      | Check_module manifest common \<Rightarrow>
          render_policy_check E common (check_module (ci_compile E) manifest)
      | Check_bundle manifest common \<Rightarrow>
          render_policy_check E common
            (and_then (builder_from_manifest (ci_compile E) manifest) (builder_check (ci_compile E)))
      | Check_archive archive trusted_keys policy common \<Rightarrow>
          then_run (load_trust_store E trusted_keys) (\<lambda>store.
            case and_then (archive_read (ci_open E) archive (al_max_compressed_bytes archive_limits_default))
                   (\<lambda>bytes. validate (ci_archive E) bytes (signature_policy_of policy) store archive_limits_default) of
              Inr v \<Rightarrow> render_check E common (vb_diagnostics v) (Some (vb_bundle_id v)) (Some (vb_archive_sha256 v))
            | Inl e \<Rightarrow> render_content_error E common e))"

text \<open>After the file is written: \<open>json!\<close> panics on a path that is not UTF-8.\<close>

definition report_built :: "cli_env \<Rightarrow> build_args \<Rightarrow> bytes \<Rightarrow> unit effectful" where
  "report_built E args archive =
     (case ba_format args of
        Human \<Rightarrow> ([Stdout [Lit ''wrote '', Disp (ba_output args)]], Value (Inr ()))
      | Json \<Rightarrow>
          if utf8_valid (ba_output args)
          then ([Stdout_json (jl_display (ci_json E)
                   (JObject [(''built'', JBool True), (''output'', JString (ba_output args)),
                             (''archive_sha256'', JString (sha256_hex (ci_crypto E) archive))]))],
                Value (Inr ()))
          else ([], Panic))"

definition before :: "unit effectful \<Rightarrow> unit effectful \<Rightarrow> unit effectful" where
  "before a b =
     (case a of (effects, Value (Inr _)) \<Rightarrow> (effects @ fst b, snd b) | _ \<Rightarrow> a)"

definition run_build :: "cli_env \<Rightarrow> build_args \<Rightarrow> unit effectful" where
  "run_build E args =
     then_run (refuse_overwrite E (ba_output args)) (\<lambda>_.
     then_run (transpose (map_option (\<lambda>path. load_signing_key E path (ba_password_file args))
                            (ba_signing_key args))) (\<lambda>signing_key.
       let common = \<lparr>ca_format = ba_format args, ca_deny_warnings = ba_deny_warnings args\<rparr>
       in case and_then (builder_from_manifest (ci_compile E) (ba_manifest args)) (\<lambda>builder.
                 builder_build (ci_archive E) (deny_warnings builder (ba_deny_warnings args)) signing_key) of
            Inr archive \<Rightarrow>
              before (write_new_file E (ba_output args) archive) (report_built E args archive)
          | Inl e \<Rightarrow> render_content_error E common e))"

definition run_sign :: "cli_env \<Rightarrow> sign_args \<Rightarrow> unit effectful" where
  "run_sign E args =
     then_run (refuse_overwrite E (sa_output args)) (\<lambda>_.
     then_run (load_signing_key E (sa_signing_key args) (sa_password_file args)) (\<lambda>key.
     then_run (archive_read (ci_open E) (sa_archive args) (al_max_compressed_bytes archive_limits_default))
     (\<lambda>archive.
     then_run (resign (ci_archive E) archive key archive_limits_default) (\<lambda>signed.
       before (write_new_file E (sa_output args) signed)
         ([Stdout [Lit ''wrote '', Disp (sa_output args)]], Value (Inr ()))))))"

definition run :: "cli_env \<Rightarrow> command \<Rightarrow> unit effectful" where
  "run E c = (case c of Check args \<Rightarrow> run_check E args | Build args \<Rightarrow> run_build E args
              | Sign args \<Rightarrow> run_sign E args)"

text \<open>The exit status: 0, 1 for invalid content, 2 for another error, 101 for a panic.\<close>

definition main_exit :: "cli_env \<Rightarrow> command \<Rightarrow> cli_effect list \<times> nat" where
  "main_exit E c =
     (case run E c of
        (effects, Panic) \<Rightarrow> (effects, 101)
      | (effects, Value (Inr _)) \<Rightarrow> (effects, 0)
      | (effects, Value (Inl e)) \<Rightarrow>
          (effects @ [Stderr (error_display (fs_io_text (ci_fs E)) e)], if is_validation e then 1 else 2))"

text \<open>
  \<open>println!\<close> and \<open>eprintln!\<close> panic when the line cannot be written, to a pipe without a reader, say.
  A program therefore performs its effects up to the first line that is refused.  Whether a line is
  accepted may depend on everything done before it.
\<close>

type_synonym output_streams = "cli_effect list \<Rightarrow> cli_effect \<Rightarrow> bool"

definition is_line :: "cli_effect \<Rightarrow> bool" where
  "is_line e = (case e of Created _ _ \<Rightarrow> False | _ \<Rightarrow> True)"

fun perform :: "output_streams \<Rightarrow> cli_effect list \<Rightarrow> cli_effect list \<Rightarrow> cli_effect list \<times> bool" where
  "perform ok performed [] = (performed, True)"
| "perform ok performed (e # es) =
     (if is_line e \<and> \<not> ok performed e then (performed, False) else perform ok (performed @ [e]) es)"

definition main_process :: "output_streams \<Rightarrow> cli_env \<Rightarrow> command \<Rightarrow> cli_effect list \<times> nat" where
  "main_process ok E c =
     (case main_exit E c of (effects, status) \<Rightarrow>
        (case perform ok [] effects of
           (performed, complete) \<Rightarrow> (performed, if complete then status else 101)))"

text \<open>
  \<open>Cli::parse\<close> either returns the parsed command line or ends the process itself, after it printed
  help or a complaint.
\<close>

definition program ::
  "output_streams \<Rightarrow> cli_env \<Rightarrow> (string list \<Rightarrow> cli_effect list \<times> nat + cli) \<Rightarrow> string list \<Rightarrow> cli_effect list \<times> nat" where
  "program ok E parse args =
     (case parse args of Inl ended \<Rightarrow> ended | Inr parsed \<Rightarrow> main_process ok E (cl_command parsed))"

end
