(* ===== verification/Cli_Correct.thy ===== *)
theory Cli_Correct
  imports Cli
begin

text \<open>
  The exit status and the effects of a command.  \<open>sound r\<close> says that a \<open>Validation\<close> failure of \<open>r\<close>
  carries an error; its rules follow the operations through \<open>and_then\<close>.  From it: a command that
  renders a content error never exits with 0, and a file is created only for a successful build or
  signature.
\<close>

section \<open>Validation failures carry an error\<close>

definition reports_error :: "bundle_error \<Rightarrow> bool" where
  "reports_error e \<longleftrightarrow> (\<forall>ds. e = Validation ds \<longrightarrow> has_error ds)"

abbreviation sound :: "bundle_error + 'a \<Rightarrow> bool" where
  "sound r \<equiv> fails_with reports_error r"

lemmas sound_def = fails_with_def [of reports_error]

lemma reports_error_simps [simp]:
  "reports_error (Archive m)" "reports_error (Io p err)" "reports_error (Key m)"
  "reports_error (SizeLimit k l)" "reports_error (Serialization m)" "reports_error SigningKeyPasswordRequired"
  "reports_error (Manifest_error p m)" "reports_error (Json_error p m)" "reports_error (invalid c m)"
  "reports_error (Validation ds) \<longleftrightarrow> has_error ds"
  by (auto simp: reports_error_def invalid_def)

lemma sound_all_errors:
  "(\<And>e. r = Inl e \<Longrightarrow> \<exists>ds. e = Validation ds \<and> ds \<noteq> [] \<and> all_errors ds) \<Longrightarrow> sound r"
  by (fastforce simp: sound_def all_errors_has_error)

lemmas sound_rules = fails_with_rules [where P = reports_error]

section \<open>The library\<close>

lemma sound_from_json_str: "sound (from_json_str E s)"
  by (rule sound_all_errors) (rule from_json_str_Inl)

lemma sound_canonical_json_bytes: "sound (canonical_json_bytes J v)"
  unfolding canonical_json_bytes_def by (intro sound_rules) simp_all

lemma sound_parse_json: "sound (parse_json J ty d path b)"
  unfolding parse_json_def by (intro sound_rules) simp_all

lemma sound_validate_archive_parts: "sound (validate_archive_parts E name ms ps sj labels ids)"
  by (auto simp: sound_def dest: validate_archive_parts_Inl)

lemma sound_validate_format: "sound (validate_format X s)"
  unfolding validate_format_def by (intro sound_rules) simp_all

lemma sound_trust_verify: "sound (trust_verify X store m s)"
  by (auto simp: sound_def dest: trust_verify_Inl)

lemma sound_verify_decoded: "sound (verify_decoded X store policy v m s)"
  by (auto simp: verify_decoded_def sound_trust_verify split: option.split)

lemma sound_validate_module_record: "sound (validate_module_record C selected st m)"
  by (cases st) (auto intro!: sound_rules split: prod.split)

lemma sound_validate_manifest: "sound (validate_manifest C m)"
  unfolding validate_manifest_def
  by (intro sound_rules) (auto intro!: sound_rules sound_validate_module_record)

lemma sound_check_artifacts: "sound (check_artifacts X rs es)"
  unfolding check_artifacts_def by (intro sound_rules) (auto split: prod.split)

lemma sound_compute_bundle_id: "sound (compute_bundle_id E m)"
  by (simp add: compute_bundle_id_def sound_canonical_json_bytes)

lemma sound_utf8: "sound (utf8 path b)"
  unfolding utf8_def by (intro sound_rules) simp_all

lemma sound_validate_decoded: "sound (validate_decoded E d policy store v)"
  unfolding validate_decoded_def Let_def
  by (intro sound_rules sound_parse_json sound_verify_decoded sound_validate_manifest sound_check_artifacts
      sound_compute_bundle_id sound_utf8 sound_from_json_str sound_validate_archive_parts)
    (auto simp: sound_validate_format split: option.split)

lemma sound_limit_plus_one: "sound (limit_plus_one l k)"
  by (simp add: limit_plus_one_def)

lemma sound_read_entry: "sound (read_entry es item)"
  unfolding read_entry_def by (intro sound_rules) simp_all

lemma sound_decode_archive: "sound (decode_archive K b limits)"
  unfolding decode_archive_def Let_def
  by (intro sound_rules sound_limit_plus_one sound_read_entry) (auto split: option.split)

lemma sound_validate: "sound (validate E b policy store limits)"
  unfolding validate_def validate_inner_def
  by (intro sound_rules sound_decode_archive sound_validate_decoded) (auto split: prod.split)

lemma sound_archive_read: "sound (archive_read open path n)"
  unfolding archive_read_def by (intro sound_rules sound_limit_plus_one) simp_all

section \<open>Manifests and builds\<close>

lemma sound_module_from_path: "sound (module_from_path E path)"
  unfolding sound_def reports_error_def
  using module_from_path_Validation all_errors_has_error by blast

lemma all_errors_validate_module_set:
  "all_errors (validate_module_set ms ds) \<longleftrightarrow> all_errors ds"
proof -
  have "all_errors (check_neighbours x [])" for x by (cases x) (simp add: overlap_diagnostic_def)
  then have n: "all_errors (fold check_neighbours xs ds) = all_errors ds" for xs ds
    by (subst neighbour_pass.fold_run) (simp add: all_errors_concat)
  have "all_errors (check_import_resolved ns x [])" for ns x by (cases x) simp
  then have i: "all_errors (fold (check_import_resolved ns) xs ds) = all_errors ds" for ns xs ds
    by (subst import_pass.fold_run) (simp add: all_errors_concat)
  have m: "all_errors (map (\<lambda>x. diag_error c (f x)) xs)" for c f and xs :: "module_selection list"
    by (induction xs) auto
  show ?thesis by (simp add: validate_module_set_def Let_def n i m)
qed

lemma load_selection_errors:
  "load_selection E dir (ms, ds) r = Inr (ms', ds') \<Longrightarrow> all_errors ds \<Longrightarrow> all_errors ds'"
proof (cases "module_from_path E (path_join dir (rs_manifest r))")
  case (Inl e)
  assume step: "load_selection E dir (ms, ds) r = Inr (ms', ds')" and ds: "all_errors ds"
  show ?thesis
  proof (cases e)
    case (Validation nested)
    with Inl have "all_errors nested" using module_from_path_Validation by blast
    with step ds Inl Validation show ?thesis by (auto split: if_splits)
  qed (use step ds Inl in \<open>auto split: if_splits\<close>)
qed (auto split: if_splits)

lemma sound_bundle_from_path: "sound (bundle_from_path E path)"
proof -
  have header: "all_errors (bundle_header_diagnostics raw)" for raw
    by (auto simp: bundle_header_diagnostics_def version_diagnostic_def)
  have load: "all_errors ds'" if "try_fold (load_selection E dir) ([], ds) rs = Inr (ms', ds')" "all_errors ds"
    for dir ds rs ms' ds'
    using try_fold_invariant [where P = "\<lambda>(_, ds). all_errors ds", OF that(1)] that(2) load_selection_errors
    by fastforce
  have sel: "sound (load_selection E dir st r)" for dir st r
  proof (cases st)
    case (Pair ms ds)
    show ?thesis
    proof (cases "module_from_path E (path_join dir (rs_manifest r))")
      case (Inl e)
      with Pair show ?thesis by (cases e) auto
    qed (simp add: Pair)
  qed
  have last: "sound (let ds = validate_module_set ms ds in if ds = [] then Inr b else Inl (Validation ds))"
    if "try_fold (load_selection E dir) ([], bundle_header_diagnostics raw) rs = Inr (ms, ds)"
    for ms ds dir raw rs and b :: bundle_manifest
    using load [OF that header] all_errors_has_error [of "validate_module_set ms ds"]
    by (simp add: Let_def all_errors_validate_module_set)
  show ?thesis
    unfolding bundle_from_path_def
    by (intro sound_rules sel) (auto intro: last split: prod.split)
qed

lemma sound_compile_manifest: "sound (compile_manifest E b)"
  by (auto simp: sound_def compile_failure_def dest!: compile_manifest_Inl)

lemma sound_check_module: "sound (check_module E path)"
  unfolding check_module_def by (intro sound_rules sound_module_from_path sound_compile_manifest) simp

lemma sound_builder_check:
  "sound (and_then (builder_from_manifest E path) (builder_check E))"
proof (cases "builder_from_manifest E path")
  case (Inl e)
  then show ?thesis
    using sound_bundle_from_path [of "ce_source E" path]
    by (auto simp: builder_from_manifest_def and_then_Inl sound_def)
next
  case (Inr b)
  then have "\<not> bb_deny_warnings b" by (auto simp: builder_from_manifest_def result_iff)
  then have "sound (builder_check E b)"
    unfolding builder_check_def by (intro sound_rules sound_compile_manifest) simp_all
  with Inr show ?thesis by simp
qed

text \<open>A build that denies warnings may also be refused for a warning.\<close>

lemma builder_build_refused:
  assumes "and_then (builder_from_manifest (ar_compile E) path)
    (\<lambda>b. builder_build E (deny_warnings b deny) key) = Inl (Validation ds)"
  shows "has_error ds \<or> deny \<and> has_warning ds"
proof (cases "builder_from_manifest (ar_compile E) path")
  case (Inl e)
  with assms sound_bundle_from_path [of "ce_source (ar_compile E)" path] show ?thesis
    by (auto simp: builder_from_manifest_def and_then_Inl sound_def)
next
  case (Inr b)
  with assms have "builder_build E (deny_warnings b deny) key = Inl (Validation ds)" by simp
  moreover have "has_error ds" if "compile_manifest (ar_compile E) m = Inl (Validation ds)" for m
    using that sound_compile_manifest [of "ar_compile E" m] by simp
  moreover have "build E parts key \<noteq> Inl (Validation ds)" for parts
    using build_Inl by (fastforce simp: encoding_failure_def)
  ultimately show ?thesis by (auto simp: builder_build_def and_then_Inl ensure_Inl deny_warnings_def)
qed

section \<open>Rendering\<close>

definition succeeded :: "'a effectful \<Rightarrow> bool" where
  "succeeded r \<longleftrightarrow> (case snd r of Value (Inr _) \<Rightarrow> True | _ \<Rightarrow> False)"

definition creates :: "'a effectful \<Rightarrow> (string \<times> bytes) set" where
  "creates r = {(p, c). Created p c \<in> set (fst r)}"

lemma fails_simps [simp]: "\<not> succeeded (fails e)" "creates (fails e) = {}" "snd (fails e) = Value (Inl e)"
  by (simp_all add: succeeded_def fails_def creates_def)

lemma succeeded_then_run: "succeeded (then_run r f) \<longleftrightarrow> (\<exists>x. r = Inr x \<and> succeeded (f x))"
  by (cases r) simp_all

lemma creates_then_run: "pc \<in> creates (then_run r f) \<longleftrightarrow> (\<exists>x. r = Inr x \<and> pc \<in> creates (f x))"
  by (cases r) simp_all

text \<open>Whether the JSON form of the output can be printed, when it is asked for.\<close>

definition prints :: "cli_env \<Rightarrow> common_args \<Rightarrow> diagnostic list \<Rightarrow> string option \<Rightarrow> string option \<Rightarrow> bool" where
  "prints E common ds i h \<longleftrightarrow>
     ca_format common = Human \<or>
     (\<forall>valid. \<exists>b. jl_to_vec (ci_json E) (command_output (ci_format E) valid ds i h) = Inr b)"

lemma render_check_succeeded:
  "succeeded (render_check E common ds i h) \<Longrightarrow> is_valid \<lparr>pc_diagnostics = ds\<rparr> (ca_deny_warnings common)"
  by (cases "ca_format common")
    (auto simp: render_check_def Let_def succeeded_def is_valid_def then_run_def fails_def
      split: if_splits sum.splits)

lemma render_check_succeeds:
  assumes "is_valid \<lparr>pc_diagnostics = ds\<rparr> (ca_deny_warnings common)" "prints E common ds i h"
  shows "succeeded (render_check E common ds i h)"
proof (cases "ca_format common")
  case Human
  with assms(1) show ?thesis by (simp add: render_check_def Let_def succeeded_def is_valid_def)
next
  case Json
  with assms(2) obtain b where "jl_to_vec (ci_json E) (command_output (ci_format E) True ds i h) = Inr b"
    by (auto simp: prints_def)
  with Json assms(1) show ?thesis by (simp add: render_check_def Let_def succeeded_def is_valid_def)
qed

lemma creates_render_check [simp]: "creates (render_check E common ds i h) = {}"
  by (cases "ca_format common")
    (auto simp: render_check_def Let_def creates_def then_run_def fails_def diagnostic_line_def split: sum.splits)

lemma creates_render_content_error [simp]: "creates (render_content_error E common e) = {}"
  by (simp add: render_content_error_def Let_def)

text \<open>A refusal is never rendered as a success.\<close>

lemma render_content_error_fails:
  assumes "\<And>ds. e = Validation ds \<Longrightarrow> has_error ds \<or> ca_deny_warnings common \<and> has_warning ds"
  shows "\<not> succeeded (render_content_error E common e)"
proof
  assume ok: "succeeded (render_content_error E common e)"
  have v: "is_validation e"
  proof (rule ccontr)
    assume "\<not> is_validation e"
    with ok show False by (simp add: render_content_error_def)
  qed
  show False
  proof (cases "\<exists>ds. e = Validation ds")
    case True
    then obtain ds where "e = Validation ds" ..
    with ok assms have "is_valid \<lparr>pc_diagnostics = ds\<rparr> (ca_deny_warnings common)"
      "has_error ds \<or> ca_deny_warnings common \<and> has_warning ds"
      by (auto simp: render_content_error_def dest: render_check_succeeded)
    then show False by (auto simp: is_valid_def has_error_def has_warning_def list_ex_iff)
  next
    case False
    then have "succeeded (render_check E common
        [diag_error ''bundle.invalid_content'' (error_display (fs_io_text (ci_fs E)) e)] None None)"
      using ok v by (cases e) (simp_all add: render_content_error_def Let_def)
    from render_check_succeeded [OF this] show False by (simp add: is_valid_def)
  qed
qed

lemma render_content_error_sound: "sound (Inl e) \<Longrightarrow> \<not> succeeded (render_content_error E common e)"
  by (rule render_content_error_fails) (simp add: reports_error_def)

section \<open>Checks\<close>

text \<open>What a check looks at, and what it finds.\<close>

definition common_of :: "check_target \<Rightarrow> common_args" where
  "common_of t = (case t of Check_policy _ _ _ c \<Rightarrow> c | Check_module _ c \<Rightarrow> c | Check_bundle _ c \<Rightarrow> c
                  | Check_archive _ _ _ c \<Rightarrow> c)"

definition check_findings ::
  "cli_env \<Rightarrow> check_target \<Rightarrow> bundle_error + diagnostic list \<times> string option \<times> string option" where
  "check_findings E t =
     (case t of
        Check_policy path schema labels _ \<Rightarrow>
          and_then (read_string E path) (\<lambda>policy.
          and_then (transpose (map_option (read_string E) schema)) (\<lambda>schema.
          and_then (transpose (map_option (read_string E) labels)) (\<lambda>labels.
            map_ok (\<lambda>c. (pc_diagnostics c, None, None)) (check_policy (ci_compile E) policy schema labels))))
      | Check_module path _ \<Rightarrow> map_ok (\<lambda>c. (pc_diagnostics c, None, None)) (check_module (ci_compile E) path)
      | Check_bundle path _ \<Rightarrow>
          map_ok (\<lambda>c. (pc_diagnostics c, None, None))
            (and_then (builder_from_manifest (ci_compile E) path) (builder_check (ci_compile E)))
      | Check_archive path keys policy _ \<Rightarrow>
          and_then (load_trust_store E keys) (\<lambda>store.
          and_then (archive_read (ci_open E) path (al_max_compressed_bytes archive_limits_default)) (\<lambda>bytes.
            map_ok (\<lambda>v. (vb_diagnostics v, Some (vb_bundle_id v), Some (vb_archive_sha256 v)))
              (validate (ci_archive E) bytes (signature_policy_of policy) store archive_limits_default))))"

lemma sound_archive_stage:
  "sound (and_then (archive_read open path n) (\<lambda>bytes. validate E bytes policy store limits))"
  by (intro sound_rules sound_archive_read sound_validate)

lemma succeeded_policy_check:
  assumes "sound r"
  shows "succeeded (render_policy_check E common r) \<longleftrightarrow>
    (\<exists>c. r = Inr c \<and> succeeded (render_check E common (pc_diagnostics c) None None))"
proof (cases r)
  case (Inl e)
  with assms render_content_error_sound show ?thesis by (simp add: render_policy_check_def)
qed (simp add: render_policy_check_def)

lemma succeeded_check:
  "succeeded (run_check E t) \<longleftrightarrow>
     (\<exists>ds i h. check_findings E t = Inr (ds, i, h) \<and> succeeded (render_check E (common_of t) ds i h))"
proof (cases t)
  case (Check_policy path schema labels common)
  show ?thesis
    unfolding Check_policy run_check_def check_findings_def common_of_def check_target.case
      succeeded_then_run and_then_Inr map_ok_Inr prod.inject
    by blast
next
  case (Check_module path common)
  with succeeded_policy_check [OF sound_check_module] show ?thesis
    by (auto simp: run_check_def check_findings_def common_of_def result_iff)
next
  case (Check_bundle path common)
  with succeeded_policy_check [OF sound_builder_check] show ?thesis
    by (auto simp: run_check_def check_findings_def common_of_def result_iff)
next
  case (Check_archive path keys policy common)
  have "succeeded (case r of Inl e \<Rightarrow> render_content_error E common e
      | Inr v \<Rightarrow> render_check E common (vb_diagnostics v) (Some (vb_bundle_id v)) (Some (vb_archive_sha256 v))) \<longleftrightarrow>
    (\<exists>v. r = Inr v \<and> succeeded (render_check E common (vb_diagnostics v) (Some (vb_bundle_id v))
       (Some (vb_archive_sha256 v))))" if "sound r" for r
  proof (cases r)
    case (Inl e)
    with that render_content_error_sound show ?thesis by simp
  qed simp
  from this [OF sound_archive_stage] Check_archive show ?thesis
    by (auto simp: run_check_def check_findings_def common_of_def succeeded_then_run result_iff)
qed

text \<open>The output of a check without an objection can be written, in the format asked for.\<close>

definition reportable :: "cli_env \<Rightarrow> common_args \<Rightarrow> diagnostic list \<Rightarrow> string option \<Rightarrow> string option \<Rightarrow> bool" where
  "reportable E common ds i h \<longleftrightarrow>
     (case ca_format common of
        Human \<Rightarrow> True
      | Json \<Rightarrow> \<exists>line. jl_to_vec (ci_json E) (command_output (ci_format E) True ds i h) = Inr line)"

lemma render_check_succeeded_iff:
  "succeeded (render_check E common ds i h) \<longleftrightarrow>
     is_valid \<lparr>pc_diagnostics = ds\<rparr> (ca_deny_warnings common) \<and> reportable E common ds i h"
  by (cases "ca_format common")
    (auto simp: render_check_def Let_def succeeded_def is_valid_def reportable_def then_run_def fails_def map_err_def
      split: if_splits sum.splits)

text \<open>\<open>check\<close> succeeds exactly if the library accepts the target and its diagnostics are valid.\<close>

definition check_accepts :: "cli_env \<Rightarrow> check_target \<Rightarrow> bool" where
  "check_accepts E t \<longleftrightarrow>
     (case t of
        Check_policy path schema labels c \<Rightarrow>
          (\<exists>policy s l checked. read_string E path = Inr policy \<and>
             transpose (map_option (read_string E) schema) = Inr s \<and>
             transpose (map_option (read_string E) labels) = Inr l \<and>
             check_policy (ci_compile E) policy s l = Inr checked \<and>
             is_valid checked (ca_deny_warnings c) \<and> reportable E c (pc_diagnostics checked) None None)
      | Check_module path c \<Rightarrow>
          (\<exists>checked. check_module (ci_compile E) path = Inr checked \<and>
             is_valid checked (ca_deny_warnings c) \<and> reportable E c (pc_diagnostics checked) None None)
      | Check_bundle path c \<Rightarrow>
          (\<exists>b checked. builder_from_manifest (ci_compile E) path = Inr b \<and>
             builder_check (ci_compile E) b = Inr checked \<and>
             is_valid checked (ca_deny_warnings c) \<and> reportable E c (pc_diagnostics checked) None None)
      | Check_archive path keys policy c \<Rightarrow>
          (\<exists>store bytes v. load_trust_store E keys = Inr store \<and>
             archive_read (ci_open E) path (al_max_compressed_bytes archive_limits_default) = Inr bytes \<and>
             validate (ci_archive E) bytes (signature_policy_of policy) store archive_limits_default = Inr v \<and>
             is_valid \<lparr>pc_diagnostics = vb_diagnostics v\<rparr> (ca_deny_warnings c) \<and>
             reportable E c (vb_diagnostics v) (Some (vb_bundle_id v)) (Some (vb_archive_sha256 v))))"

lemma succeeded_check_iff: "succeeded (run_check E t) \<longleftrightarrow> check_accepts E t"
proof -
  have eta: "\<lparr>pc_diagnostics = pc_diagnostics c\<rparr> = c" for c :: policy_check by simp
  show ?thesis
  proof (cases t)
    case (Check_policy path schema labels common)
    show ?thesis
      unfolding Check_policy succeeded_check render_check_succeeded_iff check_accepts_def check_findings_def
        common_of_def check_target.case and_then_Inr map_ok_Inr prod.inject
      by (simp add: eta) (metis eta)
  qed (auto simp: succeeded_check render_check_succeeded_iff check_accepts_def check_findings_def common_of_def
        result_iff eta)
qed

lemma exit_0_iff: "snd (main_exit E c) = 0 \<longleftrightarrow> succeeded (run E c)"
  by (cases "run E c") (auto simp: main_exit_def succeeded_def split: outcome.split sum.split)

lemma check_exit_0:
  "snd (main_exit E (Check t)) = 0 \<Longrightarrow>
     \<exists>ds i h. check_findings E t = Inr (ds, i, h) \<and> is_valid \<lparr>pc_diagnostics = ds\<rparr> (ca_deny_warnings (common_of t))"
  by (auto simp: exit_0_iff run_def succeeded_check dest: render_check_succeeded)

lemma check_exit_0_if:
  "check_findings E t = Inr (ds, i, h) \<Longrightarrow> is_valid \<lparr>pc_diagnostics = ds\<rparr> (ca_deny_warnings (common_of t)) \<Longrightarrow>
     prints E (common_of t) ds i h \<Longrightarrow> snd (main_exit E (Check t)) = 0"
  by (auto simp: exit_0_iff run_def succeeded_check intro: render_check_succeeds)

lemma creates_then_run_empty: "(\<And>x. creates (f x) = {}) \<Longrightarrow> creates (then_run r f) = {}"
  by (cases r) simp_all

lemma creates_case_empty:
  "(\<And>e. creates (f e) = {}) \<Longrightarrow> (\<And>x. creates (g x) = {}) \<Longrightarrow>
     creates (case r of Inl e \<Rightarrow> f e | Inr x \<Rightarrow> g x) = {}"
  by (cases r) simp_all

lemma creates_policy_check [simp]: "creates (render_policy_check E common r) = {}"
  by (cases r) (simp_all add: render_policy_check_def)

lemma creates_check [simp]: "creates (run_check E t) = {}"
  unfolding run_check_def
  by (cases t) (simp_all add: creates_then_run_empty creates_case_empty)

section \<open>Builds and signatures\<close>

lemma write_new_file_created:
  "(p, c) \<in> creates (write_new_file E path contents) \<Longrightarrow>
     p = path \<and> ci_create E path = Inr () \<and> prefix c contents"
  by (auto simp: write_new_file_def creates_def fails_def take_is_prefix split: sum.splits prod.splits)

lemma write_new_file_succeeded:
  "succeeded (write_new_file E path contents) \<Longrightarrow>
     \<exists>n. ci_create E path = Inr () \<and> ci_write_all E path contents = (n, None) \<and>
       creates (write_new_file E path contents) = {(path, take n contents)}"
  by (auto simp: write_new_file_def succeeded_def creates_def fails_def split: sum.splits prod.splits option.splits)

lemma before_succeeded: "succeeded (before a b) \<longleftrightarrow> succeeded a \<and> succeeded b"
  by (cases a) (auto simp: before_def succeeded_def split: outcome.splits sum.splits)

lemma before_creates: "creates b = {} \<Longrightarrow> creates (before a b) = creates a"
  by (cases a) (auto simp: before_def creates_def split: outcome.splits sum.splits)

lemma creates_report_built [simp]: "creates (report_built E args archive) = {}"
  by (simp add: report_built_def creates_def split: output_format.split)

text \<open>The archive that a command writes, and where.\<close>

definition produced :: "cli_env \<Rightarrow> command \<Rightarrow> string \<Rightarrow> bytes \<Rightarrow> bool" where
  "produced E c path archive \<longleftrightarrow>
     (case c of
        Check _ \<Rightarrow> False
      | Build a \<Rightarrow> path = ba_output a \<and>
          (\<exists>key b. transpose (map_option (\<lambda>p. load_signing_key E p (ba_password_file a)) (ba_signing_key a)) = Inr key \<and>
             builder_from_manifest (ci_compile E) (ba_manifest a) = Inr b \<and>
             builder_build (ci_archive E) (deny_warnings b (ba_deny_warnings a)) key = Inr archive)
      | Sign a \<Rightarrow> path = sa_output a \<and>
          (\<exists>key bytes. load_signing_key E (sa_signing_key a) (sa_password_file a) = Inr key \<and>
             archive_read (ci_open E) (sa_archive a) (al_max_compressed_bytes archive_limits_default) = Inr bytes \<and>
             resign (ci_archive E) bytes key archive_limits_default = Inr archive))"

lemma refuse_overwrite_Inr [simp]: "refuse_overwrite E path = Inr u \<longleftrightarrow> \<not> ci_exists E path"
  by (simp add: refuse_overwrite_def result_iff)

lemma run_creates:
  assumes "(p, c) \<in> creates (run E cmd)"
  shows "\<exists>archive. produced E cmd p archive \<and> \<not> ci_exists E p \<and> ci_create E p = Inr () \<and> prefix c archive"
proof (cases cmd)
  case (Check t)
  with assms show ?thesis by (simp add: run_def)
next
  case (Build a)
  let ?r = "\<lambda>key. and_then (builder_from_manifest (ci_compile E) (ba_manifest a))
    (\<lambda>b. builder_build (ci_archive E) (deny_warnings b (ba_deny_warnings a)) key)"
  from assms obtain key where k: "\<not> ci_exists E (ba_output a)"
    "transpose (map_option (\<lambda>p. load_signing_key E p (ba_password_file a)) (ba_signing_key a)) = Inr key"
    and c: "(p, c) \<in> creates (case ?r key of
          Inr archive \<Rightarrow> before (write_new_file E (ba_output a) archive) (report_built E a archive)
        | Inl e \<Rightarrow> render_content_error E
            \<lparr>ca_format = ba_format a, ca_deny_warnings = ba_deny_warnings a\<rparr> e)"
    unfolding Build run_def run_build_def command.case Let_def creates_then_run refuse_overwrite_Inr by blast
  then obtain archive where a: "?r key = Inr archive" "(p, c) \<in> creates (write_new_file E (ba_output a) archive)"
    by (cases "?r key") (auto simp: before_creates)
  then obtain b where "builder_from_manifest (ci_compile E) (ba_manifest a) = Inr b"
    "builder_build (ci_archive E) (deny_warnings b (ba_deny_warnings a)) key = Inr archive"
    unfolding and_then_Inr by blast
  with k write_new_file_created [OF a(2)] show ?thesis unfolding Build produced_def command.case by blast
next
  case (Sign a)
  have "creates ([Stdout m], Value (Inr ())) = {}" for m by (simp add: creates_def)
  then have "creates (before w ([Stdout m], Value (Inr ()))) = creates w" for w m by (rule before_creates)
  with Sign assms show ?thesis
    by (auto simp: run_def run_sign_def creates_then_run produced_def dest!: write_new_file_created)
qed

text \<open>A build or signature that exits with 0 has written an archive.\<close>

lemma run_build_succeeded:
  assumes "succeeded (run E (Build a))"
  shows "\<exists>archive n. produced E (Build a) (ba_output a) archive \<and>
    ci_write_all E (ba_output a) archive = (n, None) \<and>
    creates (run E (Build a)) = {(ba_output a, take n archive)}"
proof -
  let ?common = "\<lparr>ca_format = ba_format a, ca_deny_warnings = ba_deny_warnings a\<rparr>"
  from assms obtain key where k: "\<not> ci_exists E (ba_output a)"
    "transpose (map_option (\<lambda>p. load_signing_key E p (ba_password_file a)) (ba_signing_key a)) = Inr key"
    and s: "succeeded (case and_then (builder_from_manifest (ci_compile E) (ba_manifest a))
        (\<lambda>b. builder_build (ci_archive E) (deny_warnings b (ba_deny_warnings a)) key) of
          Inr archive \<Rightarrow> before (write_new_file E (ba_output a) archive) (report_built E a archive)
        | Inl e \<Rightarrow> render_content_error E ?common e)"
    by (auto simp: run_def run_build_def succeeded_then_run Let_def)
  show ?thesis
  proof (cases "and_then (builder_from_manifest (ci_compile E) (ba_manifest a))
      (\<lambda>b. builder_build (ci_archive E) (deny_warnings b (ba_deny_warnings a)) key)")
    case (Inl e)
    have "\<not> succeeded (render_content_error E ?common e)"
      using Inl by (intro render_content_error_fails) (auto dest: builder_build_refused)
    with s Inl show ?thesis by simp
  next
    case (Inr archive)
    with s have "succeeded (write_new_file E (ba_output a) archive)" by (simp add: before_succeeded)
    from write_new_file_succeeded [OF this] obtain n where w:
      "ci_write_all E (ba_output a) archive = (n, None)"
      "creates (write_new_file E (ba_output a) archive) = {(ba_output a, take n archive)}" by blast
    have "creates (run E (Build a)) = {(ba_output a, take n archive)}"
      using k Inr w(2) by (simp add: run_def run_build_def refuse_overwrite_def Let_def before_creates)
    moreover have "produced E (Build a) (ba_output a) archive"
      using k(2) Inr by (auto simp: produced_def result_iff)
    ultimately show ?thesis using w(1) by blast
  qed
qed

lemma run_sign_succeeded:
  assumes "succeeded (run E (Sign a))"
  shows "\<exists>archive n. produced E (Sign a) (sa_output a) archive \<and>
    ci_write_all E (sa_output a) archive = (n, None) \<and>
    creates (run E (Sign a)) = {(sa_output a, take n archive)}"
proof -
  from assms obtain key bytes archive where k: "\<not> ci_exists E (sa_output a)"
    "load_signing_key E (sa_signing_key a) (sa_password_file a) = Inr key"
    "archive_read (ci_open E) (sa_archive a) (al_max_compressed_bytes archive_limits_default) = Inr bytes"
    "resign (ci_archive E) bytes key archive_limits_default = Inr archive"
    and w: "succeeded (write_new_file E (sa_output a) archive)"
    by (auto simp: run_def run_sign_def succeeded_then_run before_succeeded)
  from write_new_file_succeeded [OF w] obtain n where n: "ci_write_all E (sa_output a) archive = (n, None)"
      "creates (write_new_file E (sa_output a) archive) = {(sa_output a, take n archive)}" by blast
  have "creates ([Stdout m], Value (Inr ())) = {}" for m by (simp add: creates_def)
  with k n(2) have "creates (run E (Sign a)) = {(sa_output a, take n archive)}"
    by (simp add: run_def run_sign_def refuse_overwrite_def before_creates)
  with k n(1) show ?thesis by (auto simp: produced_def)
qed

text \<open>
  Documented behaviour of the standard library: \<open>write_all\<close> without an error wrote everything, and
  \<open>create_new\<close> fails on an existing path.
\<close>

definition files_documented :: "cli_env \<Rightarrow> bool" where
  "files_documented E \<longleftrightarrow>
     (\<forall>p b n. ci_write_all E p b = (n, None) \<longrightarrow> n = length b) \<and>
     (\<forall>p. ci_exists E p \<longrightarrow> ci_create E p \<noteq> Inr ())"

lemma output_written:
  assumes "files_documented E" "snd (main_exit E cmd) = 0" "\<And>t. cmd \<noteq> Check t"
  shows "\<exists>path archive. produced E cmd path archive \<and> creates (run E cmd) = {(path, archive)}"
proof (cases cmd)
  case (Build a)
  with assms(2) run_build_succeeded [of E a] obtain archive n where
    "produced E cmd (ba_output a) archive" "ci_write_all E (ba_output a) archive = (n, None)"
    "creates (run E cmd) = {(ba_output a, take n archive)}" by (auto simp: exit_0_iff)
  with assms(1) show ?thesis by (auto simp: files_documented_def)
next
  case (Sign a)
  with assms(2) run_sign_succeeded [of E a] obtain archive n where
    "produced E cmd (sa_output a) archive" "ci_write_all E (sa_output a) archive = (n, None)"
    "creates (run E cmd) = {(sa_output a, take n archive)}" by (auto simp: exit_0_iff)
  with assms(1) show ?thesis by (auto simp: files_documented_def)
qed (use assms(3) in blast)

text \<open>Content that is refused leaves no file behind.\<close>

lemma write_new_file_not_validation:
  "snd (write_new_file E path contents) = Value (Inl e) \<Longrightarrow> \<not> is_validation e"
  by (auto simp: write_new_file_def fails_def split: sum.splits prod.splits option.splits)

lemma before_Inl: "snd (before a b) = Value (Inl e) \<Longrightarrow> snd a = Value (Inl e) \<or> snd b = Value (Inl e)"
  by (cases a) (auto simp: before_def split: outcome.splits sum.splits)

lemma refused_creates_nothing:
  assumes "snd (run E cmd) = Value (Inl e)" "is_validation e"
  shows "creates (run E cmd) = {}"
proof -
  have w: "creates (before (write_new_file E p x) b) = {}"
    if "snd (before (write_new_file E p x) b) = Value (Inl e)" "\<And>e. snd b \<noteq> Value (Inl e)" for p x b
    using before_Inl [OF that(1)] that(2) write_new_file_not_validation assms(2) by blast
  have r: "snd (report_built E a x) \<noteq> Value (Inl e')" for a x e'
    by (simp add: report_built_def split: output_format.split)
  have t: "creates (then_run m f) = {}" if "snd (then_run m f) = Value (Inl e)"
      "\<And>x. snd (f x) = Value (Inl e) \<Longrightarrow> creates (f x) = {}" for m :: "bundle_error + 'b" and f :: "'b \<Rightarrow> unit effectful"
    using that by (cases m) auto
  have c: "creates (case m of Inr x \<Rightarrow> before (write_new_file E p x) (f x)
        | Inl e \<Rightarrow> render_content_error E common e) = {}"
    if "snd (case m of Inr x \<Rightarrow> before (write_new_file E p x) (f x)
        | Inl e \<Rightarrow> render_content_error E common e) = Value (Inl e)" "\<And>x e. snd (f x) \<noteq> Value (Inl e)"
    for m common p and f :: "bytes \<Rightarrow> unit effectful"
  proof (cases m)
    case (Inr x)
    with that w [of p x "f x"] show ?thesis by simp
  qed simp
  show ?thesis
  proof (cases cmd)
    case (Check x)
    then show ?thesis by (simp add: run_def)
  next
    case (Build x)
    show ?thesis
      using assms(1) unfolding Build run_def run_build_def command.case Let_def
      by (elim t) (rule c, assumption, rule r)
  next
    case (Sign x)
    show ?thesis
      using assms(1) unfolding Sign run_def run_sign_def command.case
      by (elim t) (rule w, assumption, simp)
  qed
qed

lemma exit_1_iff: "snd (main_exit E c) = 1 \<longleftrightarrow> (\<exists>e. snd (run E c) = Value (Inl e) \<and> is_validation e)"
  by (cases "run E c") (auto simp: main_exit_def split: outcome.split sum.split)

section \<open>Keys and passwords\<close>

lemma configured_password_bounded:
  assumes "configured_signing_key_password E (Some path) = Inr r"
  shows "\<exists>(fl :: open_file) b. ci_open E path = Inr fl \<and> of_contents fl = Inr b \<and> length b \<le> MAX_SIGNING_KEY_PASSWORD_BYTES \<and>
    r = Some (trim_line_ending b)"
proof -
  from assms obtain fl :: open_file and b where f: "ci_open E path = Inr fl"
    "read_take (MAX_SIGNING_KEY_PASSWORD_BYTES + 1) fl = Inr b" "length b \<le> MAX_SIGNING_KEY_PASSWORD_BYTES"
    "r = Some (trim_line_ending b)"
    by (auto simp: configured_signing_key_password_def result_iff)
  from f(2) obtain contents where c: "of_contents fl = Inr contents"
    "b = take (MAX_SIGNING_KEY_PASSWORD_BYTES + 1) contents" by (auto simp: read_take_def result_iff)
  with f(3) have "b = contents" by (auto simp: min_def split: if_splits)
  with c(1) have "of_contents fl = Inr b" by simp
  with f(1,3,4) show ?thesis by blast
qed

lemma load_signing_key_file:
  assumes "load_signing_key E path password_file = Inr key"
  shows "\<exists>pem. read_private_key (ci_open E) path = Inr pem"
  using assms
  by (auto simp: load_signing_key_def result_iff Let_def from_pkcs8_pem_file_with_password_def
      from_pkcs8_pem_file_def from_pkcs8_encrypted_pem_file_def split: option.splits if_splits)

end
