(* ===== verification/Engine.thy ===== *)
theory Engine
  imports Archive
begin

text \<open>
  \<open>src/engine.rs\<close> and the preparation of an engine in \<open>src/archive.rs\<close>.

  The policy engine, its sessions and its label registry belong to \<open>treetop-core\<close>.  Their operations
  are the fields of \<open>engine_ops\<close>, one value for each schema mode; engines share state that a reload
  changes, so every operation also reads a generation \<open>'w\<close>.  \<open>engine_core\<close> has the constructors.
  An error is its text.
\<close>

section \<open>The core crate\<close>

record ('w, 'eng, 'sess, 'reg) engine_ops =
  eo_with_label_registry :: "'eng \<Rightarrow> 'reg \<Rightarrow> 'eng"
  eo_session :: "'w \<Rightarrow> 'eng \<Rightarrow> 'sess"
  eo_current_version :: "'w \<Rightarrow> 'eng \<Rightarrow> string"
  eo_policy_store_ids :: "'w \<Rightarrow> 'eng \<Rightarrow> string list option"
  eo_list_policies_for_user :: "'w \<Rightarrow> 'eng \<Rightarrow> string \<Rightarrow> string list \<Rightarrow> string list \<Rightarrow> string + string list"
  eo_evaluate :: "'w \<Rightarrow> 'eng \<Rightarrow> json \<Rightarrow> string + bool"
  eo_evaluate_with_context :: "'w \<Rightarrow> 'eng \<Rightarrow> json \<Rightarrow> json \<Rightarrow> string + bool"
  es_version :: "'w \<Rightarrow> 'sess \<Rightarrow> string"
  es_evaluate :: "'w \<Rightarrow> 'sess \<Rightarrow> json \<Rightarrow> string + bool"
  es_evaluate_with_context :: "'w \<Rightarrow> 'sess \<Rightarrow> json \<Rightarrow> json \<Rightarrow> string + bool"

record ('free, 'enf, 'store, 'layout, 'builder, 'reg) engine_core =
  ec_new_from_str :: "string \<Rightarrow> string + 'free"
  ec_new_with_stores :: "string \<Rightarrow> 'layout \<Rightarrow> string + 'free"
  ec_new_with_schema :: "string \<Rightarrow> schema \<Rightarrow> string + 'enf"
  ec_new_with_schema_and_stores :: "string \<Rightarrow> schema \<Rightarrow> 'layout \<Rightarrow> string + 'enf"
  ec_store_config :: "string \<Rightarrow> string \<Rightarrow> string + 'store"
  ec_layout :: "'store list \<Rightarrow> string + 'layout"
  ec_with_global_policy_ids :: "'layout \<Rightarrow> string list \<Rightarrow> string + 'layout"
  ec_versioned :: "string \<Rightarrow> 'builder"
  ec_add_labeler :: "'builder \<Rightarrow> labeler \<Rightarrow> 'builder"
  ec_build_registry :: "'builder \<Rightarrow> string + 'reg"

section \<open>Prepared engines\<close>

datatype ('f, 'e) prepared_engine = SchemaFree 'f | SchemaEnforcing 'e
datatype ('f, 'e) prepared_session = SchemaFreeSession 'f | SchemaEnforcingSession 'e

type_synonym ('w, 'f, 'e, 'sf, 'se, 'r) engine_modes =
  "('w, 'f, 'sf, 'r) engine_ops \<times> ('w, 'e, 'se, 'r) engine_ops"

definition with_label_registry ::
  "('w, 'f, 'e, 'sf, 'se, 'r) engine_modes \<Rightarrow> ('f, 'e) prepared_engine \<Rightarrow> 'r \<Rightarrow> ('f, 'e) prepared_engine" where
  "with_label_registry M p registry =
     (case p of SchemaFree x \<Rightarrow> SchemaFree (eo_with_label_registry (fst M) x registry)
      | SchemaEnforcing x \<Rightarrow> SchemaEnforcing (eo_with_label_registry (snd M) x registry))"

definition session ::
  "('w, 'f, 'e, 'sf, 'se, 'r) engine_modes \<Rightarrow> 'w \<Rightarrow> ('f, 'e) prepared_engine \<Rightarrow> ('sf, 'se) prepared_session" where
  "session M w p =
     (case p of SchemaFree x \<Rightarrow> SchemaFreeSession (eo_session (fst M) w x)
      | SchemaEnforcing x \<Rightarrow> SchemaEnforcingSession (eo_session (snd M) w x))"

definition current_version ::
  "('w, 'f, 'e, 'sf, 'se, 'r) engine_modes \<Rightarrow> 'w \<Rightarrow> ('f, 'e) prepared_engine \<Rightarrow> string" where
  "current_version M w p =
     (case p of SchemaFree x \<Rightarrow> eo_current_version (fst M) w x
      | SchemaEnforcing x \<Rightarrow> eo_current_version (snd M) w x)"

definition policy_store_ids ::
  "('w, 'f, 'e, 'sf, 'se, 'r) engine_modes \<Rightarrow> 'w \<Rightarrow> ('f, 'e) prepared_engine \<Rightarrow> string list option" where
  "policy_store_ids M w p =
     (case p of SchemaFree x \<Rightarrow> eo_policy_store_ids (fst M) w x
      | SchemaEnforcing x \<Rightarrow> eo_policy_store_ids (snd M) w x)"

definition list_policies_for_user ::
  "('w, 'f, 'e, 'sf, 'se, 'r) engine_modes \<Rightarrow> 'w \<Rightarrow> ('f, 'e) prepared_engine \<Rightarrow>
     string \<Rightarrow> string list \<Rightarrow> string list \<Rightarrow> string + string list" where
  "list_policies_for_user M w p user groups namespace =
     (case p of SchemaFree x \<Rightarrow> eo_list_policies_for_user (fst M) w x user groups namespace
      | SchemaEnforcing x \<Rightarrow> eo_list_policies_for_user (snd M) w x user groups namespace)"

definition evaluate ::
  "('w, 'f, 'e, 'sf, 'se, 'r) engine_modes \<Rightarrow> 'w \<Rightarrow> ('f, 'e) prepared_engine \<Rightarrow> json \<Rightarrow> string + bool" where
  "evaluate M w p request =
     (case p of SchemaFree x \<Rightarrow> eo_evaluate (fst M) w x request
      | SchemaEnforcing x \<Rightarrow> eo_evaluate (snd M) w x request)"

definition evaluate_with_context ::
  "('w, 'f, 'e, 'sf, 'se, 'r) engine_modes \<Rightarrow> 'w \<Rightarrow> ('f, 'e) prepared_engine \<Rightarrow> json \<Rightarrow> json \<Rightarrow> string + bool" where
  "evaluate_with_context M w p request ctx =
     (case p of SchemaFree x \<Rightarrow> eo_evaluate_with_context (fst M) w x request ctx
      | SchemaEnforcing x \<Rightarrow> eo_evaluate_with_context (snd M) w x request ctx)"

definition session_version ::
  "('w, 'f, 'e, 'sf, 'se, 'r) engine_modes \<Rightarrow> 'w \<Rightarrow> ('sf, 'se) prepared_session \<Rightarrow> string" where
  "session_version M w s =
     (case s of SchemaFreeSession x \<Rightarrow> es_version (fst M) w x
      | SchemaEnforcingSession x \<Rightarrow> es_version (snd M) w x)"

definition session_evaluate ::
  "('w, 'f, 'e, 'sf, 'se, 'r) engine_modes \<Rightarrow> 'w \<Rightarrow> ('sf, 'se) prepared_session \<Rightarrow> json \<Rightarrow> string + bool" where
  "session_evaluate M w s request =
     (case s of SchemaFreeSession x \<Rightarrow> es_evaluate (fst M) w x request
      | SchemaEnforcingSession x \<Rightarrow> es_evaluate (snd M) w x request)"

definition session_evaluate_with_context ::
  "('w, 'f, 'e, 'sf, 'se, 'r) engine_modes \<Rightarrow> 'w \<Rightarrow> ('sf, 'se) prepared_session \<Rightarrow> json \<Rightarrow> json \<Rightarrow> string + bool" where
  "session_evaluate_with_context M w s request ctx =
     (case s of SchemaFreeSession x \<Rightarrow> es_evaluate_with_context (fst M) w x request ctx
      | SchemaEnforcingSession x \<Rightarrow> es_evaluate_with_context (snd M) w x request ctx)"

section \<open>Preparing an engine from a bundle\<close>

definition policy_engine_error :: "string \<Rightarrow> bundle_error" where
  "policy_engine_error e = invalid ''policy.engine_prepare'' [Disp e]"

definition prepare_engine_with_layout ::
  "archive_env \<Rightarrow> ('f, 'e, 'store, 'layout, 'b, 'r) engine_core \<Rightarrow> ('w, 'f, 'e, 'sf, 'se, 'r) engine_modes \<Rightarrow>
     validated_bundle \<Rightarrow> 'layout option \<Rightarrow> bundle_error + ('f, 'e) prepared_engine" where
  "prepare_engine_with_layout E K M b layout =
     and_then
       (case (vb_schema_json b, layout) of
          (Some schema, layout) \<Rightarrow>
            and_then (map_err (\<lambda>e. invalid ''schema.aggregate_invalid'' [Disp e])
                        (cd_schema_from_json (ce_cedar (ar_compile E)) schema)) (\<lambda>schema.
              map_err policy_engine_error (map_ok SchemaEnforcing
                (case layout of
                   Some l \<Rightarrow> ec_new_with_schema_and_stores K (vb_policies b) schema l
                 | None \<Rightarrow> ec_new_with_schema K (vb_policies b) schema)))
        | (None, Some l) \<Rightarrow>
            map_err policy_engine_error (map_ok SchemaFree (ec_new_with_stores K (vb_policies b) l))
        | (None, None) \<Rightarrow> map_err policy_engine_error (map_ok SchemaFree (ec_new_from_str K (vb_policies b))))
       (\<lambda>engine.
         let labelers = to_labelers (vb_labels b) in
         if labelers \<noteq> []
         then and_then (labels_json E b) (\<lambda>json.
              let builder = foldl (ec_add_labeler K) (ec_versioned K (sha256_hex (ar_crypto E) json)) labelers
              in and_then (map_err policy_engine_error (ec_build_registry K builder)) (\<lambda>registry.
                   Inr (with_label_registry M engine registry)))
         else Inr engine)"

definition prepare_engine ::
  "archive_env \<Rightarrow> ('f, 'e, 'store, 'layout, 'b, 'r) engine_core \<Rightarrow> ('w, 'f, 'e, 'sf, 'se, 'r) engine_modes \<Rightarrow>
     validated_bundle \<Rightarrow> bundle_error + ('f, 'e) prepared_engine" where
  "prepare_engine E K M b = prepare_engine_with_layout E K M b None"

definition prepare_engine_with_policy_stores ::
  "archive_env \<Rightarrow> ('f, 'e, 'store, 'layout, 'b, 'r) engine_core \<Rightarrow> ('w, 'f, 'e, 'sf, 'se, 'r) engine_modes \<Rightarrow>
     validated_bundle \<Rightarrow> bundle_error + ('f, 'e) prepared_engine" where
  "prepare_engine_with_policy_stores E K M b =
     and_then (map_err policy_engine_error
       (try_map (\<lambda>m. ec_store_config K (mr_name m) (mr_namespace m))
          (filter (\<lambda>m. mr_role m = Ordinary) (vb_modules b)))) (\<lambda>stores.
     let global_policy_ids = concat (map mr_policy_ids (filter (\<lambda>m. mr_role m = Global) (vb_modules b)))
     in and_then (map_err policy_engine_error
          (and_then (ec_layout K stores) (\<lambda>layout. ec_with_global_policy_ids K layout global_policy_ids)))
        (\<lambda>layout. prepare_engine_with_layout E K M b (Some layout)))"

text \<open>The mode of a prepared engine, and what it was built from.\<close>

definition is_enforcing :: "('f, 'e) prepared_engine \<Rightarrow> bool" where
  "is_enforcing p \<longleftrightarrow> (case p of SchemaFree _ \<Rightarrow> False | SchemaEnforcing _ \<Rightarrow> True)"

definition registry_of ::
  "archive_env \<Rightarrow> ('f, 'e, 'store, 'layout, 'b, 'r) engine_core \<Rightarrow> validated_bundle \<Rightarrow> 'r \<Rightarrow> bool" where
  "registry_of E K b registry \<longleftrightarrow>
     (\<exists>json. labels_json E b = Inr json \<and>
        ec_build_registry K (foldl (ec_add_labeler K) (ec_versioned K (sha256_hex (ar_crypto E) json))
          (map lr_runtime (vb_labels b))) = Inr registry)"

definition engine_of ::
  "archive_env \<Rightarrow> ('f, 'e, 'store, 'layout, 'b, 'r) engine_core \<Rightarrow> validated_bundle \<Rightarrow> 'layout option \<Rightarrow>
     ('f, 'e) prepared_engine \<Rightarrow> bool" where
  "engine_of E K b layout p \<longleftrightarrow>
     (case p of
        SchemaFree x \<Rightarrow> vb_schema_json b = None \<and>
          (case layout of None \<Rightarrow> ec_new_from_str K (vb_policies b) = Inr x
           | Some l \<Rightarrow> ec_new_with_stores K (vb_policies b) l = Inr x)
      | SchemaEnforcing x \<Rightarrow>
          (\<exists>j s. vb_schema_json b = Some j \<and> cd_schema_from_json (ce_cedar (ar_compile E)) j = Inr s \<and>
             (case layout of None \<Rightarrow> ec_new_with_schema K (vb_policies b) s = Inr x
              | Some l \<Rightarrow> ec_new_with_schema_and_stores K (vb_policies b) s l = Inr x)))"

lemma to_labelers_map: "to_labelers rules = map lr_runtime rules"
  by (simp add: to_labelers_def)

lemma prepare_engine_with_layout_Inr_iff:
  "prepare_engine_with_layout E K M b layout = Inr p \<longleftrightarrow>
     (\<exists>p0. engine_of E K b layout p0 \<and>
        (if vb_labels b = [] then p = p0
         else \<exists>registry. registry_of E K b registry \<and> p = with_label_registry M p0 registry))"
proof -
  have "prepare_engine_with_layout E K M b layout = Inr p \<longleftrightarrow>
      (\<exists>p0. engine_of E K b layout p0 \<and>
        (let labelers = to_labelers (vb_labels b) in
         if labelers \<noteq> []
         then and_then (labels_json E b) (\<lambda>json.
              let builder = foldl (ec_add_labeler K) (ec_versioned K (sha256_hex (ar_crypto E) json)) labelers
              in and_then (map_err policy_engine_error (ec_build_registry K builder)) (\<lambda>registry.
                   Inr (with_label_registry M p0 registry)))
         else Inr p0) = Inr p)"
    unfolding prepare_engine_with_layout_def and_then_Inr [of _ _ p]
    by (intro iff_exI arg_cong2 [of _ _ _ _ "(\<and>)"] refl)
      (auto simp: engine_of_def result_iff split: option.splits prepared_engine.splits)
  then show ?thesis
    by (auto simp: to_labelers_map registry_of_def result_iff Let_def)
qed

lemma with_label_registry_mode [simp]: "is_enforcing (with_label_registry M p r) = is_enforcing p"
  by (simp add: is_enforcing_def with_label_registry_def split: prepared_engine.split)

text \<open>An engine enforces a schema exactly when the bundle has one.\<close>

lemma prepare_engine_mode:
  assumes "prepare_engine_with_layout E K M b layout = Inr p"
  shows "is_enforcing p \<longleftrightarrow> vb_schema_json b \<noteq> None"
proof -
  from assms obtain p0 where p0: "engine_of E K b layout p0"
    "p = p0 \<or> (\<exists>registry. p = with_label_registry M p0 registry)"
    by (auto simp: prepare_engine_with_layout_Inr_iff split: if_splits)
  from p0(1) have "is_enforcing p0 \<longleftrightarrow> vb_schema_json b \<noteq> None"
    by (cases p0) (auto simp: engine_of_def is_enforcing_def)
  with p0(2) show ?thesis by auto
qed

lemma stores_Inr_iff:
  "prepare_engine_with_policy_stores E K M b = Inr p \<longleftrightarrow>
     (\<exists>stores l0 l.
        list_all2 (\<lambda>m s. ec_store_config K (mr_name m) (mr_namespace m) = Inr s)
          (filter (\<lambda>m. mr_role m = Ordinary) (vb_modules b)) stores \<and>
        ec_layout K stores = Inr l0 \<and>
        ec_with_global_policy_ids K l0
          (concat (map mr_policy_ids (filter (\<lambda>m. mr_role m = Global) (vb_modules b)))) = Inr l \<and>
        prepare_engine_with_layout E K M b (Some l) = Inr p)"
  unfolding prepare_engine_with_policy_stores_def
  by (auto simp: result_iff try_map_Inr_iff Let_def)

end
