(* ===== verification/Sample.thy ===== *)
theory Sample
  imports Sample_Json Cli_Correct Engine "HOL-Library.Code_Target_Nat"
begin

text \<open>
  Libraries and a file system on which the documented behaviour holds, with an organization of one
  module: a policy, a schema and a label document.  Concrete instances of the properties use them.
\<close>

section \<open>Libraries\<close>

definition sample_crypto :: crypto where
  "sample_crypto =
     \<lparr>cr_sha256 = (\<lambda>b. [char_of (length b)]), cr_b64_encode = to_hex,
      cr_b64_decode = (\<lambda>s. case from_hex s of None \<Rightarrow> Inl ''not base64'' | Some b \<Rightarrow> Inr b),
      cr_signature_from_slice = Inr, cr_sign = (\<lambda>k m. k @ [char_of (length m)]),
      cr_verifying_key = (\<lambda>k. k), cr_verify_strict = (\<lambda>k m s. s = k @ [char_of (length m)]),
      cr_is_weak = (\<lambda>k. k = []), cr_public_from_pem = Inr,
      cr_document_from_pem = (\<lambda>pem. Inr (PRIVATE_KEY_LABEL, pem)), cr_key_from_der = Inr,
      cr_key_from_encrypted_der = (\<lambda>d p. Inr d)\<rparr>"

text \<open>A tar stream: each member is its path and contents, every byte after a mark.\<close>

fun put_bytes :: "bytes \<Rightarrow> bytes" where
  "put_bytes [] = ''.''"
| "put_bytes (c # s) = CHR ''x'' # c # put_bytes s"

fun get_bytes :: "bytes \<Rightarrow> (bytes \<times> bytes) option" where
  "get_bytes [] = None"
| "get_bytes [c] = (if c = CHR ''.'' then Some ([], []) else None)"
| "get_bytes (c # d # s) =
     (if c = CHR ''.'' then Some ([], d # s) else map_option (\<lambda>(b, r). (d # b, r)) (get_bytes s))"

definition put_member :: "tar_member \<Rightarrow> bytes" where
  "put_member m = (case m of (h, p, c) \<Rightarrow> ''m'' @ put_bytes p @ put_bytes c)"

definition entry_of :: "string \<Rightarrow> bytes \<Rightarrow> string + tar_entry" where
  "entry_of p c = Inr \<lparr>te_regular = True, te_path = Inr p, te_contents = Inr c\<rparr>"

fun get_entries :: "bytes \<Rightarrow> bytes \<Rightarrow> string + (string + tar_entry) list" where
  "get_entries [] t = (if t = [] then Inr [] else Inl ''not a tar'')"
| "get_entries (_ # f) t =
     (case t of [] \<Rightarrow> Inr []
      | _ # t \<Rightarrow>
          (case get_bytes t of None \<Rightarrow> Inl ''not a tar''
           | Some (p, t) \<Rightarrow>
               (case get_bytes t of None \<Rightarrow> Inl ''not a tar''
                | Some (c, t) \<Rightarrow> map_ok (Cons (entry_of p c)) (get_entries f t))))"

definition sample_codec :: codec where
  "sample_codec =
     \<lparr>cx_gunzip = (\<lambda>b. \<lparr>gz_output = b, gz_error = None, gz_position = length b\<rparr>),
      cx_tar_entries = (\<lambda>t e. get_entries t t),
      cx_tar_append_error = (\<lambda>(h, p, c). if length c < 2 ^ 63 then None else Some ''too large''),
      cx_tar_finish = (\<lambda>ms. Inr (concat (map put_member ms))),
      cx_gzip_finish = Inr\<rparr>"

definition sample_core :: label_core where
  "sample_core =
     \<lparr>lc_target_error = (\<lambda>t a. None), lc_target_json = target_to_json,
      lc_regex_labeler = (\<lambda>t f named. Inr \<lparr>lb_target = t, lb_derive = individual_derive f named\<rparr>)\<rparr>"

text \<open>A regular expression that is its own text.\<close>

definition sample_lang :: "string \<Rightarrow> regex" where
  "sample_lang s = (\<lambda>t. t = s)"

definition sample_regex :: regex_lib where
  "sample_regex = \<lparr>rx_build = (\<lambda>a b s. Inr (sample_lang s)),
                   rx_build_set = (\<lambda>a b ss. Inr (set_matches sample_lang ss))\<rparr>"

section \<open>One module\<close>

definition sample_policy :: policy where
  "sample_policy =
     \<lparr>p_id = ''policy0'', p_text = ''permit'', p_annotation_id = Some ''docs.read'', p_static = True,
      p_pst = Inr \<lparr>pb_principal = ScopeAny, pb_action = ActionEq \<lparr>uid_type = ''Docs::Action'', uid_id = ''read''\<rparr>,
                   pb_resource = ScopeIs ''Docs::Doc'',
                   pb_clauses = [When (EIs EOther ''Docs::User'' None)]\<rparr>\<rparr>"

definition sample_policies :: policy_set where
  "sample_policies = \<lparr>ps_templates = 0, ps_policies = [sample_policy]\<rparr>"

text \<open>The text of a policy set: one policy per line, blank lines and comment lines between them.\<close>

fun split_lines :: "string \<Rightarrow> string list" where
  "split_lines [] = [[]]"
| "split_lines (c # s) =
     (if c = LF then [] # split_lines s
      else case split_lines s of [] \<Rightarrow> [[c]] | l # ls \<Rightarrow> (c # l) # ls)"

definition code_lines :: "string \<Rightarrow> string list" where
  "code_lines s = filter (\<lambda>l. l \<noteq> [] \<and> \<not> starts_with l ''//'') (split_lines s)"

definition sample_parse :: "string \<Rightarrow> string + policy_set" where
  "sample_parse s =
     (if list_all (\<lambda>l. l = ''permit'') (code_lines s)
      then Inr \<lparr>ps_templates = 0, ps_policies = map (\<lambda>_. sample_policy) (code_lines s)\<rparr>
      else Inl ''unexpected token'')"

definition string_type :: json where
  "string_type = JObject [(''type'', JString ''String'')]"

definition sample_schema_json :: json where
  "sample_schema_json =
     JObject [(''Docs'', JObject
       [(''entityTypes'', JObject [(''Doc'', JObject
           [(''shape'', JObject [(''type'', JString ''EntityOrCommon''), (''name'', JString ''Shape'')])])]),
        (''actions'', JObject []),
        (''commonTypes'', JObject [(''Shape'', JObject
           [(''type'', JString ''Record''),
            (''attributes'', JObject
               [(''title'', string_type),
                (''labels'', JObject [(''type'', JString ''Set''), (''element'', string_type)])])])])])]"

definition sample_schema :: schema where
  "sample_schema =
     \<lparr>sc_entity_types = [''Docs::Doc''], sc_validate = (\<lambda>ps. \<lparr>vr_errors = [], vr_warnings = []\<rparr>)\<rparr>"

definition sample_fragment :: fragment where
  "sample_fragment = \<lparr>fr_json = Inr sample_schema_json, fr_schema = Inr sample_schema\<rparr>"

definition sample_cedar :: cedar where
  "sample_cedar =
     \<lparr>cd_parse_name = (\<lambda>s. if cedar_path_from False s
                            then Some (case rsplit_once_colons s of None \<Rightarrow> ([], s) | Some parts \<Rightarrow> parts)
                            else None),
      cd_parse_policies = sample_parse,
      cd_add_policy = (\<lambda>ps p. Inr (ps\<lparr>ps_policies := ps_policies ps @ [p]\<rparr>)),
      cd_schema_from_json = (\<lambda>j. Inr sample_schema),
      cd_fragment_from_json = (\<lambda>s. Inr sample_fragment),
      cd_fragment_from_cedar = (\<lambda>s. Inl ''unsupported'')\<rparr>"

definition sample_labels_json :: json where
  "sample_labels_json =
     JArray [JObject
       [(''target'', JObject [(''resource_type'', JString ''Docs::Doc''), (''attribute'', JString ''labels'')]),
        (''field'', JString ''title''),
        (''patterns'', JArray [JObject [(''name'', JString ''draft''), (''regex'', JString ''draft'')]])]]"

definition sample_files :: "(string \<times> bytes) list" where
  "sample_files =
     [(''/org/bundle.toml'', ''bundle''), (''/org/docs/module.toml'', ''module''),
      (''/org/docs/read.cedar'', ''permit''), (''/org/docs/schema.json'', ''{}''),
      (''/org/docs/labels.json'', put_json sample_labels_json @ [LF]), (''/org/key.pub'', ''k'')]"

definition sample_fs :: file_system where
  "sample_fs =
     \<lparr>fs_read = (\<lambda>p. case map_of sample_files p of None \<Rightarrow> Inl (Os_error ''not found'') | Some b \<Rightarrow> Inr b),
      fs_canonicalize = (\<lambda>p. if map_of sample_files p = None then Inl (Os_error ''not found'') else Inr p),
      fs_is_file = (\<lambda>p. map_of sample_files p \<noteq> None),
      fs_io_text = (\<lambda>e. ''i/o error'')\<rparr>"

definition sample_module :: raw_module_manifest where
  "sample_module =
     \<lparr>rm_format_version = 2, rm_name = ''docs'', rm_namespace = ''Docs'', rm_imports = [],
      rm_policies = [''read.cedar''], rm_schemas = [''schema.json''], rm_labels = [''labels.json'']\<rparr>"

definition sample_bundle :: raw_bundle_manifest where
  "sample_bundle =
     \<lparr>rb_format_version = 2, rb_name = ''org'',
      rb_modules = [\<lparr>rs_manifest = ''docs/module.toml'', rs_role = Ordinary\<rparr>]\<rparr>"

definition sample_source :: source_env where
  "sample_source =
     \<lparr>se_fs = sample_fs, se_toml_module = (\<lambda>s. Inr sample_module), se_toml_bundle = (\<lambda>s. Inr sample_bundle),
      se_cedar = sample_cedar\<rparr>"

definition sample_compile :: compile_env where
  "sample_compile =
     \<lparr>ce_source = sample_source,
      ce_labels = \<lparr>le_regex = sample_regex, le_core = sample_core, le_json = sample_json\<rparr>\<rparr>"

definition sample_archive :: archive_env where
  "sample_archive = \<lparr>ar_compile = sample_compile, ar_crypto = sample_crypto, ar_codec = sample_codec\<rparr>"

lemmas sample_defs = sample_archive_def sample_compile_def sample_source_def

section \<open>The documented behaviour holds\<close>

lemma sample_crypto_documented: "crypto_documented sample_crypto" "base64_text sample_crypto"
  by (simp_all add: crypto_documented_def base64_text_def sample_crypto_def)

lemma get_put_bytes [simp]: "get_bytes (put_bytes s @ r) = Some (s, r)"
  by (induction s) (cases r, simp_all)

lemma get_put_entries:
  "length ms \<le> length f \<Longrightarrow>
     get_entries f (concat (map put_member ms)) = Inr (map (\<lambda>(h, p, c). entry_of p c) ms)"
proof (induction ms arbitrary: f)
  case Nil
  then show ?case by (cases f) simp_all
next
  case (Cons m ms)
  then show ?case by (cases f; cases m) (auto simp: put_member_def)
qed

lemma length_put_members: "length ms \<le> length (concat (map put_member ms))"
  by (induction ms) (auto simp: put_member_def split: prod.split)

lemma sample_codec_documented: "codec_documented sample_codec"
proof -
  have "cx_tar_entries sample_codec (concat (map put_member ms)) None =
      Inr (map (\<lambda>(h, p, c). Inr \<lparr>te_regular = True, te_path = Inr p, te_contents = Inr c\<rparr>) ms)" for ms
    by (simp add: sample_codec_def get_put_entries [OF length_put_members] entry_of_def)
  then show ?thesis
    by (auto simp: codec_documented_def) (auto simp: sample_codec_def split: if_splits)
qed

lemma sample_core_documented: "core_documented sample_core"
  by (simp add: core_documented_def sample_core_def)

lemma sample_regex_documented: "regex_documented sample_regex sample_lang"
  by (simp add: regex_documented_def sample_regex_def)

lemma sample_libraries: "libraries_documented sample_archive"
  by (simp add: libraries_documented_def sample_defs sample_json_documented sample_core_documented
      sample_crypto_documented sample_codec_documented)

lemma sample_names: "names_documented sample_cedar"
  by (auto simp: names_documented_def sample_cedar_def cedar_path_from_cedar_path split: if_splits)

lemma sample_schema_shaped: "schema_shaped sample_schema_json"
  by (simp add: sample_schema_json_def object_of_def is_section_def)

lemma sample_schema_documented: "schema_documented sample_compile"
  by (auto simp: schema_documented_def parse_schema_fragment_def sample_defs sample_cedar_def
      sample_fragment_def sample_schema_shaped split: if_splits sum.splits)

text \<open>The lines of a text that is followed by another, and of a comment.\<close>

lemma split_lines_nonempty: "split_lines s \<noteq> []"
  by (induction s) (auto split: list.splits)

lemma split_lines_append: "split_lines (t @ LF # u) = split_lines t @ split_lines u"
proof (induction t)
  case (Cons c t)
  then show ?case using split_lines_nonempty [of t] by (auto split: list.splits)
qed simp

lemma split_lines_one: "LF \<notin> set c \<Longrightarrow> split_lines c = [c]"
  by (induction c) auto

lemma code_lines_append: "code_lines (t @ LF # u) = code_lines (t @ [LF]) @ code_lines u"
  using split_lines_append [of t u] split_lines_append [of t "[]"] by (simp add: code_lines_def)

lemma code_lines_comment: "LF \<notin> set c \<Longrightarrow> code_lines (''//'' @ c @ LF # t) = code_lines t"
  using split_lines_append [of "''//'' @ c" t] split_lines_one [of "''//'' @ c"]
  by (simp add: code_lines_def starts_with_def)

lemma sample_parse_Inr_iff:
  "sample_parse s = Inr ps \<longleftrightarrow> list_all (\<lambda>l. l = ''permit'') (code_lines s) \<and>
     ps = \<lparr>ps_templates = 0, ps_policies = map (\<lambda>_. sample_policy) (code_lines s)\<rparr>"
  by (auto simp: sample_parse_def)

lemma sample_cedar_documented: "cedar_documented sample_cedar"
proof -
  have "\<exists>ps. sample_parse [] = Inr ps \<and> holds ps {#}"
    by (simp add: sample_parse_Inr_iff code_lines_def)
  moreover have "\<exists>qs. sample_parse (''//'' @ c @ LF # t) = Inr qs \<and> holds qs (policies_in (ps_policies ps))"
    if "LF \<notin> set c" "sample_parse t = Inr ps" for c t ps
    using that(2) by (simp only: sample_parse_Inr_iff code_lines_comment [OF that(1)]) simp
  moreover have "\<exists>rs. sample_parse (t @ LF # u) = Inr rs \<and>
      holds rs (policies_in (ps_policies ps) + policies_in (ps_policies qs))"
    if "sample_parse (t @ [LF]) = Inr ps" "sample_parse u = Inr qs" for t u ps qs
    using that by (simp add: sample_parse_Inr_iff code_lines_append [of t u])
  ultimately have "texts_documented sample_cedar"
    unfolding texts_documented_def sample_cedar_def cedar.simps by blast
  moreover have "sets_documented sample_cedar" by (auto simp: sets_documented_def sample_cedar_def)
  moreover have "schemas_documented sample_cedar"
    by (simp add: schemas_documented_def sample_cedar_def policy_set_valid_def sample_schema_def)
  ultimately show ?thesis by (simp add: cedar_documented_def)
qed

lemma sample_compile_cedar: "ce_cedar sample_compile = sample_cedar"
  by (simp add: sample_compile_def sample_source_def)

section \<open>The bundle of the module\<close>

definition sample_rule :: label_rule where
  "sample_rule =
     \<lparr>lr_field = ''title'', lr_patterns = [\<lparr>lp_name = ''draft'', lp_regex = ''draft''\<rparr>],
      lr_runtime =
        \<lparr>lb_target = \<lparr>lt_resource_type = ''Docs::Doc'', lt_attribute = ''labels''\<rparr>,
         lb_derive = individual_derive ''title'' [(''draft'', sample_lang ''draft'')]\<rparr>\<rparr>"

definition sample_record :: module_record where
  "sample_record =
     \<lparr>mr_name = ''docs'', mr_namespace = ''Docs'', mr_imports = [], mr_role = Ordinary,
      mr_policy_ids = [''docs.read'']\<rparr>"

definition sample_parts :: bundle_parts where
  "sample_parts =
     \<lparr>bp_name = ''org'', bp_modules = [sample_record],
      bp_policies = ''// treetop-module: docs; path: read.cedar'' @ [LF] @ ''permit'' @ [LF],
      bp_schema_json = Some sample_schema_json, bp_labels = [sample_rule],
      bp_policy_ids = [''docs.read''], bp_diagnostics = []\<rparr>"

definition sample_manifest :: bundle_manifest where
  "sample_manifest =
     \<lparr>bun_format_version = 2, bun_name = ''org'',
      bun_modules = [\<lparr>ms_manifest =
        \<lparr>mm_format_version = 2, mm_name = ''docs'', mm_namespace = ''Docs'', mm_imports = [],
         mm_policies = [''read.cedar''], mm_schemas = [''schema.json''], mm_labels = [''labels.json''],
         mm_path = ''/org/docs/module.toml'', mm_directory = ''/org/docs''\<rparr>, ms_role = Ordinary\<rparr>],
      bun_path = ''/org/bundle.toml''\<rparr>"

definition sample_builder :: bundle_builder where
  "sample_builder = \<lparr>bb_manifest = sample_manifest, bb_deny_warnings = False\<rparr>"

lemma sample_bundle_from_path: "bundle_from_path sample_source ''/org/bundle.toml'' = Inr sample_manifest"
  by code_simp

lemma sample_from_manifest: "builder_from_manifest sample_compile ''/org/bundle.toml'' = Inr sample_builder"
  by (simp add: builder_from_manifest_def sample_compile_def sample_bundle_from_path sample_builder_def)

lemma sample_compiled: "compile_manifest sample_compile sample_manifest = Inr sample_parts"
proof -
  have "Q (Inr sample_parts) \<longrightarrow> Q (compile_manifest sample_compile sample_manifest)" for Q
    by (code_simp, rule impI, assumption)
  from this [of "\<lambda>x. x = Inr sample_parts"] show ?thesis by simp
qed

lemma sample_archive_parts_accepted:
  "\<exists>ps. cd_parse_policies sample_cedar (bp_policies sample_parts) = Inr ps \<and>
     archive_parts_ok sample_compile (bp_modules sample_parts) ps (map_option sort_json (bp_schema_json sample_parts))
       (bp_labels sample_parts) (bp_policy_ids sample_parts)"
proof -
  have "case validate_archive_parts sample_compile (bp_name sample_parts) (bp_modules sample_parts)
      (bp_policies sample_parts) (map_option sort_json (bp_schema_json sample_parts)) (bp_labels sample_parts)
      (bp_policy_ids sample_parts) of Inr _ \<Rightarrow> True | Inl _ \<Rightarrow> False"
    by code_simp
  then show ?thesis
    by (auto simp: sample_compile_def sample_source_def split: sum.splits
        dest!: validate_archive_parts_Inr(1) [of sample_compile, unfolded sample_compile_def sample_source_def])
qed

lemma sample_printable: "parts_utf8 sample_parts" "printable sample_schema_json"
    "printable (labels_document sample_archive sample_parts)"
  by code_simp+

lemma sample_parts_printable: "parts_printable sample_archive sample_parts"
proof -
  have "bp_schema_json sample_parts = Some sample_schema_json" by (simp add: sample_parts_def)
  then show ?thesis using sample_printable by (simp add: parts_printable_def)
qed

lemma sample_parts_valid: "parts_valid sample_archive sample_parts"
  using compiled_parts_valid [of sample_archive "''/org/bundle.toml''" sample_builder sample_parts]
    sample_compile_cedar
    sample_libraries sample_schema_documented sample_cedar_documented sample_from_manifest sample_compiled
    sample_parts_printable
  by (simp add: sample_archive_def sample_builder_def)

end
