(* ===== verification/Sample_Build.thy ===== *)
theory Sample_Build
  imports Sample
begin

text \<open>
  The sample bundle builds, signed or not, and stays within the default limits; a command-line
  environment over it.
\<close>

lemma length_put_bytes [simp]: "length (put_bytes s) = 1 + 2 * length s"
  by (induction s) simp_all

lemma length_put_member: "length (put_member (member_of (p, c))) = 3 + 2 * length p + 2 * length c"
  by (simp add: put_member_def member_of_def)

lemma sample_encode:
  assumes "\<forall>(p, c) \<in> set (archive_entries d). length p \<le> 20 \<and> length c \<le> 10000"
  shows "\<exists>b. encode_archive sample_codec (da_manifest d) (da_signature d) (artifact_entries d) = Inr b \<and>
    length b \<le> 200000"
proof -
  let ?b = "concat (map put_member (map member_of (archive_entries d)))"
  have "\<forall>e \<in> set (archive_entries d). cx_tar_append_error sample_codec (member_of e) = None"
    using assms by (fastforce simp: sample_codec_def member_of_def split: prod.splits)
  moreover have "cx_tar_finish sample_codec (map member_of (archive_entries d)) = Inr ?b"
    "cx_gzip_finish sample_codec ?b = Inr ?b"
    by (simp_all add: sample_codec_def)
  ultimately have "encode_archive sample_codec (da_manifest d) (da_signature d) (artifact_entries d) = Inr ?b"
    unfolding encode_archive_Inr_iff by blast
  moreover have "length (put_member (member_of e)) \<le> 20043" if "e \<in> set (archive_entries d)" for e
  proof -
    obtain p c where "e = (p, c)" by fastforce
    with assms that show ?thesis by (auto simp: length_put_member)
  qed
  then have "length (concat (map (\<lambda>e. put_member (member_of e)) (archive_entries d))) \<le>
      sum_list (map (\<lambda>e. 20043) (archive_entries d))" by (rule length_concat_le)
  then have "length ?b \<le> 20043 * length (archive_entries d)"
    by (simp add: comp_def sum_list_triv)
  moreover have "length (archive_entries d) \<le> 5"
    by (auto simp: archive_entries_def artifact_entries_def split: option.split)
  ultimately show ?thesis by (intro exI [of _ ?b]) auto
qed

lemma json_size_uint: "json_size (encode_uint (of_nat n :: u64)) \<le> 2 + n" "json_size (encode_uint (2 :: u32)) = 4"
proof -
  have "n mod 2 ^ 64 \<le> n" by simp
  then show "json_size (encode_uint (of_nat n :: u64)) \<le> 2 + n" by (simp add: encode_uint_def unat_of_nat)
  show "json_size (encode_uint (2 :: u32)) = 4" by code_simp
qed

lemma json_size_artifact:
  "json_size (artifact_to_json (artifact_of sample_crypto (p, c))) \<le> 60 + 2 * length p + length c"
  using json_size_uint(1) [of "length c"]
  by (simp add: artifact_to_json_def artifact_of_def sha256_hex_def sample_crypto_def hex_byte_def del: of_nat_add)

lemma json_size_manifest:
  assumes "length i = 2" "\<forall>(p, c) \<in> set data. length p \<le> 20 \<and> length c \<le> 1000" "length data \<le> 3"
  shows "json_size (manifest_to_json ((manifest_of sample_crypto sample_parts data)\<lparr>am_bundle_id := i\<rparr>)) \<le> 8000"
proof -
  have "json_size (artifact_to_json (artifact_of sample_crypto e)) \<le> 1100" if "e \<in> set data" for e
  proof -
    obtain p c where "e = (p, c)" by fastforce
    with assms(2) that json_size_artifact [of p c] show ?thesis by auto
  qed
  then have "sum_list (map (\<lambda>e. 1 + json_size (artifact_to_json (artifact_of sample_crypto e))) data) \<le>
      sum_list (map (\<lambda>e. 1101) data)" by (intro sum_list_mono) simp
  then have "sum_list (map (\<lambda>e. 1 + json_size (artifact_to_json (artifact_of sample_crypto e))) data) \<le> 3303"
    using assms(3) by (simp add: sum_list_triv)
  moreover have "json_size (generator_to_json this_generator) \<le> 200"
    by (simp add: generator_to_json_def this_generator_def PKG_VERSION_def TREETOP_CORE_VERSION_def CEDAR_VERSION_def)
  moreover have "json_size (module_to_json sample_record) \<le> 300"
    by (simp add: module_to_json_def sample_record_def strings_to_json_def role_to_json_def)
  ultimately show ?thesis
    using assms(1) json_size_uint(2)
    by (simp add: manifest_to_json_def manifest_members_def manifest_of_def sample_parts_def comp_def
        strings_to_json_def FORMAT_VERSION_def)
qed

lemma sample_signature:
  "\<exists>s. signature_document sample_archive ''k'' m = Inr s \<and> length s \<le> 1000"
proof -
  let ?s = "signature_to_json (sign_manifest sample_crypto ''k'' m)"
  have "json_size ?s \<le> 900"
    using json_size_uint(2)
    by (simp add: signature_to_json_def sign_manifest_def FORMAT_VERSION_def key_id_def sample_crypto_def hex_byte_def)
  then show ?thesis
    using length_canonical [of ?s] by (simp add: signature_document_def sample_defs sample_canonical)
qed

lemma sample_signatures:
  assumes "key \<in> {None, Some ''k''}"
  obtains sig where "transpose (map_option (\<lambda>k. signature_document sample_archive k m) key) = Inr sig"
    and "\<forall>s. sig = Some s \<longrightarrow> length s \<le> 1000"
proof (cases key)
  case None
  with that [of None] show thesis by simp
next
  case (Some k)
  moreover obtain s where "signature_document sample_archive ''k'' m = Inr s" "length s \<le> 1000"
    using sample_signature by blast
  ultimately show thesis using assms that [of "Some s"] by simp
qed

text \<open>The three artifacts of the sample bundle are small.\<close>

definition sample_data :: "(string \<times> bytes) list" where
  "sample_data = [(POLICIES_PATH, bp_policies sample_parts), (SCHEMA_PATH, put_json (sort_json sample_schema_json) @ [LF]),
     (LABELS_PATH, put_json (sort_json (labels_document sample_archive sample_parts)) @ [LF])]"

lemma sample_data_small:
  "\<forall>(p, c) \<in> set sample_data. length p \<le> 20 \<and> length c \<le> 1000" "length sample_data \<le> 3"
proof -
  have "json_size sample_schema_json \<le> 900" by (simp add: sample_schema_json_def string_type_def)
  moreover have "json_size (labels_document sample_archive sample_parts) \<le> 900"
    by (simp add: sample_defs sample_parts_def label_set_to_json_def rule_to_json_def pattern_to_json_def
        sample_core_def sample_rule_def target_to_json_def)
  moreover have "length (bp_policies sample_parts) \<le> 1000" by (simp add: sample_parts_def)
  ultimately show "\<forall>(p, c) \<in> set sample_data. length p \<le> 20 \<and> length c \<le> 1000" "length sample_data \<le> 3"
    using length_canonical [of sample_schema_json] length_canonical [of "labels_document sample_archive sample_parts"]
    by (simp_all add: sample_data_def POLICIES_PATH_def SCHEMA_PATH_def LABELS_PATH_def)
qed

lemma sample_build:
  assumes "key \<in> {None, Some ''k''}"
  shows "\<exists>b. build sample_archive sample_parts key = Inr b \<and> length b \<le> 200000"
proof -
  let ?C = "\<lambda>v. put_json (sort_json v) @ [LF]"
  have J: "ar_json sample_archive = sample_json" and X: "ar_crypto sample_archive = sample_crypto"
    and K: "ar_codec sample_archive = sample_codec"
    by (simp_all add: sample_defs)
  define d0 where "d0 = \<lparr>da_manifest = [], da_signature = None, da_policies = bp_policies sample_parts,
    da_schema = Some (?C sample_schema_json), da_labels = ?C (labels_document sample_archive sample_parts)\<rparr>"
  have data: "artifact_entries d0 = sample_data"
    by (simp add: d0_def artifact_entries_def sample_data_def)
  let ?m = "manifest_of sample_crypto sample_parts sample_data"
  obtain i where i: "compute_bundle_id sample_archive ?m = Inr i" "length i = 2"
    by (simp add: compute_bundle_id_def J X sample_canonical sha256_hex_def sample_crypto_def hex_byte_def)
  define mb where "mb = ?C (manifest_to_json (?m\<lparr>am_bundle_id := i\<rparr>))"
  have mb: "length mb \<le> 9000"
    using json_size_manifest [OF i(2) sample_data_small]
      length_canonical [of "manifest_to_json (?m\<lparr>am_bundle_id := i\<rparr>)"]
    by (simp add: mb_def)
  obtain sig where sig: "transpose (map_option (\<lambda>k. signature_document sample_archive k mb) key) = Inr sig"
    "\<forall>s. sig = Some s \<longrightarrow> length s \<le> 1000"
    using sample_signatures [OF assms] .
  define d where "d = d0\<lparr>da_manifest := mb, da_signature := sig\<rparr>"
  have e: "artifact_entries d = sample_data" by (simp add: data [symmetric] d_def artifact_entries_def)
  have f: "da_manifest d = mb" "da_signature d = sig" by (simp_all add: d_def)
  have "\<forall>(p, c) \<in> set (archive_entries d). length p \<le> 20 \<and> length c \<le> 10000"
    using sample_data_small(1) mb sig(2)
    by (fastforce simp: archive_entries_def e f MANIFEST_PATH_def SIGNATURE_PATH_def split: option.splits)
  from sample_encode [OF this] obtain b where
    b: "encode_archive sample_codec mb sig sample_data = Inr b" "length b \<le> 200000"
    unfolding e f by blast
  have "bp_schema_json sample_parts = Some sample_schema_json" by (simp add: sample_parts_def)
  then have "build sample_archive sample_parts key = Inr b"
    using b(1) i(1) sig(1) unfolding build_def Let_def J X K
    by (simp add: sample_canonical sample_data_def [symmetric] mb_def [symmetric])
  with b(2) show ?thesis by blast
qed

lemma sample_within_limits:
  "length b \<le> 300000 \<Longrightarrow> within_limits sample_codec b archive_limits_default"
  by (simp add: within_limits_def sample_codec_def archive_limits_default_def)

section \<open>Signing\<close>

definition sample_store :: trust_store where
  "sample_store = [(key_id sample_crypto ''k'', \<lparr>tk_key_id = key_id sample_crypto ''k'', tk_key = ''k''\<rparr>)]"

lemma sample_store_ok: "trust_ok sample_crypto sample_store"
  "from_keys [\<lparr>tk_key_id = key_id sample_crypto ''k'', tk_key = ''k''\<rparr>] = Inr sample_store"
  "trusted_key_ok sample_crypto \<lparr>tk_key_id = key_id sample_crypto ''k'', tk_key = ''k''\<rparr>"
  by (auto simp: trust_ok_def sample_store_def trusted_key_ok_def sample_crypto_def from_keys_def
      trust_insert_def from_keys_def bm_insert.simps)

lemma sample_signer_trusted:
  "signer_trusted sample_crypto Required sample_store (Some ''k'')"
  "signer_trusted sample_crypto AllowUnsigned [] None"
  by (simp_all add: signer_trusted_def sample_store_ok)
    (simp_all add: trusted_bytes_def sample_store_def sample_crypto_def)

lemma sample_encode_iff:
  "encode_archive sample_codec (da_manifest d) (da_signature d) (artifact_entries d) = Inr b \<longleftrightarrow>
     (\<forall>(p, c) \<in> set (archive_entries d). length c < 2 ^ 63) \<and>
     b = concat (map (\<lambda>e. put_member (member_of e)) (archive_entries d))"
  unfolding encode_archive_Inr_iff by (auto simp: sample_codec_def member_of_def comp_def split: if_splits)

lemma sample_resign:
  assumes "build sample_archive sample_parts None = Inr b" "length b \<le> 200000"
  shows "\<exists>b'. resign sample_archive b ''k'' archive_limits_default = Inr b' \<and> length b' \<le> 300000"
proof -
  let ?K = "ar_codec sample_archive"
  have K: "?K = sample_codec" "codec_documented ?K"
    by (simp_all add: sample_defs sample_codec_documented)
  from build_Inr [OF assms(1)] obtain d m where d: "built sample_archive sample_parts None d m"
    and enc: "encode_archive ?K (da_manifest d) (da_signature d) (artifact_entries d) = Inr b"
    by blast
  have w: "within_limits ?K b archive_limits_default" using assms(2) by (simp add: K sample_within_limits)
  from build_accepted [OF sample_libraries sample_parts_valid assms(1) w, of AllowUnsigned "[]"]
  obtain vb where "validate sample_archive b AllowUnsigned [] archive_limits_default = Inr vb"
    using sample_signer_trusted(2) by (auto simp: sample_defs)
  then obtain d' m' vs parts where d': "decoded_from ?K b archive_limits_default d'"
    and a: "signature_accepted sample_archive d' AllowUnsigned [] True vs" "manifest_describes sample_archive d' m'"
      "contents_accepted sample_archive d' m' parts"
    by (auto simp: validate_Inr_iff archive_accepted_def)
  have dd: "d' = d" using decoded_unique [OF d' encode_decoded_from [OF K(2) enc w]] .
  have "da_signature d = None" using d by (simp add: built_def)
  with a(1) have vs: "signature_accepted sample_archive d AllowUnsigned [] False vs"
    by (simp add: dd signature_accepted_def)
  obtain s where s: "signature_document sample_archive ''k'' (da_manifest d) = Inr s" "length s \<le> 1000"
    using sample_signature by blast
  let ?d = "d\<lparr>da_signature := Some s\<rparr>"
  let ?b = "concat (map (\<lambda>e. put_member (member_of e)) (archive_entries ?d))"
  from enc have b: "\<forall>(p, c) \<in> set (archive_entries d). length c < 2 ^ 63"
    "b = concat (map (\<lambda>e. put_member (member_of e)) (archive_entries d))"
    by (simp_all add: K(1) sample_encode_iff)
  have es: "archive_entries ?d = (MANIFEST_PATH, da_manifest d) # (SIGNATURE_PATH, s) # artifact_entries d"
    "archive_entries d = (MANIFEST_PATH, da_manifest d) # artifact_entries d"
    using \<open>da_signature d = None\<close> by (simp_all add: archive_entries_def artifact_entries_def)
  have "length ?b = length b + length (put_member (member_of (SIGNATURE_PATH, s)))"
    by (simp add: es b(2))
  with assms(2) s(2) have len: "length ?b \<le> 300000" by (simp add: length_put_member SIGNATURE_PATH_def)
  have "encode_archive ?K (da_manifest ?d) (da_signature ?d) (artifact_entries ?d) = Inr ?b"
    using b(1) s(2) unfolding K(1) sample_encode_iff by (simp add: es)
  then have e: "encode_archive ?K (da_manifest d) (Some s) (artifact_entries d) = Inr ?b"
    by (simp add: artifact_entries_def)
  have "resign sample_archive b ''k'' archive_limits_default = Inr ?b"
    unfolding resign_def and_then_Inr decode_archive_Inr_iff
    using d' a vs s(1) e unfolding dd by (auto simp: validate_decoded_Inr_iff)
  with len show ?thesis by blast
qed

section \<open>A command-line environment\<close>

definition sample_cli :: cli_env where
  "sample_cli =
     \<lparr>ci_archive = sample_archive,
      ci_open = (\<lambda>p. case map_of (sample_files @ [(''/org/key.pem'', ''k''), (''/org/password'', ''secret'' @ [LF])]) p of
          None \<Rightarrow> Inl (Os_error ''not found'')
        | Some b \<Rightarrow> Inr \<lparr>of_metadata = Inr \<lparr>md_is_file = True, md_mode = 0x180, md_len = of_nat (length b)\<rparr>,
                        of_contents = Inr b\<rparr>),
      ci_exists = (\<lambda>p. map_of sample_files p \<noteq> None),
      ci_create = (\<lambda>p. if map_of sample_files p \<noteq> None then Inl (Os_error ''exists'') else Inr ()),
      ci_write_all = (\<lambda>p b. (length b, None)),
      ci_env_password = NotPresent, ci_prompt = Inr ''secret'',
      ci_format = (\<lambda>m. ''message'')\<rparr>"

lemma sample_files_documented: "files_documented sample_cli"
  by (auto simp: files_documented_def sample_cli_def split: if_splits)


section \<open>An engine\<close>

text \<open>The world is the generation of the policies; a session keeps the one it was opened in.\<close>

definition sample_ops :: "(nat, string, nat, unit) engine_ops" where
  "sample_ops =
     \<lparr>eo_with_label_registry = (\<lambda>x _. x), eo_session = (\<lambda>w x. w), eo_current_version = (\<lambda>w x. show_nat w),
      eo_policy_store_ids = (\<lambda>w x. None), eo_list_policies_for_user = (\<lambda>w x u gs ns. Inr []),
      eo_evaluate = (\<lambda>w x r. Inr (even w)), eo_evaluate_with_context = (\<lambda>w x r c. Inr (even w)),
      es_version = (\<lambda>w s. show_nat s), es_evaluate = (\<lambda>w s r. Inr (even s)),
      es_evaluate_with_context = (\<lambda>w s r c. Inr (even s))\<rparr>"

definition sample_engine :: "(string, string, string, string list, nat, unit) engine_core" where
  "sample_engine =
     \<lparr>ec_new_from_str = Inr, ec_new_with_stores = (\<lambda>p l. Inr p), ec_new_with_schema = (\<lambda>p s. Inr p),
      ec_new_with_schema_and_stores = (\<lambda>p s l. Inr p), ec_store_config = (\<lambda>n ns. Inr n),
      ec_layout = Inr, ec_with_global_policy_ids = (\<lambda>l ids. Inr l), ec_versioned = length,
      ec_add_labeler = (\<lambda>n l. Suc n), ec_build_registry = (\<lambda>n. Inr ())\<rparr>"

definition sample_validated :: validated_bundle where
  "sample_validated =
     \<lparr>vb_format_version = 2, vb_bundle_id = ''id'', vb_name = ''org'', vb_modules = [sample_record],
      vb_policies = bp_policies sample_parts, vb_schema_json = Some sample_schema_json,
      vb_labels = [sample_rule], vb_policy_ids = [''docs.read''], vb_diagnostics = [],
      vb_archive_sha256 = ''00'', vb_compressed_size = 0, vb_signature = \<lparr>vs_signed = False, vs_key_id = None\<rparr>\<rparr>"

section \<open>Modules whose namespaces overlap\<close>

text \<open>\<open>A\<close> owns \<open>A::B\<close>, but \<open>A1\<close> sorts between them.\<close>

definition module_at :: "string \<Rightarrow> module_selection" where
  "module_at ns =
     \<lparr>ms_manifest =
        \<lparr>mm_format_version = 2, mm_name = ns, mm_namespace = ns, mm_imports = [], mm_policies = [],
         mm_schemas = [], mm_labels = [], mm_path = ''/org/module.toml'', mm_directory = ''/org''\<rparr>,
      ms_role = Ordinary\<rparr>"

definition shadowed_modules :: "module_selection list" where
  "shadowed_modules = map module_at [''A'', ''A::B'', ''A1'']"

end
