(* ===== verification/Sample_Run.thy ===== *)
theory Sample_Run
  imports Sample_Build
begin

text \<open>
  Further concrete inputs over the sample bundle: its archive built and described, a manifest that
  selects a module twice, two modules with their own namespaces, a schema whose common type names
  itself, and runs of the command-line tool.
\<close>

lemmas sample_env = sample_libraries sample_schema_documented sample_from_manifest sample_compiled
  sample_cedar_documented sample_parts_printable sample_builder_def sample_store_ok sample_signer_trusted

lemma sample_parts_of [simp]:
  "ar_compile sample_archive = sample_compile" "ar_crypto sample_archive = sample_crypto"
  "ar_codec sample_archive = sample_codec" "ce_source sample_compile = sample_source"
  "se_cedar sample_source = sample_cedar" "se_fs sample_source = sample_fs"
  "le_json (ce_labels sample_compile) = sample_json" "le_core (ce_labels sample_compile) = sample_core"
  "le_regex (ce_labels sample_compile) = sample_regex"
  by (simp_all add: sample_defs)

lemma sample_builder_build:
  assumes "key \<in> {None, Some ''k''}"
  shows "\<exists>a. builder_build sample_archive (deny_warnings sample_builder True) key = Inr a \<and>
    within_limits sample_codec a archive_limits_default"
proof -
  obtain a where a: "build sample_archive sample_parts key = Inr a" "length a \<le> 200000"
    using sample_build [OF assms] by blast
  have "builder_build sample_archive (deny_warnings sample_builder True) key = Inr a"
    using a(1) by (simp add: builder_build_def deny_warnings_def sample_builder_def sample_compiled
        and_then_def ensure_def has_warning_def sample_parts_def)
  with a(2) sample_within_limits show ?thesis by auto
qed

lemma sample_described: "\<exists>d m. built sample_archive sample_parts None d m \<and> manifest_describes sample_archive d m"
proof -
  obtain b where b: "build sample_archive sample_parts None = Inr b" using sample_build [of None] by auto
  from build_Inr [OF b] obtain d m where d: "built sample_archive sample_parts None d m"
    and enc: "encode_archive (ar_codec sample_archive) (da_manifest d) (da_signature d) (artifact_entries d) = Inr b"
    by blast
  have "manifest_describes sample_archive d m"
    using d sample_parts_valid encode_in_memory [OF _ enc] sample_libraries
    by (intro built_describes [of _ sample_parts None]) (simp_all add: parts_valid_def libraries_documented_def)
  with d show ?thesis by blast
qed

definition duplicated_manifest :: bundle_manifest where
  "duplicated_manifest = sample_manifest\<lparr>bun_modules := bun_modules sample_manifest @ bun_modules sample_manifest\<rparr>"

definition two_modules :: source_env where
  "two_modules = sample_source
     \<lparr>se_fs := sample_fs
        \<lparr>fs_read := (\<lambda>p. if p = ''/org/docs/module.toml'' then Inr ''Docs''
                     else if p = ''/org/users/module.toml'' then Inr ''Users'' else Inr ''bundle''),
         fs_canonicalize := Inr\<rparr>,
      se_toml_module := (\<lambda>s. Inr (sample_module
        \<lparr>rm_name := s, rm_namespace := s, rm_policies := [], rm_schemas := [], rm_labels := []\<rparr>)),
      se_toml_bundle := (\<lambda>s. Inr (sample_bundle
        \<lparr>rb_modules := [\<lparr>rs_manifest = ''users/module.toml'', rs_role = Ordinary\<rparr>,
                         \<lparr>rs_manifest = ''docs/module.toml'', rs_role = Ordinary\<rparr>]\<rparr>))\<rparr>"

lemma two_modules_loaded:
  "\<exists>b. bundle_from_path two_modules ''/org/bundle.toml'' = Inr b \<and>
     map ms_namespace (bun_modules b) = [''Docs'', ''Users'']"
proof -
  have "(case bundle_from_path two_modules ''/org/bundle.toml'' of
      Inr b \<Rightarrow> map ms_namespace (bun_modules b) = [''Docs'', ''Users''] | Inl _ \<Rightarrow> False)"
    by code_simp
  then show ?thesis by (auto split: sum.splits)
qed

text \<open>A common type that names itself.\<close>

definition cyclic_schema :: json where
  "cyclic_schema =
     JObject [(''N'', JObject [(''commonTypes'', JObject
       [(''T'', JObject [(''type'', JString ''EntityOrCommon''), (''name'', JString ''T'')])])])]"

lemma cyclic_other_namespace: "a \<noteq> ''N'' \<Longrightarrow> common_type cyclic_schema (a, b) = None"
  by (simp add: common_type_def cyclic_schema_def)
lemma cyclic_other_name: "b \<noteq> ''T'' \<Longrightarrow> common_type cyclic_schema (''N'', b) = None"
  by (simp add: common_type_def cyclic_schema_def json_get_def)

lemma cyclic_names: "distinct_names cyclic_schema"
proof -
  have "inj_on qualified_name {(''N'', ''T'')}" by simp
  moreover have "{q. common_type cyclic_schema q \<noteq> None} \<subseteq> {(''N'', ''T'')}"
  proof
    fix q assume "q \<in> {q. common_type cyclic_schema q \<noteq> None}"
    then have q: "common_type cyclic_schema (fst q, snd q) \<noteq> None" by simp
    then have a: "fst q = ''N''" by (rule contrapos_np) (rule cyclic_other_namespace)
    from q have "snd q = ''T''" unfolding a by (rule contrapos_np) (rule cyclic_other_name)
    with a show "q \<in> {(''N'', ''T'')}" by (simp add: prod_eq_iff)
  qed
  ultimately show ?thesis unfolding distinct_names_def by (rule inj_on_subset)
qed

lemma sample_cli_archive [simp]: "ci_archive sample_cli = sample_archive"
  by (simp add: sample_cli_def)

lemma sample_check: "check_findings sample_cli (Check_bundle ''/org/bundle.toml'' \<lparr>ca_format = Human, ca_deny_warnings = True\<rparr>) =
  Inr ([], None, None)"
  by (simp add: check_findings_def sample_cli_def sample_from_manifest builder_check_def sample_builder_def
      sample_compiled and_then_def ensure_def has_warning_def sample_parts_def map_ok_def)

definition sample_build_args :: build_args where
  "sample_build_args =
     \<lparr>ba_manifest = ''/org/bundle.toml'', ba_output = ''/org/out.tar.gz'', ba_signing_key = Some ''/org/key.pem'',
      ba_password_file = None, ba_format = Human, ba_deny_warnings = True\<rparr>"

lemma sample_signing_key: "load_signing_key sample_cli ''/org/key.pem'' None = Inr ''k''"
  by code_simp

lemma sample_run_build:
  "\<exists>archive. builder_build sample_archive (deny_warnings sample_builder True) (Some ''k'') = Inr archive \<and>
     run sample_cli (Build sample_build_args) =
       ([Created ''/org/out.tar.gz'' archive, Stdout [Lit ''wrote '', Disp ''/org/out.tar.gz'']], Value (Inr ()))"
proof -
  obtain a where a: "builder_build sample_archive (deny_warnings sample_builder True) (Some ''k'') = Inr a"
    using sample_builder_build by auto
  have "refuse_overwrite sample_cli ''/org/out.tar.gz'' = Inr ()" by code_simp
  moreover have "write_new_file sample_cli ''/org/out.tar.gz'' a = ([Created ''/org/out.tar.gz'' a], Value (Inr ()))"
    by (simp add: write_new_file_def sample_cli_def sample_files_def)
  ultimately have "run sample_cli (Build sample_build_args) =
       ([Created ''/org/out.tar.gz'' a, Stdout [Lit ''wrote '', Disp ''/org/out.tar.gz'']], Value (Inr ()))"
    using a sample_signing_key
    by (simp add: run_def run_build_def sample_build_args_def sample_from_manifest before_def report_built_def
        and_then_def transpose_def map_ok_def del: refuse_overwrite_Inr)
  with a show ?thesis by blast
qed

text \<open>The same bundle, packed without and with a signature.\<close>

lemma sample_two_archives:
  "\<exists>b b' d d' vb vb'. validate sample_archive b AllowUnsigned [] archive_limits_default = Inr vb \<and>
     validate sample_archive b' Required sample_store archive_limits_default = Inr vb' \<and>
     decode_archive sample_codec b archive_limits_default = Inr d \<and>
     decode_archive sample_codec b' archive_limits_default = Inr d' \<and>
     da_manifest d = da_manifest d' \<and> no_collision sample_crypto d d' \<and>
     vs_signed (vb_signature vb') \<noteq> vs_signed (vb_signature vb)"
proof -
  obtain b where b: "build sample_archive sample_parts None = Inr b" "within_limits sample_codec b archive_limits_default"
    using sample_build [of None] sample_within_limits by force
  obtain b' where b': "build sample_archive sample_parts (Some ''k'') = Inr b'" "within_limits sample_codec b' archive_limits_default"
    using sample_build [of "Some ''k''"] sample_within_limits by force
  from build_Inr [OF b(1)] obtain d m where d: "built sample_archive sample_parts None d m"
    and e: "encode_archive sample_codec (da_manifest d) (da_signature d) (artifact_entries d) = Inr b" by auto
  from build_Inr [OF b'(1)] obtain d' m' where d': "built sample_archive sample_parts (Some ''k'') d' m'"
    and e': "encode_archive sample_codec (da_manifest d') (da_signature d') (artifact_entries d') = Inr b'" by auto
  have dec: "decode_archive sample_codec b archive_limits_default = Inr d"
    "decode_archive sample_codec b' archive_limits_default = Inr d'"
    using encode_decoded_from [OF sample_codec_documented e b(2)] encode_decoded_from [OF sample_codec_documented e' b'(2)]
    by (simp_all add: decode_archive_Inr_iff)
  have art: "da_policies d = da_policies d'" "da_schema d = da_schema d'" "da_labels d = da_labels d'"
    using d d' by (simp_all add: built_def)
  then have es: "artifact_entries d = artifact_entries d'" by (simp add: artifact_entries_def)
  then have "m = m'" using d d' by (auto simp: built_def)
  then have "da_manifest d = da_manifest d'" using d d' by (simp add: built_def)
  moreover have "inj_on fst (set (artifact_entries d'))"
    by (cases "da_schema d'") (auto simp: artifact_entries_def inj_on_def POLICIES_PATH_def SCHEMA_PATH_def LABELS_PATH_def)
  then have "no_collision sample_crypto d d'" unfolding no_collision_def es by (auto dest: inj_onD)
  moreover obtain vb where "validate sample_archive b AllowUnsigned [] archive_limits_default = Inr vb" "\<not> vs_signed (vb_signature vb)"
    using build_accepted [OF sample_libraries sample_parts_valid b(1), of archive_limits_default AllowUnsigned "[]"] b(2)
      sample_signer_trusted(2) by (auto simp: signed_by_def)
  moreover obtain vb' where "validate sample_archive b' Required sample_store archive_limits_default = Inr vb'" "vs_signed (vb_signature vb')"
    using build_accepted [OF sample_libraries sample_parts_valid b'(1), of archive_limits_default Required sample_store] b'(2)
      sample_signer_trusted(1) by (auto simp: signed_by_def)
  ultimately show ?thesis using dec by blast
qed

end
