(* ===== verification/Cli_Process.thy ===== *)
theory Cli_Process
  imports Cli_Correct
begin

text \<open>
  The command-line tool as a process: its output streams may refuse a line, which ends it with a
  panic.  A file is created before anything is printed, so what a process creates does not depend on
  its streams.  Then how \<open>check bundle\<close> and \<open>build\<close> agree, and when a command panics by itself.
\<close>

section \<open>The process\<close>

definition created :: "cli_effect list \<Rightarrow> (string \<times> bytes) set" where
  "created es = {(p, c). Created p c \<in> set es}"

lemma created_simps [simp]:
  "created [] = {}" "created (es @ fs) = created es \<union> created fs"
  "created (Created p c # es) = insert (p, c) (created es)"
  "is_line e \<Longrightarrow> created (e # es) = created es"
  by (auto simp: created_def is_line_def split: cli_effect.splits)

lemma is_line_simps [simp]:
  "is_line (Stdout m)" "is_line (Stdout_json s)" "is_line (Stderr m)" "\<not> is_line (Created p c)"
  by (simp_all add: is_line_def)

lemma created_lines: "list_all is_line es \<Longrightarrow> created es = {}"
  by (induction es) auto

lemma perform_spec:
  "perform ok performed es = (performed', complete) \<Longrightarrow>
     \<exists>xs ys. es = xs @ ys \<and> performed' = performed @ xs \<and> (complete \<longleftrightarrow> ys = []) \<and>
       (\<not> complete \<longrightarrow> is_line (hd ys) \<and> \<not> ok performed' (hd ys))"
proof (induction es arbitrary: performed)
  case (Cons e es)
  show ?case
  proof (cases "is_line e \<and> \<not> ok performed e")
    case True
    with Cons.prems show ?thesis by (intro exI [of _ "[]"] exI [of _ "e # es"]) auto
  next
    case False
    with Cons.prems have "perform ok (performed @ [e]) es = (performed', complete)" by simp
    from Cons.IH [OF this] obtain xs ys where "es = xs @ ys" "performed' = performed @ [e] @ xs"
      "complete \<longleftrightarrow> ys = []" "\<not> complete \<longrightarrow> is_line (hd ys) \<and> \<not> ok performed' (hd ys)" by auto
    then show ?thesis by (intro exI [of _ "e # xs"] exI [of _ ys]) auto
  qed
qed simp

text \<open>All effects are performed when every line is accepted.\<close>

lemma perform_accepted: "(\<And>d e. ok d e) \<Longrightarrow> perform ok performed es = (performed @ es, True)"
  by (induction es arbitrary: performed) auto

definition delivered :: "output_streams \<Rightarrow> cli_env \<Rightarrow> command \<Rightarrow> bool" where
  "delivered ok E c \<longleftrightarrow> snd (perform ok [] (fst (main_exit E c)))"

lemma main_process_status:
  "snd (main_process ok E c) = (if delivered ok E c then snd (main_exit E c) else 101)"
  by (auto simp: main_process_def delivered_def split: prod.split)

lemma main_process_delivered: "delivered ok E c \<Longrightarrow> fst (main_process ok E c) = fst (main_exit E c)"
  by (cases "main_exit E c"; cases "perform ok [] (fst (main_exit E c))")
    (auto simp: main_process_def delivered_def dest!: perform_spec)

text \<open>A command creates its file before it prints anything.\<close>

fun files_first :: "cli_effect list \<Rightarrow> bool" where
  "files_first [] = True"
| "files_first (e # es) = (if is_line e then list_all is_line es else files_first es)"

lemma files_first_lines: "list_all is_line es \<Longrightarrow> files_first es"
  by (cases es) auto

lemma files_first_append: "files_first es \<Longrightarrow> list_all is_line ls \<Longrightarrow> files_first (es @ ls)"
  by (induction es) (auto simp: files_first_lines)

lemma created_perform:
  "files_first es \<Longrightarrow> perform ok performed es = (performed', complete) \<Longrightarrow>
     created performed' = created performed \<union> created es"
proof (induction es arbitrary: performed)
  case (Cons e es)
  show ?case
  proof (cases "is_line e")
    case True
    with Cons.prems(1) have l: "list_all is_line (e # es)" by simp
    from perform_spec [OF Cons.prems(2)] obtain xs ys where x: "e # es = xs @ ys" "performed' = performed @ xs"
      by blast
    from l have "list_all is_line xs" unfolding x(1) by simp
    with l x(2) show ?thesis by (simp add: created_lines)
  next
    case False
    with Cons.prems have "files_first es" "perform ok (performed @ [e]) es = (performed', complete)" by auto
    from Cons.IH [OF this] False show ?thesis by (cases e) auto
  qed
qed simp

lemma files_first_fails [simp]: "files_first (fst (fails e))"
  by (simp add: fails_def)

lemma files_first_then_run: "(\<And>x. files_first (fst (f x))) \<Longrightarrow> files_first (fst (then_run r f))"
  by (cases r) simp_all

lemma lines_render_check: "list_all is_line (fst (render_check E common ds i h))"
  by (cases "ca_format common")
    (auto simp: render_check_def Let_def diagnostic_line_def list_all_iff then_run_def fails_def split: sum.split)

lemma lines_content_error: "list_all is_line (fst (render_content_error E common e))"
  by (auto simp: render_content_error_def Let_def lines_render_check fails_def)

lemmas rendered_lines = lines_render_check [THEN files_first_lines] lines_content_error [THEN files_first_lines]

lemma files_first_before:
  "files_first (fst a) \<Longrightarrow> list_all is_line (fst b) \<Longrightarrow> files_first (fst (before a b))"
  by (cases a) (auto simp: before_def files_first_append split: outcome.split sum.split)

lemma files_first_write: "files_first (fst (write_new_file E path contents))"
  by (auto simp: write_new_file_def split: sum.split prod.split)

lemma lines_report_built: "list_all is_line (fst (report_built E args archive))"
  by (auto simp: report_built_def split: output_format.split)

lemma files_first_case:
  "(\<And>e. files_first (fst (f e))) \<Longrightarrow> (\<And>x. files_first (fst (g x))) \<Longrightarrow>
     files_first (fst (case r of Inl e \<Rightarrow> f e | Inr x \<Rightarrow> g x))"
  by (cases r) simp_all

lemma files_first_run: "files_first (fst (run E c))"
proof (cases c)
  case (Check t)
  show ?thesis unfolding Check run_def command.case run_check_def render_policy_check_def
    by (cases t) (auto intro!: files_first_then_run files_first_case rendered_lines)
next
  case (Build a)
  show ?thesis unfolding Build run_def command.case run_build_def Let_def
    by (intro files_first_then_run files_first_case rendered_lines files_first_before files_first_write
        lines_report_built)
next
  case (Sign a)
  show ?thesis unfolding Sign run_def command.case run_sign_def
    by (intro files_first_then_run files_first_before files_first_write) simp
qed

lemma files_first_main_exit: "files_first (fst (main_exit E c))"
proof (cases "run E c")
  case (Pair es o')
  with files_first_run [of E c] show ?thesis
    by (auto simp: main_exit_def files_first_append split: outcome.split sum.split)
qed

lemma created_main_exit: "created (fst (main_exit E c)) = creates (run E c)"
  by (cases "run E c") (auto simp: main_exit_def creates_def created_def split: outcome.split sum.split)

lemma created_main_process: "created (fst (main_process ok E c)) = creates (run E c)"
  using created_perform [OF files_first_main_exit, of ok "[]" E c]
  by (auto simp: main_process_def created_main_exit split: prod.split)

section \<open>Checking and building\<close>

text \<open>A key that cannot be loaded is not invalid content.\<close>

abbreviation operational :: "bundle_error + 'a \<Rightarrow> bool" where
  "operational r \<equiv> fails_with (\<lambda>e. \<not> is_validation e) r"

lemmas operational_rules = fails_with_rules [where P = "\<lambda>e. \<not> is_validation e"]

lemma operational_read_private_key: "operational (read_private_key open path)"
  unfolding read_private_key_def by (intro operational_rules) (simp_all add: key_too_large_def)

lemma operational_parse_private_key_pem: "operational (parse_private_key_pem X pem)"
  unfolding parse_private_key_pem_def by (intro operational_rules) (auto split: prod.split)

lemma operational_key_files:
  "operational (from_pkcs8_pem_file X open path)"
  "operational (from_pkcs8_encrypted_pem_file X open path password)"
  "operational (from_pkcs8_pem_file_with_password X open path password)"
  unfolding from_pkcs8_pem_file_def from_pkcs8_encrypted_pem_file_def from_pkcs8_pem_file_with_password_def
    from_pkcs8_pem_def from_pkcs8_encrypted_pem_def from_pkcs8_pem_with_password_def
    from_pkcs8_document_def from_pkcs8_encrypted_document_def
  by (intro operational_rules operational_read_private_key operational_parse_private_key_pem;
      auto split: private_key_document.split intro!: operational_rules)+

lemma operational_password: "operational (configured_signing_key_password E password_file)"
  unfolding configured_signing_key_password_def
  by (cases password_file) (auto intro!: operational_rules split: env_var.split)

lemma operational_load_signing_key: "operational (load_signing_key E path password_file)"
  unfolding load_signing_key_def Let_def
  by (intro operational_rules operational_password)
    (auto intro!: operational_rules operational_key_files split: option.split)

text \<open>What \<open>check bundle\<close> finds is what a build starts from.\<close>

lemma check_bundle_findings:
  "check_findings E (Check_bundle path common) = Inr (ds, i, h) \<longleftrightarrow>
     i = None \<and> h = None \<and>
     (\<exists>b parts. builder_from_manifest (ci_compile E) path = Inr b \<and>
        compile_manifest (ci_compile E) (bb_manifest b) = Inr parts \<and> ds = bp_diagnostics parts)"
  (is "?l \<longleftrightarrow> ?r")
proof -
  have "builder_check (ci_compile E) b = Inr c \<longleftrightarrow>
      (\<exists>parts. compile_manifest (ci_compile E) (bb_manifest b) = Inr parts \<and> c = \<lparr>pc_diagnostics = bp_diagnostics parts\<rparr>)"
    if "builder_from_manifest (ci_compile E) path = Inr b" for b c
  proof -
    from that have "\<not> bb_deny_warnings b" by (auto simp: builder_from_manifest_def result_iff)
    then show ?thesis by (auto simp: builder_check_def result_iff)
  qed
  then show ?thesis by (fastforce simp: check_findings_def result_iff)
qed

lemma check_bundle_exit:
  "snd (main_exit E (Check (Check_bundle path \<lparr>ca_format = Human, ca_deny_warnings = deny\<rparr>))) = 0 \<longleftrightarrow>
     (\<exists>b parts. builder_from_manifest (ci_compile E) path = Inr b \<and>
        compile_manifest (ci_compile E) (bb_manifest b) = Inr parts \<and> is_valid \<lparr>pc_diagnostics = bp_diagnostics parts\<rparr> deny)"
  (is "snd (main_exit E (Check ?t)) = 0 \<longleftrightarrow> _")
proof -
  have "snd (main_exit E (Check ?t)) = 0 \<longleftrightarrow>
      (\<exists>ds i h. check_findings E ?t = Inr (ds, i, h) \<and> is_valid \<lparr>pc_diagnostics = ds\<rparr> deny)"
    using check_exit_0 [of E ?t] check_exit_0_if [of E ?t] by (auto simp: common_of_def prints_def)
  then show ?thesis unfolding check_bundle_findings by blast
qed

lemma build_implies_check:
  assumes "snd (main_exit E (Build a)) = 0"
  shows "snd (main_exit E (Check (Check_bundle (ba_manifest a)
    \<lparr>ca_format = Human, ca_deny_warnings = ba_deny_warnings a\<rparr>))) = 0"
proof -
  from assms run_build_succeeded [of E a] obtain archive where "produced E (Build a) (ba_output a) archive"
    by (auto simp: exit_0_iff)
  then obtain b key where b: "builder_from_manifest (ci_compile E) (ba_manifest a) = Inr b"
    "builder_build (ci_archive E) (deny_warnings b (ba_deny_warnings a)) key = Inr archive"
    by (auto simp: produced_def)
  from b(2) obtain parts where p: "compile_manifest (ci_compile E) (bb_manifest b) = Inr parts"
    "builder_check (ci_compile E) (deny_warnings b (ba_deny_warnings a)) = Inr \<lparr>pc_diagnostics = bp_diagnostics parts\<rparr>"
    by (auto simp: builder_build_Inr_iff deny_warnings_def)
  from p(2) have "is_valid \<lparr>pc_diagnostics = bp_diagnostics parts\<rparr> (ba_deny_warnings a)"
    by (auto simp: builder_check_Inr_iff deny_warnings_def)
  with b(1) p(1) show ?thesis unfolding check_bundle_exit by blast
qed

lemma render_content_error_operational:
  "\<not> is_validation e \<Longrightarrow> snd (render_content_error E common e) = Value (Inl e)"
  by (simp add: render_content_error_def fails_def)

lemma refused_build:
  assumes "snd (run E (Build a)) = Value (Inl e)" "is_validation e"
  shows "\<exists>key e'. and_then (builder_from_manifest (ci_compile E) (ba_manifest a)) (\<lambda>b.
      builder_build (ci_archive E) (deny_warnings b (ba_deny_warnings a)) key) = Inl e' \<and> is_validation e'"
proof -
  let ?r = "\<lambda>key. and_then (builder_from_manifest (ci_compile E) (ba_manifest a)) (\<lambda>b.
      builder_build (ci_archive E) (deny_warnings b (ba_deny_warnings a)) key)"
  let ?common = "\<lparr>ca_format = ba_format a, ca_deny_warnings = ba_deny_warnings a\<rparr>"
  have run: "run E (Build a) = then_run (refuse_overwrite E (ba_output a)) (\<lambda>_.
      then_run (transpose (map_option (\<lambda>path. load_signing_key E path (ba_password_file a)) (ba_signing_key a)))
        (\<lambda>key. case ?r key of
            Inr archive \<Rightarrow> before (write_new_file E (ba_output a) archive) (report_built E a archive)
          | Inl e \<Rightarrow> render_content_error E ?common e))"
    by (simp add: run_def run_build_def Let_def)
  have keys: "operational (transpose (map_option (\<lambda>path. load_signing_key E path (ba_password_file a)) (ba_signing_key a)))"
    by (intro operational_rules operational_load_signing_key)
  have "operational (refuse_overwrite E (ba_output a))" by (simp add: refuse_overwrite_def)
  with keys assms obtain key where k: "snd (case ?r key of
            Inr archive \<Rightarrow> before (write_new_file E (ba_output a) archive) (report_built E a archive)
          | Inl e \<Rightarrow> render_content_error E ?common e) = Value (Inl e)"
    unfolding run
    by (cases "refuse_overwrite E (ba_output a)";
        cases "transpose (map_option (\<lambda>path. load_signing_key E path (ba_password_file a)) (ba_signing_key a))") auto
  show ?thesis
  proof (cases "?r key")
    case (Inl e')
    with k assms(2) render_content_error_operational [of e' E ?common] show ?thesis
      by (intro exI [of _ key] exI [of _ e']) auto
  next
    case (Inr archive)
    have "snd (report_built E a archive) \<noteq> Value (Inl e)"
      by (simp add: report_built_def split: output_format.split)
    with k Inr before_Inl [of "write_new_file E (ba_output a) archive" "report_built E a archive" e]
      write_new_file_not_validation [of E "ba_output a" archive e] assms(2) show ?thesis by simp
  qed
qed

lemma check_implies_build:
  assumes check: "snd (main_exit E (Check (Check_bundle (ba_manifest a)
      \<lparr>ca_format = Human, ca_deny_warnings = ba_deny_warnings a\<rparr>))) = 0"
    and build: "snd (main_exit E (Build a)) = 1"
  shows "\<exists>b parts key m. builder_from_manifest (ci_compile E) (ba_manifest a) = Inr b \<and>
    compile_manifest (ci_compile E) (bb_manifest b) = Inr parts \<and> build (ci_archive E) parts key = Inl (Archive m)"
proof -
  from check obtain b parts where b: "builder_from_manifest (ci_compile E) (ba_manifest a) = Inr b"
    "compile_manifest (ci_compile E) (bb_manifest b) = Inr parts"
    "is_valid \<lparr>pc_diagnostics = bp_diagnostics parts\<rparr> (ba_deny_warnings a)"
    unfolding check_bundle_exit by blast
  from build obtain key e where e: "and_then (builder_from_manifest (ci_compile E) (ba_manifest a)) (\<lambda>b.
      builder_build (ci_archive E) (deny_warnings b (ba_deny_warnings a)) key) = Inl e" "is_validation e"
    using refused_build unfolding exit_1_iff by blast
  have "builder_build (ci_archive E) (deny_warnings b (ba_deny_warnings a)) key = build (ci_archive E) parts key"
    using b(2,3) compile_manifest_no_error [OF b(2)] no_error_is_valid [of "bp_diagnostics parts" "ba_deny_warnings a"]
    by (simp add: builder_build_def deny_warnings_def)
  with e b(1) have f: "build (ci_archive E) parts key = Inl e" by simp
  with build_Inl [OF f] e(2) b(1,2) show ?thesis by (auto simp: encoding_failure_def)
qed

text \<open>The check of the bundle that a build builds, under its setting for warnings.\<close>

abbreviation check_of_build :: "build_args \<Rightarrow> command" where
  "check_of_build a \<equiv>
     Check (Check_bundle (ba_manifest a) \<lparr>ca_format = Human, ca_deny_warnings = ba_deny_warnings a\<rparr>)"

section \<open>Panics\<close>

text \<open>
  The only panic of a command itself is that of \<open>json!\<close>, on an output path that is not UTF-8; by
  then the archive has been written.
\<close>

lemma panics_simps [simp]:
  "snd (fails e) \<noteq> Panic" "snd (then_run r f) = Panic \<longleftrightarrow> (\<exists>x. r = Inr x \<and> snd (f x) = Panic)"
  by (cases r; simp add: fails_def)+

lemma no_panic_rendering [simp]:
  "snd (render_check E common ds i h) \<noteq> Panic" "snd (render_content_error E common e) \<noteq> Panic"
  "snd (render_policy_check E common r) \<noteq> Panic" "snd (write_new_file E path contents) \<noteq> Panic"
proof -
  show c: "snd (render_check E common ds i h) \<noteq> Panic" for ds i h
    by (simp add: render_check_def Let_def split: output_format.split)
  show e: "snd (render_content_error E common e) \<noteq> Panic" for e
    by (simp add: render_content_error_def Let_def c)
  show "snd (render_policy_check E common r) \<noteq> Panic"
    by (simp add: render_policy_check_def c e split: sum.split)
  show "snd (write_new_file E path contents) \<noteq> Panic"
    by (auto simp: write_new_file_def split: sum.split prod.split)
qed

lemma before_panics: "snd (before a b) = Panic \<longleftrightarrow> snd a = Panic \<or> succeeded a \<and> snd b = Panic"
  by (cases a) (auto simp: before_def succeeded_def split: outcome.split sum.split)

lemma report_built_panics:
  "snd (report_built E a archive) = Panic \<longleftrightarrow> ba_format a = Json \<and> \<not> utf8_valid (ba_output a)"
  by (simp add: report_built_def split: output_format.split)

lemma check_never_panics: "snd (run_check E t) \<noteq> Panic"
  unfolding run_check_def by (cases t) (auto split: sum.split)

lemma run_panics_iff:
  "snd (run E c) = Panic \<longleftrightarrow>
     (\<exists>a archive. c = Build a \<and> ba_format a = Json \<and> \<not> utf8_valid (ba_output a) \<and> \<not> ci_exists E (ba_output a) \<and>
        produced E c (ba_output a) archive \<and> succeeded (write_new_file E (ba_output a) archive))"
proof (cases c)
  case (Check t)
  then show ?thesis by (simp add: run_def check_never_panics)
next
  case (Sign a)
  then show ?thesis by (simp add: run_def run_sign_def before_panics)
next
  case (Build a)
  have r: "snd (case r of Inr archive \<Rightarrow> before (write_new_file E (ba_output a) archive) (report_built E a archive)
          | Inl e \<Rightarrow> render_content_error E common e) = Panic \<longleftrightarrow>
      (\<exists>archive. r = Inr archive \<and> succeeded (write_new_file E (ba_output a) archive) \<and>
         ba_format a = Json \<and> \<not> utf8_valid (ba_output a))" for r common
    by (cases r) (simp_all add: before_panics report_built_panics)
  show ?thesis unfolding Build run_def run_build_def Let_def command.case panics_simps r
    by (auto simp: produced_def result_iff)
qed

lemma exit_101_iff: "snd (main_exit E c) = 101 \<longleftrightarrow> snd (run E c) = Panic"
  by (cases "run E c") (auto simp: main_exit_def split: outcome.split sum.split)

text \<open>So a panic leaves the whole archive behind, although the exit status is not 0.\<close>

lemma panic_keeps_archive:
  assumes "files_documented E" "snd (run E c) = Panic"
  shows "\<exists>a archive. c = Build a \<and> ba_format a = Json \<and> \<not> utf8_valid (ba_output a) \<and>
    produced E c (ba_output a) archive \<and> creates (run E c) = {(ba_output a, archive)}"
proof -
  from assms(2) obtain a archive where c: "c = Build a" and a: "ba_format a = Json" "\<not> utf8_valid (ba_output a)"
    "\<not> ci_exists E (ba_output a)" "produced E c (ba_output a) archive"
    and w: "succeeded (write_new_file E (ba_output a) archive)"
    unfolding run_panics_iff by blast
  from a(4) obtain key b where k:
    "transpose (map_option (\<lambda>p. load_signing_key E p (ba_password_file a)) (ba_signing_key a)) = Inr key"
    "builder_from_manifest (ci_compile E) (ba_manifest a) = Inr b"
    "builder_build (ci_archive E) (deny_warnings b (ba_deny_warnings a)) key = Inr archive"
    by (auto simp: produced_def c)
  have "creates (run E c) = creates (write_new_file E (ba_output a) archive)"
    using k a(3) by (simp add: c run_def run_build_def refuse_overwrite_def Let_def before_creates)
  moreover from write_new_file_succeeded [OF w] assms(1) have
    "creates (write_new_file E (ba_output a) archive) = {(ba_output a, archive)}"
    by (auto simp: files_documented_def)
  ultimately show ?thesis using c a by blast
qed

end
