(* ===== verification/Workflow.thy ===== *)
theory Workflow
  imports Cli_Process
begin

text \<open>
  Commands run one after the other on a disk that only they change.  A step is one process with its
  exit status, whatever its streams refuse; \<open>command_steps\<close> is a sequence of them.  No sequence alters
  or removes a file, and a later \<open>check archive\<close> accepts an archive that was written by a successful
  command exactly if it keeps the default size limits.
\<close>

section \<open>The disk\<close>

type_synonym disk = "string \<Rightarrow> bytes option"

fun apply_effects :: "disk \<Rightarrow> cli_effect list \<Rightarrow> disk" where
  "apply_effects d [] = d"
| "apply_effects d (Created p c # es) = apply_effects (d(p \<mapsto> c)) es"
| "apply_effects d (_ # es) = apply_effects d es"

lemma apply_effects_cases:
  "apply_effects d es p = d p \<and> (\<forall>c. (p, c) \<notin> created es) \<or>
     (\<exists>c. (p, c) \<in> created es \<and> apply_effects d es p = Some c)"
proof (induction d es rule: apply_effects.induct)
  case (2 d q c es)
  have upd: "(d(q \<mapsto> c)) p = (if p = q then Some c else d p)" by simp
  show ?case using "2.IH" by (auto simp: upd simp del: fun_upd_apply split: if_splits)
qed auto

definition same_libraries :: "archive_env \<Rightarrow> archive_env \<Rightarrow> bool" where
  "same_libraries A B \<longleftrightarrow>
     ce_cedar (ar_compile A) = ce_cedar (ar_compile B) \<and> ce_labels (ar_compile A) = ce_labels (ar_compile B) \<and>
     ar_crypto A = ar_crypto B \<and> ar_codec A = ar_codec B"

text \<open>Validation reads nothing but its arguments: it gives the same result on every file system.\<close>

lemma validate_libraries:
  assumes "same_libraries A B"
  shows "validate A bytes policy store limits = validate B bytes policy store limits"
proof -
  have eqs: "ce_cedar (ar_compile A) = ce_cedar (ar_compile B)" "ce_labels (ar_compile A) = ce_labels (ar_compile B)"
    "ar_crypto A = ar_crypto B" "ar_codec A = ar_codec B"
    using assms by (simp_all add: same_libraries_def)
  have parts: "validate_archive_parts (ar_compile A) = validate_archive_parts (ar_compile B)"
    by (intro ext) (simp only: validate_archive_parts_def check_archive_schema_def eqs)
  have id: "compute_bundle_id A = compute_bundle_id B"
    by (intro ext) (simp only: compute_bundle_id_def eqs)
  have dec: "validate_decoded A = validate_decoded B"
    by (intro ext) (simp only: validate_decoded_def eqs parts id)
  show ?thesis unfolding validate_def validate_inner_def eqs dec ..
qed

text \<open>
  A disk that only the tool's own creations change.  \<open>env d\<close> is the environment of a process that is
  started on \<open>d\<close>, and \<open>d\<close> records the files created so far: \<open>create_new\<close> refuses them, opening one
  gives a regular file with what was written (if its length fits the \<open>u64\<close> of its metadata), and the
  libraries are those of every other process.
\<close>

definition disk_documented :: "(disk \<Rightarrow> cli_env) \<Rightarrow> bool" where
  "disk_documented env \<longleftrightarrow>
     (\<forall>d. files_documented (env d)) \<and>
     (\<forall>d p. d p \<noteq> None \<longrightarrow> ci_create (env d) p \<noteq> Inr ()) \<and>
     (\<forall>d p c. d p = Some c \<longrightarrow> length c < 2 ^ 64 \<longrightarrow> (\<exists>fl md. ci_open (env d) p = Inr fl \<and> of_metadata fl = Inr md \<and>
        of_contents fl = Inr c \<and> md_is_file md \<and> unat (md_len md) = length c)) \<and>
     (\<forall>d d'. same_libraries (ci_archive (env d)) (ci_archive (env d')))"

lemma disk_documentedD:
  assumes "disk_documented env"
  shows "files_documented (env d)" "d p \<noteq> None \<Longrightarrow> ci_create (env d) p \<noteq> Inr ()"
    "d p = Some c \<Longrightarrow> length c < 2 ^ 64 \<Longrightarrow> \<exists>fl md. ci_open (env d) p = Inr fl \<and> of_metadata fl = Inr md \<and>
       of_contents fl = Inr c \<and> md_is_file md \<and> unat (md_len md) = length c"
    "same_libraries (ci_archive (env d)) (ci_archive (env d'))"
  using assms by (simp_all add: disk_documented_def)

inductive command_step :: "(disk \<Rightarrow> cli_env) \<Rightarrow> disk \<Rightarrow> command \<times> nat \<Rightarrow> disk \<Rightarrow> bool"
  for env where
    step: "main_process ok (env d) c = (es, status) \<Longrightarrow> command_step env d (c, status) (apply_effects d es)"

inductive command_steps :: "(disk \<Rightarrow> cli_env) \<Rightarrow> disk \<Rightarrow> (command \<times> nat) list \<Rightarrow> disk \<Rightarrow> bool"
  for env where
    none: "command_steps env d [] d"
  | more: "command_step env d x d' \<Longrightarrow> command_steps env d' xs d'' \<Longrightarrow> command_steps env d (x # xs) d''"

inductive_cases command_stepE: "command_step env d x d'"
inductive_simps command_steps_simps: "command_steps env d [] d'" "command_steps env d (x # xs) d'"

text \<open>What one command leaves at a path: the file that was there, or a prefix of its archive.\<close>

definition left_by :: "cli_env \<Rightarrow> command \<times> nat \<Rightarrow> string \<Rightarrow> bytes \<Rightarrow> bool" where
  "left_by E x p c \<longleftrightarrow>
     (\<exists>archive. produced E (fst x) p archive \<and> prefix c archive \<and> (snd x = 0 \<longrightarrow> c = archive))"

lemma successful_process:
  assumes "files_documented E" "snd (main_process ok E cmd) = 0" "(p, c) \<in> creates (run E cmd)"
  shows "produced E cmd p c"
proof -
  from assms(2) have "snd (main_exit E cmd) = 0" by (auto simp: main_process_status split: if_splits)
  moreover from assms(3) have "cmd \<noteq> Check t" for t by (auto simp: run_def)
  ultimately obtain path archive where "produced E cmd path archive" "creates (run E cmd) = {(path, archive)}"
    using output_written [OF assms(1)] by blast
  with assms(3) show ?thesis by auto
qed

lemma command_step_file:
  assumes "disk_documented env" "command_step env d x d'"
  shows "d' p = d p \<or> d p = None \<and> (\<exists>c. d' p = Some c \<and> left_by (env d) x p c)"
proof -
  from assms(2) obtain ok es where s: "main_process ok (env d) (fst x) = (es, snd x)" "d' = apply_effects d es"
    by (cases rule: command_step.cases) simp
  have cr: "created es = creates (run (env d) (fst x))" using created_main_process [of ok "env d" "fst x"] s(1) by simp
  from apply_effects_cases [of d es p] show ?thesis
  proof
    assume "\<exists>c. (p, c) \<in> created es \<and> apply_effects d es p = Some c"
    then obtain c where c: "(p, c) \<in> creates (run (env d) (fst x))" "d' p = Some c" using cr s(2) by auto
    from run_creates [OF c(1)] obtain archive where a: "produced (env d) (fst x) p archive" "ci_create (env d) p = Inr ()"
      "prefix c archive" by blast
    have "d p = None" using a(2) disk_documentedD(2) [OF assms(1)] by blast
    moreover have "left_by (env d) x p c"
    proof (cases "snd x = 0")
      case True
      from successful_process [OF disk_documentedD(1) [OF assms(1)] _ c(1), of ok] s(1) True show ?thesis by (auto simp: left_by_def)
    next
      case False
      with a show ?thesis by (auto simp: left_by_def)
    qed
    ultimately show ?thesis using c(2) by blast
  qed (simp add: s(2))
qed

lemma command_steps_keep:
  assumes "command_steps env d xs d'" "disk_documented env"
  shows "d \<subseteq>\<^sub>m d' \<and> (\<forall>p c. d' p = Some c \<longrightarrow> d p = Some c \<or>
    (\<exists>x \<in> set xs. \<exists>d0. d \<subseteq>\<^sub>m d0 \<and> d0 \<subseteq>\<^sub>m d' \<and> d0 p = None \<and> left_by (env d0) x p c))"
  using assms
proof (induction rule: command_steps.induct)
  case (more d x d1 xs d2)
  note f = command_step_file [OF more.prems more.hyps(1)]
  from more.IH [OF more.prems] have le: "d1 \<subseteq>\<^sub>m d2" and
    ih: "\<And>p c. d2 p = Some c \<Longrightarrow> d1 p = Some c \<or>
      (\<exists>x \<in> set xs. \<exists>d0. d1 \<subseteq>\<^sub>m d0 \<and> d0 \<subseteq>\<^sub>m d2 \<and> d0 p = None \<and> left_by (env d0) x p c)" by blast+
  have le1: "d \<subseteq>\<^sub>m d1" unfolding map_le_def
  proof
    fix p assume "p \<in> dom d"
    then show "d p = d1 p" using f [of p] by auto
  qed
  have le2: "d \<subseteq>\<^sub>m d2" using map_le_trans [OF le1 le] .
  have "d p = Some c \<or> (\<exists>y \<in> set (x # xs). \<exists>d0. d \<subseteq>\<^sub>m d0 \<and> d0 \<subseteq>\<^sub>m d2 \<and> d0 p = None \<and> left_by (env d0) y p c)"
    if "d2 p = Some c" for p c
    using ih [OF that]
  proof
    assume "d1 p = Some c"
    with f [of p] have "d p = Some c \<or> d p = None \<and> left_by (env d) x p c" by auto
    with le2 map_le_refl [of d] show ?thesis by (meson list.set_intros(1))
  next
    assume "\<exists>y \<in> set xs. \<exists>d0. d1 \<subseteq>\<^sub>m d0 \<and> d0 \<subseteq>\<^sub>m d2 \<and> d0 p = None \<and> left_by (env d0) y p c"
    with map_le_trans [OF le1] show ?thesis by (meson list.set_intros(2))
  qed
  with le2 show ?case by blast
qed simp

section \<open>Checking what was written\<close>

lemma validate_no_error:
  assumes "validate E bytes policy store limits = Inr vb"
  shows "\<not> has_error (vb_diagnostics vb) \<and> length bytes \<le> unat (al_max_compressed_bytes limits)"
proof -
  from assms obtain d m vs parts where "decoded_from (ar_codec E) bytes limits d" "contents_accepted E d m parts"
    "vb = bundle_of (ar_crypto E) bytes m vs parts"
    by (auto simp: validate_Inr_iff archive_accepted_def)
  then show ?thesis
    by (auto simp: contents_accepted_def bundle_of_def decoded_from_def Let_def dest!: validate_archive_parts_Inr(2))
qed

lemma default_limit: "unat (al_max_compressed_bytes archive_limits_default) < 2 ^ 64 - 1"
  by (simp add: archive_limits_default_def)

lemma archive_read_whole:
  assumes "open path = Inr (fl :: open_file)" "of_metadata fl = Inr (md :: metadata)" "of_contents fl = Inr b"
    and "md_is_file md" "unat (md_len md) = length b" "length b \<le> unat limit" "unat limit < 2 ^ 64 - 1"
  shows "archive_read open path limit = Inr b"
proof -
  have "md_len md \<le> ucast limit" using assms(5,6) by (simp add: word_le_nat_alt)
  moreover obtain budget where "limit_plus_one limit ''compressed'' = Inr budget" "unat budget = unat limit + 1"
    using assms(7) limit_plus_one_fits limit_plus_one_Inr_iff by blast
  ultimately show ?thesis
    using assms by (simp add: archive_read_def read_take_def)
qed

text \<open>An archive that is on the disk and validates is one that \<open>check archive\<close> accepts.\<close>

abbreviation plain :: common_args where
  "plain \<equiv> \<lparr>ca_format = Human, ca_deny_warnings = False\<rparr>"

lemma accepting_process: "snd (main_process (\<lambda>_ _. True) E c) = snd (main_exit E c)"
  by (simp add: main_process_status delivered_def perform_accepted)

lemma stored_archive_checks:
  assumes "disk_documented env" "d p = Some x" "load_trust_store (env d) keys = Inr store"
    and v: "validate (ci_archive (env d)) x (signature_policy_of policy) store archive_limits_default = Inr vb"
  shows "snd (main_process (\<lambda>_ _. True) (env d) (Check (Check_archive p keys policy plain))) = 0"
proof -
  have "length x < 2 ^ 64" using validate_no_error [OF v] default_limit by simp
  from disk_documentedD(3) [where d = d, OF assms(1,2) this] obtain fl md where f: "ci_open (env d) p = Inr fl" "of_metadata fl = Inr md" "of_contents fl = Inr x"
    "md_is_file md" "unat (md_len md) = length x" by blast
  have "archive_read (ci_open (env d)) p (al_max_compressed_bytes archive_limits_default) = Inr x"
    using archive_read_whole [of "ci_open (env d)" p, OF f _ default_limit] validate_no_error [OF v] by blast
  with assms(3) v have "check_findings (env d) (Check_archive p keys policy plain) =
      Inr (vb_diagnostics vb, Some (vb_bundle_id vb), Some (vb_archive_sha256 vb))"
    by (simp add: check_findings_def)
  moreover have "is_valid \<lparr>pc_diagnostics = vb_diagnostics vb\<rparr> False"
    using validate_no_error [OF v] no_error_is_valid by blast
  ultimately show ?thesis
    unfolding accepting_process by (intro check_exit_0_if) (simp_all add: common_of_def prints_def)
qed

text \<open>
  Conversely, an archive that is accepted keeps the limits: the commands that write one do not
  check its size, the command that reads one does.
\<close>

definition fits :: "cli_env \<Rightarrow> bytes \<Rightarrow> bool" where
  "fits E x \<longleftrightarrow> within_limits (ar_codec (ci_archive E)) x archive_limits_default"

lemma checked_archive_fits:
  assumes doc: "disk_documented env" and x: "d p = Some x" "length x < 2 ^ 64"
    and s: "snd (main_process (\<lambda>_ _. True) (env d) (Check (Check_archive p keys policy plain))) = 0"
  shows "fits (env d0) x"
proof -
  from s have "snd (main_exit (env d) (Check (Check_archive p keys policy plain))) = 0"
    by (simp add: accepting_process)
  from check_exit_0 [OF this] obtain store bytes vb where
    r: "archive_read (ci_open (env d)) p (al_max_compressed_bytes archive_limits_default) = Inr bytes"
    and v: "validate (ci_archive (env d)) bytes (signature_policy_of policy) store archive_limits_default = Inr vb"
    by (auto simp: check_findings_def result_iff)
  from archive_read_Inr [OF r] obtain fl where "ci_open (env d) p = Inr fl" "of_contents fl = Inr bytes" by blast
  with disk_documentedD(3) [where d = d, OF doc x] have "bytes = x" by auto
  from v obtain dec where "decoded_from (ar_codec (ci_archive (env d))) bytes archive_limits_default dec"
    by (auto simp: validate_Inr_iff archive_accepted_def)
  with \<open>bytes = x\<close> disk_documentedD(4) [OF doc, of d d0] show ?thesis
    by (auto simp: fits_def within_limits_def decoded_from_def Let_def same_libraries_def)
qed

lemma successful_step:
  assumes "disk_documented env" "command_step env d (cmd, 0) d'" "\<And>t. cmd \<noteq> Check t"
  shows "\<exists>p archive. produced (env d) cmd p archive \<and> d' p = Some archive"
proof -
  from assms(2) obtain ok es where s: "main_process ok (env d) cmd = (es, 0)" "d' = apply_effects d es"
    by (cases rule: command_step.cases) simp
  have "snd (main_exit (env d) cmd) = 0" using s(1) main_process_status [of ok "env d" cmd] by (auto split: if_splits)
  from output_written [OF disk_documentedD(1) [OF assms(1)] this assms(3)] obtain p archive where
    a: "produced (env d) cmd p archive" "creates (run (env d) cmd) = {(p, archive)}" by blast
  have "created es = {(p, archive)}" using created_main_process [of ok "env d" cmd] s(1) a(2) by simp
  with apply_effects_cases [of d es p] s(2) have "d' p = Some archive" by auto
  with a(1) show ?thesis by blast
qed

text \<open>A build whose key loads, and whose compiled parts can be printed.\<close>

definition printable_build :: "cli_env \<Rightarrow> build_args \<Rightarrow> bytes option \<Rightarrow> bool" where
  "printable_build E a key \<longleftrightarrow>
     libraries_documented (ci_archive E) \<and> schema_documented (ci_compile E) \<and>
     cedar_documented (ce_cedar (ci_compile E)) \<and>
     transpose (map_option (\<lambda>p. load_signing_key E p (ba_password_file a)) (ba_signing_key a)) = Inr key \<and>
     (\<forall>b parts. builder_from_manifest (ci_compile E) (ba_manifest a) = Inr b \<longrightarrow>
        compile_manifest (ci_compile E) (bb_manifest b) = Inr parts \<longrightarrow> parts_printable (ci_archive E) parts)"

lemma built_file_checks:
  assumes doc: "disk_documented env" and step: "command_step env d (Build a, 0) d'"
    and build: "printable_build (env d) a key" and x: "d' (ba_output a) = Some x" "length x < 2 ^ 64"
    and store: "load_trust_store (env d') keys = Inr store"
      "signer_trusted (ci_crypto (env d)) (signature_policy_of policy) store key"
  shows "snd (main_process (\<lambda>_ _. True) (env d') (Check (Check_archive (ba_output a) keys policy plain))) = 0 \<longleftrightarrow>
    fits (env d) x"
proof
  show "snd (main_process (\<lambda>_ _. True) (env d') (Check (Check_archive (ba_output a) keys policy plain))) = 0 \<Longrightarrow> fits (env d) x"
    by (rule checked_archive_fits [where d = d' and p = "ba_output a", OF doc x])
  assume fit: "fits (env d) x"
  from successful_step [OF doc step] obtain p y where "produced (env d) (Build a) p y" "d' p = Some y" by blast
  with build obtain b where b: "builder_from_manifest (ci_compile (env d)) (ba_manifest a) = Inr b"
    "builder_build (ci_archive (env d)) (deny_warnings b (ba_deny_warnings a)) key = Inr x"
    using x(1) by (auto simp: produced_def printable_build_def)
  from b(2) obtain parts where parts: "compile_manifest (ci_compile (env d)) (bb_manifest b) = Inr parts"
    by (auto simp: builder_build_Inr_iff deny_warnings_def)
  from build b(1) parts have r: "libraries_documented (ci_archive (env d))" "schema_documented (ci_compile (env d))"
    "cedar_documented (ce_cedar (ci_compile (env d)))" "parts_printable (ci_archive (env d)) parts" by (auto simp: printable_build_def)
  from manifest_to_archive [OF r(1-3) b(1) parts r(4) b(2) fit [unfolded fits_def] store(2)]
  obtain vb where "validate (ci_archive (env d)) x (signature_policy_of policy) store archive_limits_default = Inr vb"
    by blast
  then show "snd (main_process (\<lambda>_ _. True) (env d') (Check (Check_archive (ba_output a) keys policy plain))) = 0"
    using stored_archive_checks [OF doc x(1) store(1)] validate_libraries [OF disk_documentedD(4) [OF doc]] by metis
qed

lemma signed_file_checks:
  assumes doc: "disk_documented env" and step: "command_step env d (Sign a, 0) d'"
    and lib: "libraries_documented (ci_archive (env d))"
    and key: "load_signing_key (env d) (sa_signing_key a) (sa_password_file a) = Inr key"
    and x: "d' (sa_output a) = Some x" "length x < 2 ^ 64"
    and store: "load_trust_store (env d') keys = Inr store"
      "signer_trusted (ci_crypto (env d)) (signature_policy_of policy) store (Some key)"
  shows "snd (main_process (\<lambda>_ _. True) (env d') (Check (Check_archive (sa_output a) keys policy plain))) = 0 \<longleftrightarrow>
    fits (env d) x"
proof
  show "snd (main_process (\<lambda>_ _. True) (env d') (Check (Check_archive (sa_output a) keys policy plain))) = 0 \<Longrightarrow> fits (env d) x"
    by (rule checked_archive_fits [where d = d' and p = "sa_output a", OF doc x])
  assume fit: "fits (env d) x"
  from successful_step [OF doc step] obtain p y where "produced (env d) (Sign a) p y" "d' p = Some y" by blast
  with key obtain bytes where r: "resign (ci_archive (env d)) bytes key archive_limits_default = Inr x"
    using x(1) by (auto simp: produced_def)
  from resign_accepted [OF lib r fit [unfolded fits_def] store(2)]
  obtain vb where "validate (ci_archive (env d)) x (signature_policy_of policy) store archive_limits_default = Inr vb"
    by blast
  then show "snd (main_process (\<lambda>_ _. True) (env d') (Check (Check_archive (sa_output a) keys policy plain))) = 0"
    using stored_archive_checks [OF doc x(1) store(1)] validate_libraries [OF disk_documentedD(4) [OF doc]] by metis
qed

end
