(* ===== verification/Sample_Disk.thy ===== *)
theory Sample_Disk
  imports Sample_Run Workflow
begin

text \<open>
  The sample environment on a disk: files that were created are there, can be opened and are not
  created again.  On it a build, a signature and the checks of both run one after the other.
\<close>

definition sample_disk :: "disk \<Rightarrow> cli_env" where
  "sample_disk d =
     sample_cli
       \<lparr>ci_open := (\<lambda>p. case d p of
            Some c \<Rightarrow> Inr \<lparr>of_metadata = Inr \<lparr>md_is_file = True, md_mode = 0x180, md_len = of_nat (length c)\<rparr>,
                          of_contents = Inr c\<rparr>
          | None \<Rightarrow> ci_open sample_cli p),
        ci_exists := (\<lambda>p. d p \<noteq> None \<or> ci_exists sample_cli p),
        ci_create := (\<lambda>p. if d p \<noteq> None then Inl (Os_error ''exists'') else ci_create sample_cli p)\<rparr>"

lemma sample_disk_archive [simp]: "ci_archive (sample_disk d) = sample_archive"
  by (simp add: sample_disk_def)

lemma sample_disk_empty: "sample_disk Map.empty = sample_cli"
  by (simp add: sample_disk_def)

lemma sample_disk_documented: "disk_documented sample_disk"
proof -
  have "unat (of_nat (length c) :: u64) = length c" if "length c < 2 ^ 64" for c :: bytes
    using that by (rule unat_u64)
  moreover have "files_documented (sample_disk d)" for d
    using sample_files_documented by (auto simp: files_documented_def sample_disk_def)
  ultimately show ?thesis
    by (auto simp: disk_documented_def same_libraries_def) (auto simp: sample_disk_def)
qed

lemma sample_trust_store: "load_trust_store (sample_disk d) [''/org/key.pub''] = Inr sample_store"
proof -
  have "load_trust_store sample_cli [''/org/key.pub''] = Inr sample_store" by code_simp
  then show ?thesis by (simp add: load_trust_store_def)
qed

text \<open>A build with a key.\<close>

definition built_disk :: "disk \<Rightarrow> bool" where
  "built_disk d \<longleftrightarrow>
     (\<exists>archive. builder_build sample_archive (deny_warnings sample_builder True) (Some ''k'') = Inr archive \<and>
        within_limits sample_codec archive archive_limits_default \<and> d = [''/org/out.tar.gz'' \<mapsto> archive])"

lemma sample_build_step: "\<exists>d. built_disk d \<and> command_step sample_disk Map.empty (Build sample_build_args, 0) d"
proof -
  obtain a where a: "builder_build sample_archive (deny_warnings sample_builder True) (Some ''k'') = Inr a"
    "run sample_cli (Build sample_build_args) =
       ([Created ''/org/out.tar.gz'' a, Stdout [Lit ''wrote '', Disp ''/org/out.tar.gz'']], Value (Inr ()))"
    using sample_run_build by blast
  have m: "main_process (\<lambda>_ _. True) (sample_disk Map.empty) (Build sample_build_args) =
      ([Created ''/org/out.tar.gz'' a, Stdout [Lit ''wrote '', Disp ''/org/out.tar.gz'']], 0)"
    by (simp add: main_process_def main_exit_def a(2) sample_disk_empty)
  have "within_limits sample_codec a archive_limits_default"
    using sample_builder_build [of "Some ''k''"] a(1) by auto
  with a(1) have "built_disk [''/org/out.tar.gz'' \<mapsto> a]" by (simp add: built_disk_def)
  moreover have "command_step sample_disk Map.empty (Build sample_build_args, 0) [''/org/out.tar.gz'' \<mapsto> a]"
    using command_step.step [of "\<lambda>_ _. True" sample_disk Map.empty, OF m] by simp
  ultimately show ?thesis by blast
qed

lemma sample_printable_build: "printable_build sample_cli sample_build_args (Some ''k'')"
  by (auto simp: printable_build_def sample_build_args_def sample_signing_key sample_env)

text \<open>A signature on an archive that is on the disk.\<close>

definition sample_sign_args :: sign_args where
  "sample_sign_args =
     \<lparr>sa_archive = ''/org/in.tar.gz'', sa_signing_key = ''/org/key.pem'', sa_password_file = None,
      sa_output = ''/org/signed.tar.gz''\<rparr>"

lemma sample_disk_key:
  "d ''/org/key.pem'' = None \<Longrightarrow> load_signing_key (sample_disk d) ''/org/key.pem'' None = Inr ''k''"
proof -
  assume "d ''/org/key.pem'' = None"
  then have o: "ci_open (sample_disk d) ''/org/key.pem'' = ci_open sample_cli ''/org/key.pem''"
    by (simp add: sample_disk_def)
  have "from_pkcs8_pem_file sample_crypto (ci_open sample_cli) ''/org/key.pem'' = Inr ''k''" by code_simp
  then have "from_pkcs8_pem_file sample_crypto (ci_open (sample_disk d)) ''/org/key.pem'' = Inr ''k''"
    by (simp only: from_pkcs8_pem_file_def read_private_key_def o)
  moreover have "configured_signing_key_password (sample_disk d) None = Inr None"
    by (simp add: configured_signing_key_password_def sample_disk_def sample_cli_def)
  ultimately show ?thesis by (simp add: load_signing_key_def)
qed

lemma sample_sign_step:
  "\<exists>d d' x. d ''/org/key.pem'' = None \<and> command_step sample_disk d (Sign sample_sign_args, 0) d' \<and>
     d' ''/org/signed.tar.gz'' = Some x \<and> fits (sample_disk d) x"
proof -
  obtain b where b: "build sample_archive sample_parts None = Inr b" "length b \<le> 200000"
    using sample_build [of None] by auto
  from sample_resign [OF b] obtain s where s: "resign sample_archive b ''k'' archive_limits_default = Inr s"
    "length s \<le> 300000" by blast
  define d :: disk where "d = [''/org/in.tar.gz'' \<mapsto> b]"
  have key: "load_signing_key (sample_disk d) ''/org/key.pem'' None = Inr ''k''"
    by (rule sample_disk_key) (simp add: d_def)
  have len: "unat (of_nat (length b) :: u64) = length b" using b(2) by (intro unat_u64) simp
  have "archive_read (ci_open (sample_disk d)) ''/org/in.tar.gz'' (al_max_compressed_bytes archive_limits_default) = Inr b"
    using b(2) len default_limit
    by (intro archive_read_whole [of _ _
          "\<lparr>of_metadata = Inr \<lparr>md_is_file = True, md_mode = 0x180, md_len = of_nat (length b)\<rparr>, of_contents = Inr b\<rparr>"
          "\<lparr>md_is_file = True, md_mode = 0x180, md_len = of_nat (length b)\<rparr>"])
      (simp_all add: sample_disk_def d_def archive_limits_default_def)
  then have "run (sample_disk d) (Sign sample_sign_args) =
      ([Created ''/org/signed.tar.gz'' s, Stdout [Lit ''wrote '', Disp ''/org/signed.tar.gz'']], Value (Inr ()))"
    using key s(1)
    by (simp add: run_def run_sign_def sample_sign_args_def refuse_overwrite_def write_new_file_def before_def)
      (simp add: sample_disk_def sample_cli_def sample_files_def d_def)
  then have m: "main_process (\<lambda>_ _. True) (sample_disk d) (Sign sample_sign_args) =
      ([Created ''/org/signed.tar.gz'' s, Stdout [Lit ''wrote '', Disp ''/org/signed.tar.gz'']], 0)"
    by (simp add: main_process_def main_exit_def)
  have "command_step sample_disk d (Sign sample_sign_args, 0) (d(''/org/signed.tar.gz'' \<mapsto> s))"
    using command_step.step [of "\<lambda>_ _. True" sample_disk d, OF m] by simp
  moreover have "fits (sample_disk d) s" using sample_within_limits [OF s(2)] by (simp add: fits_def)
  ultimately show ?thesis
    by (intro exI [of _ d] exI [of _ "d(''/org/signed.tar.gz'' \<mapsto> s)"] exI [of _ s]) (simp add: d_def)
qed

text \<open>A build to a path that is not UTF-8, reported as JSON.\<close>

definition non_utf8_args :: build_args where
  "non_utf8_args = sample_build_args\<lparr>ba_format := Json, ba_output := [CHR 0xFF]\<rparr>"

lemma sample_run_panics: "snd (run sample_cli (Build non_utf8_args)) = Panic"
proof -
  obtain a where a: "builder_build sample_archive (deny_warnings sample_builder True) (Some ''k'') = Inr a"
    using sample_builder_build by auto
  have "\<not> utf8_valid [CHR 0xFF]" by code_simp
  moreover have "write_new_file sample_cli [CHR 0xFF] a = ([Created [CHR 0xFF] a], Value (Inr ()))"
    by (simp add: write_new_file_def sample_cli_def sample_files_def)
  moreover have "refuse_overwrite sample_cli [CHR 0xFF] = Inr ()" by code_simp
  ultimately show ?thesis
    using a sample_signing_key
    by (simp add: run_def run_build_def non_utf8_args_def sample_build_args_def sample_from_manifest before_def
        report_built_def del: refuse_overwrite_Inr)
qed

end
