(* ===== verification/Interface.thy ===== *)
theory Interface
  imports Workflow Engine
begin

text \<open>
  What the crate shows of its values: the getters, the sizes and the conversions of its public types.
  A caller has no other access to them, so the last section restates through them what an accepted
  archive, a trust store and a signing key tell.
\<close>

section \<open>Manifests\<close>

definition manifest_format_version :: "module_manifest \<Rightarrow> u32" where
  "manifest_format_version m = mm_format_version m"

definition manifest_name :: "module_manifest \<Rightarrow> string" where
  "manifest_name m = mm_name m"

definition manifest_namespace :: "module_manifest \<Rightarrow> string" where
  "manifest_namespace m = mm_namespace m"

definition manifest_imports :: "module_manifest \<Rightarrow> string list" where
  "manifest_imports m = mm_imports m"

definition manifest_policies :: "module_manifest \<Rightarrow> string list" where
  "manifest_policies m = mm_policies m"

definition manifest_schemas :: "module_manifest \<Rightarrow> string list" where
  "manifest_schemas m = mm_schemas m"

definition manifest_labels :: "module_manifest \<Rightarrow> string list" where
  "manifest_labels m = mm_labels m"

definition manifest_path :: "module_manifest \<Rightarrow> string" where
  "manifest_path m = mm_path m"

definition selection_manifest :: "module_selection \<Rightarrow> module_manifest" where
  "selection_manifest s = ms_manifest s"

definition selection_role :: "module_selection \<Rightarrow> module_role" where
  "selection_role s = ms_role s"

definition bundle_format_version :: "bundle_manifest \<Rightarrow> u32" where
  "bundle_format_version b = bun_format_version b"

definition bundle_name :: "bundle_manifest \<Rightarrow> string" where
  "bundle_name b = bun_name b"

definition bundle_modules :: "bundle_manifest \<Rightarrow> module_selection list" where
  "bundle_modules b = bun_modules b"

definition bundle_path :: "bundle_manifest \<Rightarrow> string" where
  "bundle_path b = bun_path b"

definition builder_manifest :: "bundle_builder \<Rightarrow> bundle_manifest" where
  "builder_manifest b = bb_manifest b"

definition check_diagnostics :: "policy_check \<Rightarrow> diagnostic list" where
  "check_diagnostics c = pc_diagnostics c"

section \<open>Labels\<close>

definition pattern_name :: "label_pattern \<Rightarrow> string" where
  "pattern_name p = lp_name p"

definition pattern_regex :: "label_pattern \<Rightarrow> string" where
  "pattern_regex p = lp_regex p"

definition rule_target :: "label_rule \<Rightarrow> label_target" where
  "rule_target r = lb_target (lr_runtime r)"

definition rule_field :: "label_rule \<Rightarrow> string" where
  "rule_field r = lr_field r"

definition rule_patterns :: "label_rule \<Rightarrow> label_pattern list" where
  "rule_patterns r = lr_patterns r"

definition label_set_rules :: "label_set \<Rightarrow> label_rule list" where
  "label_set_rules s = s"

definition label_set_is_empty :: "label_set \<Rightarrow> bool" where
  "label_set_is_empty s = (label_set_rules s = [])"

section \<open>Keys and signatures\<close>

definition signature_format_version :: "bundle_signature \<Rightarrow> u32" where
  "signature_format_version s = bs_format_version s"

definition signature_algorithm :: "bundle_signature \<Rightarrow> string" where
  "signature_algorithm s = bs_algorithm s"

definition signature_key_id :: "bundle_signature \<Rightarrow> string" where
  "signature_key_id s = bs_key_id s"

definition signature_signature :: "bundle_signature \<Rightarrow> string" where
  "signature_signature s = bs_signature s"

definition signing_key_id :: "crypto \<Rightarrow> bytes \<Rightarrow> string" where
  "signing_key_id X key = key_id X (cr_verifying_key X key)"

definition trusted_key_id :: "trusted_key \<Rightarrow> string" where
  "trusted_key_id k = tk_key_id k"

definition trusted_raw_key :: "trusted_key \<Rightarrow> bytes" where
  "trusted_raw_key k = tk_key k"

definition trust_new :: "trust_store" where
  "trust_new = []"

definition trust_is_empty :: "trust_store \<Rightarrow> bool" where
  "trust_is_empty s = (s = [])"

definition trust_len :: "trust_store \<Rightarrow> nat" where
  "trust_len s = length s"

section \<open>Archives\<close>

definition max_compressed_bytes :: "archive_limits \<Rightarrow> usize" where
  "max_compressed_bytes l = al_max_compressed_bytes l"

definition max_uncompressed_bytes :: "archive_limits \<Rightarrow> usize" where
  "max_uncompressed_bytes l = al_max_uncompressed_bytes l"

definition archive_sha256 :: "crypto \<Rightarrow> bytes \<Rightarrow> string" where
  "archive_sha256 X archive = sha256_hex X archive"

definition is_signed :: "verified_signature \<Rightarrow> bool" where
  "is_signed v = vs_signed v"

definition verified_key_id :: "verified_signature \<Rightarrow> string option" where
  "verified_key_id v = vs_key_id v"

definition validated_format_version :: "validated_bundle \<Rightarrow> u32" where
  "validated_format_version v = vb_format_version v"

definition validated_bundle_id :: "validated_bundle \<Rightarrow> string" where
  "validated_bundle_id v = vb_bundle_id v"

definition validated_name :: "validated_bundle \<Rightarrow> string" where
  "validated_name v = vb_name v"

definition validated_module_count :: "validated_bundle \<Rightarrow> nat" where
  "validated_module_count v = length (vb_modules v)"

definition validated_policies :: "validated_bundle \<Rightarrow> string" where
  "validated_policies v = vb_policies v"

definition validated_schema_json :: "validated_bundle \<Rightarrow> json option" where
  "validated_schema_json v = vb_schema_json v"

definition validated_labels :: "validated_bundle \<Rightarrow> label_set" where
  "validated_labels v = vb_labels v"

definition validated_policy_ids :: "validated_bundle \<Rightarrow> string list" where
  "validated_policy_ids v = vb_policy_ids v"

definition validated_diagnostics :: "validated_bundle \<Rightarrow> diagnostic list" where
  "validated_diagnostics v = vb_diagnostics v"

definition validated_archive_sha256 :: "validated_bundle \<Rightarrow> string" where
  "validated_archive_sha256 v = vb_archive_sha256 v"

definition validated_compressed_size :: "validated_bundle \<Rightarrow> nat" where
  "validated_compressed_size v = vb_compressed_size v"

definition validated_signature :: "validated_bundle \<Rightarrow> verified_signature" where
  "validated_signature v = vb_signature v"

section \<open>Engines\<close>

definition from_schema_free :: "'f \<Rightarrow> ('f, 'e) prepared_engine" where
  "from_schema_free engine = SchemaFree engine"

definition from_schema_enforcing :: "'e \<Rightarrow> ('f, 'e) prepared_engine" where
  "from_schema_enforcing engine = SchemaEnforcing engine"

lemmas interface_defs = validated_module_count_def validated_archive_sha256_def validated_compressed_size_def
  validated_signature_def is_signed_def verified_key_id_def archive_sha256_def signing_key_id_def
  trusted_key_id_def trusted_raw_key_def trust_new_def trust_is_empty_def trust_len_def
  max_compressed_bytes_def validated_diagnostics_def label_set_is_empty_def label_set_rules_def

section \<open>What a caller learns\<close>

lemma validated_bundle_observed:
  assumes "validate E archive policy store limits = Inr v"
  shows "validated_archive_sha256 v = archive_sha256 (ar_crypto E) archive \<and>
    validated_compressed_size v = length archive \<and>
    validated_compressed_size v \<le> unat (max_compressed_bytes limits) \<and>
    \<not> has_error (validated_diagnostics v) \<and> 0 < validated_module_count v \<and>
    (is_signed (validated_signature v) \<longleftrightarrow> verified_key_id (validated_signature v) \<noteq> None) \<and>
    (policy = Required \<longrightarrow> is_signed (validated_signature v))"
proof -
  from assms obtain d m vs parts where a: "decoded_from (ar_codec E) archive limits d"
    "signature_accepted E d policy store True vs" "manifest_describes E d m" "contents_accepted E d m parts"
    "v = bundle_of (ar_crypto E) archive m vs parts"
    by (auto simp: validate_Inr_iff archive_accepted_def)
  have "bp_modules parts = am_modules m"
    using a(4) by (auto simp: contents_accepted_def dest!: validate_archive_parts_Inr(2))
  then have "0 < length (vb_modules v)" using a(3,5) by (simp add: manifest_describes_def manifest_ok_def bundle_of_def)
  moreover have "vb_archive_sha256 v = sha256_hex (ar_crypto E) archive \<and> vb_compressed_size v = length archive \<and>
      vb_signature v = vs" using a(5) by (simp add: bundle_of_def)
  moreover have "(vs_signed vs \<longleftrightarrow> vs_key_id vs \<noteq> None) \<and> (policy = Required \<longrightarrow> vs_signed vs)"
    using a(2) by (auto simp: signature_accepted_def split: option.splits)
  ultimately show ?thesis using validate_no_error [OF assms] by (auto simp: interface_defs)
qed

lemma trust_is_empty_len: "trust_is_empty store \<longleftrightarrow> trust_len store = 0"
  by (simp add: interface_defs)

lemma from_keys_len:
  assumes "from_keys keys = Inr store"
  shows "trust_len store = card (trusted_key_id ` set keys)"
proof -
  have "bm_wf store \<and> dom (trusted_bytes store) = tk_key_id ` set keys"
    using assms unfolding from_keys_def
  proof (rule try_fold_history)
    fix pre :: "trusted_key list" and key :: trusted_key and s s'
    assume s: "bm_wf s \<and> dom (trusted_bytes s) = tk_key_id ` set pre" and i: "trust_insert s key = Inr s'"
    with trust_insert_Inr_iff(2) [of s key s'] show
      "bm_wf s' \<and> dom (trusted_bytes s') = tk_key_id ` set (pre @ [key])" by auto
  qed (simp add: trusted_bytes_def)
  moreover have "dom (trusted_bytes store) = fst ` set store"
    using dom_map_of_conv_image_fst [of store] by (simp add: trusted_bytes_def dom_def)
  ultimately have "distinct (map fst store)" "fst ` set store = tk_key_id ` set keys"
    by (simp_all add: strict_sorted_iff)
  then have "length store = card (tk_key_id ` set keys)"
    using distinct_card [of "map fst store"] by simp
  then show ?thesis by (simp add: interface_defs)
qed

lemma signing_key_trusted:
  assumes "from_keys [k] = Inr store" "trusted_raw_key k = cr_verifying_key X key" "trusted_key_ok X k"
  shows "signer_trusted X Required store (Some key) \<and> trusted_key_id k = signing_key_id X key"
proof -
  from assms(1,3) from_keys_ok [of "[k]" store X] have "trust_ok X store"
    "trusted_bytes store (tk_key_id k) = Some (tk_key k)" by auto
  with assms(2,3) show ?thesis by (simp add: signer_trusted_def interface_defs trusted_key_ok_def)
qed

end
