(* ===== verification/Source_Tests.thy ===== *)
theory Source_Tests
  imports Sample_Run Interface
begin

text \<open>
  The unit tests of \<open>src/labels.rs\<close>, \<open>src/manifest.rs\<close> and \<open>cli/src/main.rs\<close> whose outcome does not
  rest on another crate, run on the model, and the fuzz targets.  A test is a boolean under its name in
  the source, with a JSON text given as the value it stands for.  \<open>unwrap\<close> in a test is a failure of
  the test; in a fuzz target it is a panic.
\<close>

section \<open>Tests of labels\<close>

definition test_labels :: label_env where
  "test_labels = ce_labels sample_compile"

definition text_of :: "json \<Rightarrow> string" where
  "text_of v = put_json v @ [LF]"

definition pattern_json :: "string \<Rightarrow> string \<Rightarrow> json" where
  "pattern_json n r = JObject [(''name'', JString n), (''regex'', JString r)]"

definition rule_json :: "string \<Rightarrow> string \<Rightarrow> string \<Rightarrow> json list \<Rightarrow> json" where
  "rule_json resource_type attribute field patterns =
     JObject [(''target'', JObject [(''resource_type'', JString resource_type), (''attribute'', JString attribute)]),
              (''field'', JString field), (''patterns'', JArray patterns)]"

definition succeeds :: "'e + 'a \<Rightarrow> ('a \<Rightarrow> bool) \<Rightarrow> bool" where
  "succeeds r P = (case r of Inl _ \<Rightarrow> False | Inr x \<Rightarrow> P x)"

definition first_code :: "bundle_error + 'a \<Rightarrow> string \<Rightarrow> bool" where
  "first_code r code =
     (case r of Inl e \<Rightarrow> (case error_diagnostics e of d # _ \<Rightarrow> d_code d = code | [] \<Rightarrow> False) | Inr _ \<Rightarrow> False)"

definition shared_output_rules :: "bundle_error + label_set" where
  "shared_output_rules = from_json_str test_labels (text_of (JArray
     [rule_json ''App::Host'' ''labels'' ''name'' [pattern_json ''host'' ''prod''],
      rule_json ''App::Bucket'' ''labels'' ''name'' [pattern_json ''bucket'' ''prod'']]))"

definition shared_names_have_distinct_scoped_owners :: bool where
  "shared_names_have_distinct_scoped_owners = succeeds shared_output_rules (\<lambda>labels. length (to_labelers labels) = 2)"

definition combined_label_documents_preserve_distinct_targets_and_reject_duplicates :: bool where
  "combined_label_documents_preserve_distinct_targets_and_reject_duplicates =
     succeeds shared_output_rules (\<lambda>labels.
       let first = [labels ! 0]; second = [labels ! 1]
       in succeeds (combine [first, second]) (\<lambda>combined. length (to_labelers combined) = 2) \<and>
          \<not> succeeds (combine [first, first]) (\<lambda>_. True))"

definition old_and_incomplete_target_syntax_is_rejected :: bool where
  "old_and_incomplete_target_syntax_is_rejected =
     list_all (\<lambda>source. first_code (from_json_str test_labels (text_of (JArray [source]))) ''labels.invalid_json'')
       [JObject [(''kind'', JString ''App::Host''), (''output'', JString ''labels''), (''field'', JString ''name''),
                 (''patterns'', JArray [])],
        JObject [(''target'', JObject [(''resource_type'', JString ''App::Host'')]), (''field'', JString ''name''),
                 (''patterns'', JArray [])],
        JObject [(''target'', JObject [(''resource_type'', JString ''App::Host''), (''attribute'', JString ''labels''),
                                       (''scope'', JString ''*'')]),
                 (''field'', JString ''name''), (''patterns'', JArray [])],
        JObject [(''target'', JObject [(''resource_type'', JString ''App::Host''), (''attribute'', JString ''labels'')]),
                 (''output'', JString ''labels''), (''field'', JString ''name''), (''patterns'', JArray [])]]"

definition prod_rule :: json where
  "prod_rule = rule_json ''App::Host'' ''labels'' ''name'' [pattern_json ''prod'' ''^prod'']"

definition label_set_converts_to_runtime_labelers :: bool where
  "label_set_converts_to_runtime_labelers =
     succeeds (from_json_str test_labels (text_of (JArray [prod_rule]))) (\<lambda>labels. length (to_labelers labels) = 1)"

definition combined_label_sets_reapply_document_limits :: bool where
  "combined_label_sets_reapply_document_limits =
     succeeds (from_json_str test_labels (text_of (JArray [prod_rule]))) (\<lambda>labels.
       first_code (combine (replicate (MAX_LABEL_RULES + 1) labels)) ''labels.too_many_rules'')"

definition schema_validation_resolves_common_record_shapes :: bool where
  "schema_validation_resolves_common_record_shapes =
     succeeds (from_json_str test_labels (text_of (JArray [prod_rule]))) (\<lambda>labels.
       succeeds (validate_schema_json_str
         (sample_cedar\<lparr>cd_schema_from_json := (\<lambda>_. Inr (sample_schema\<lparr>sc_entity_types := [''App::Host'']\<rparr>))\<rparr>)
         sample_json labels
         (text_of (JObject [(''App'', JObject
           [(''commonTypes'', JObject [(''HostShape'', JObject
              [(''type'', JString ''Record''),
               (''attributes'', JObject
                  [(''name'', JObject [(''type'', JString ''String''), (''required'', JBool True)]),
                   (''labels'', JObject [(''type'', JString ''Set''),
                                         (''element'', JObject [(''type'', JString ''String'')]),
                                         (''required'', JBool False)])]),
               (''additionalAttributes'', JBool False)])]),
            (''entityTypes'', JObject [(''Host'', JObject [(''shape'', JObject
              [(''type'', JString ''EntityOrCommon''), (''name'', JString ''HostShape'')])])]),
            (''actions'', JObject [])])]))) (\<lambda>_. True))"

lemma label_tests_pass:
  "shared_names_have_distinct_scoped_owners"
  "combined_label_documents_preserve_distinct_targets_and_reject_duplicates"
  "old_and_incomplete_target_syntax_is_rejected"
  "label_set_converts_to_runtime_labelers"
  "combined_label_sets_reapply_document_limits"
  "schema_validation_resolves_common_record_shapes"
  by code_simp+

text \<open>The budget of patterns is checked before any expression is compiled.\<close>

definition label_document_pattern_budget_is_enforced_before_compilation :: bool where
  "label_document_pattern_budget_is_enforced_before_compilation =
     first_code (from_json_str test_labels (text_of (JArray [rule_json ''App::Host'' ''labels'' ''name''
         (map (\<lambda>i. pattern_json (''pattern-'' @ show_nat i) ''a'') [0..<MAX_TOTAL_PATTERNS + 1])])))
       ''labels.too_many_patterns''"

lemma parse_text_of: "from_str sample_json ty decode (text_of v) = ok_or (jl_error sample_json ty (text_of v)) (decode v)"
  by (simp add: from_str_def sample_json_def text_of_def get_put_json)

lemma decode_pattern_json: "decode_pattern (pattern_json n r) = Some \<lparr>lp_name = n, lp_regex = r\<rparr>"
  by (simp add: decode_pattern_def pattern_json_def decode_fields_def)

lemma pattern_budget_test_passes: "label_document_pattern_budget_is_enforced_before_compilation"
proof -
  let ?p = "\<lambda>i. pattern_json (''pattern-'' @ show_nat i) ''a''"
  let ?is = "[0..<MAX_TOTAL_PATTERNS + 1]"
  let ?ps = "map (\<lambda>i. \<lparr>lp_name = ''pattern-'' @ show_nat i, lp_regex = ''a''\<rparr>) ?is"
  let ?raw = "\<lparr>rr_target = \<lparr>rt_resource_type = ''App::Host'', rt_attribute = ''labels''\<rparr>, rr_field = ''name'',
               rr_patterns = ?ps\<rparr>"
  have "decode_vec decode_pattern (JArray (map ?p ?is)) = Some ?ps"
    using decode_vec_map [of ?ps decode_pattern "\<lambda>p. pattern_json (lp_name p) (lp_regex p)"]
    by (simp add: decode_pattern_json comp_def del: upt_Suc)
  then have "decode_rule (rule_json ''App::Host'' ''labels'' ''name'' (map ?p ?is)) = Some ?raw"
    by (simp add: decode_rule_def decode_target_def rule_json_def decode_fields_def)
  then have "from_json_str test_labels (text_of (JArray [rule_json ''App::Host'' ''labels'' ''name'' (map ?p ?is)])) =
      from_raw test_labels [?raw]"
    by (simp add: from_json_str_def test_labels_def sample_compile_def parse_text_of decode_vec_def)
  moreover have "first_code (from_raw test_labels [?raw]) ''labels.too_many_patterns''"
    using saturating_total_exceeds [of 4096 "[4097]"]
    by (simp add: from_raw_def validate_document_limits_def check_limits_def total_patterns_def first_code_def
        MAX_TOTAL_PATTERNS_def MAX_LABEL_RULES_def usize_max_def invalid_def del: upt_Suc)
  ultimately show ?thesis
    unfolding label_document_pattern_budget_is_enforced_before_compilation_def by (simp del: upt_Suc)
qed

section \<open>Tests of namespaces and of the command line\<close>

definition namespace_prefixes_are_segment_aware :: bool where
  "namespace_prefixes_are_segment_aware =
     (namespaces_overlap ''A::B'' ''A::B::C'' \<and> \<not> namespaces_overlap ''A::B'' ''A::Bee'')"

definition write_new_file_never_overwrites_an_existing_path :: bool where
  "write_new_file_never_overwrites_an_existing_path =
     (case write_new_file sample_cli ''/org/bundle.toml'' ''replacement'' of
        (effects, Value (Inl (Io path e))) \<Rightarrow> created effects = {}
      | _ \<Rightarrow> False)"

definition password_files_have_a_bounded_size :: bool where
  "password_files_have_a_bounded_size =
     (configured_signing_key_password
        (sample_cli\<lparr>ci_open := (\<lambda>path. Inr
           \<lparr>of_metadata = Inr \<lparr>md_is_file = True, md_mode = 0x180, md_len = 65537\<rparr>,
            of_contents = Inr (replicate (MAX_SIGNING_KEY_PASSWORD_BYTES + 1) (CHR ''x''))\<rparr>)\<rparr>)
        (Some ''password'') =
      Inl (Key [Lit ''signing-key password file '', Disp ''password'', Lit '' exceeds '',
                Num MAX_SIGNING_KEY_PASSWORD_BYTES, Lit '' bytes'']))"

lemma command_line_tests_pass:
  "namespace_prefixes_are_segment_aware"
  "write_new_file_never_overwrites_an_existing_path"
  "password_files_have_a_bounded_size"
proof -
  show "namespace_prefixes_are_segment_aware" by code_simp
  show "write_new_file_never_overwrites_an_existing_path"
    by (simp add: write_new_file_never_overwrites_an_existing_path_def write_new_file_def sample_cli_def
        sample_files_def fails_def)
  show "password_files_have_a_bounded_size"
    by (simp add: password_files_have_a_bounded_size_def configured_signing_key_password_def read_take_def
        MAX_SIGNING_KEY_PASSWORD_BYTES_def)
qed

section \<open>Fuzz targets\<close>

definition fuzz_archive :: "archive_env \<Rightarrow> bytes \<Rightarrow> (bundle_error + validated_bundle) outcome" where
  "fuzz_archive E data =
     (case archive_limits_new (64 * 1024) (256 * 1024) of
        Inl _ \<Rightarrow> Panic
      | Inr limits \<Rightarrow> Value (validate E data AllowUnsigned trust_new limits))"

definition fuzz_labels :: "label_env \<Rightarrow> bytes \<Rightarrow> (bundle_error + label_set) option" where
  "fuzz_labels E data = (if utf8_valid data then Some (from_json_str E data) else None)"

definition fuzz_signature :: "json_lib \<Rightarrow> bytes \<Rightarrow> json_error + bundle_signature" where
  "fuzz_signature J data =
     (if utf8_valid data then from_str J ''BundleSignature'' decode_signature data
      else Inl (jl_error J ''BundleSignature'' data))"

text \<open>\<open>write F path data\<close> is the file system after \<open>fs::write\<close>.\<close>

definition fuzz_manifest ::
  "source_env \<Rightarrow> io_error + string \<Rightarrow> (file_system \<Rightarrow> string \<Rightarrow> bytes \<Rightarrow> io_error + file_system) \<Rightarrow> bytes \<Rightarrow>
     ((bundle_error + module_manifest) \<times> (bundle_error + bundle_manifest)) outcome" where
  "fuzz_manifest S tempdir write data =
     (case tempdir of
        Inl _ \<Rightarrow> Panic
      | Inr dir \<Rightarrow>
          (let module_path = path_join dir ''treetop-module.toml'';
               bundle_path = path_join dir ''treetop-bundle.toml''
           in case write (se_fs S) module_path data of
                Inl _ \<Rightarrow> Panic
              | Inr F \<Rightarrow>
                  (case write F bundle_path data of
                     Inl _ \<Rightarrow> Panic
                   | Inr F' \<Rightarrow> Value (module_from_path (S\<lparr>se_fs := F\<rparr>) module_path,
                                    bundle_from_path (S\<lparr>se_fs := F'\<rparr>) bundle_path))))"

text \<open>The limits of the first target are valid, so its \<open>unwrap\<close> does not panic; without trusted keys
  it accepts unsigned archives only.\<close>

lemma trust_verify_empty: "trust_verify X [] m s \<noteq> Inr i"
  by (simp add: trust_verify_def result_iff)

lemma fuzz_archive_total:
  "fuzz_archive E data \<noteq> Panic \<and>
   (fuzz_archive E data = Value (Inr v) \<longrightarrow> validated_compressed_size v \<le> 65536 \<and> \<not> is_signed (validated_signature v))"
proof -
  obtain limits where l: "archive_limits_new (64 * 1024) (256 * 1024) = Inr limits"
    using archive_limits_new_Inr_iff(1) [of "64 * 1024" "256 * 1024"] by auto
  have m: "al_max_compressed_bytes limits = 65536" using archive_limits_new_Inr_iff(2) [OF l] by simp
  have "validated_compressed_size v \<le> 65536 \<and> \<not> is_signed (validated_signature v)"
    if v: "validate E data AllowUnsigned trust_new limits = Inr v"
  proof -
    from v obtain d vs where "signature_accepted E d AllowUnsigned [] True vs" "vb_signature v = vs"
      by (auto simp: validate_Inr_iff archive_accepted_def bundle_of_def trust_new_def)
    then have "\<not> vs_signed (vb_signature v)"
      by (auto simp: signature_accepted_def trust_verify_empty split: option.splits)
    with validated_bundle_observed [OF v] m show ?thesis by (simp add: interface_defs)
  qed
  with l show ?thesis by (simp add: fuzz_archive_def)
qed

end
