(* ===== verification/Spec2Isabelle.thy ===== *)
theory Spec2Isabelle
  imports Sample_Disk Source_Tests
begin

text \<open>
  A model of \<open>treetop-bundle\<close>, the compiler that checks the Cedar policies, schemas and label documents
  of an organization's modules, packs them into a signed archive, and validates such archives.

  \<^bold>\<open>Parts and theories.\<close>  Theories are listed in the order of their imports; names of files
  are under \<open>src/\<close>, names of functions those of the code.

    \<^item> \<open>Prelude\<close>, \<open>Collections\<close>, \<open>Rust_Text\<close>: \<open>Result\<close> and \<open>Option\<close> combinators, loops with \<open>?\<close>
      as \<open>try_fold\<close>, \<open>BTreeSet\<close>, \<open>BTreeMap\<close>, \<open>HashSet\<close> and the insertion-ordered map of \<open>serde_json\<close>
      behind locales, the \<open>str\<close> operations that the code calls, and \<open>normalize_text\<close>,
      \<open>single_line\<close> and \<open>trim_line_ending\<close>.
    \<^item> \<open>Diagnostics\<close>: \<open>src/diagnostic.rs\<close>, \<open>src/error.rs\<close>.  A message is the list of the arguments of
      its \<open>format!\<close>.  The locale \<open>diagnostic_pass\<close> states what a check that appends diagnostics keeps;
      every such check of the program interprets it.
    \<^item> \<open>Json\<close>: the values of \<open>serde_json\<close>, their equality, \<open>sort_json\<close>, \<open>canonical_json_bytes\<close> and the
      decoding of derived \<open>Deserialize\<close> instances.
    \<^item> \<open>Namespaces\<close>: \<open>namespace_owns\<close>, its reading on the segments of a Cedar name, the locales
      \<open>ownership\<close> and \<open>convex_ownership\<close> on which a scan of neighbours is complete.
    \<^item> \<open>Cedar\<close>: what the program sees of \<open>cedar_policy\<close>, a record of functions that is an argument.
    \<^item> \<open>Manifest\<close>: \<open>src/manifest.rs\<close>.
    \<^item> \<open>Policies\<close>, \<open>Schemas\<close>: the ownership rules and the merging of fragments in \<open>src/validation.rs\<close>;
      the locale \<open>keyed_merge\<close> gives the three nested loops of \<open>merge_schema_fragment\<close> one proof.
    \<^item> \<open>Labels\<close>, \<open>Label_Runtime\<close>, \<open>Label_Schema\<close>: \<open>src/labels.rs\<close>: documents and limits, the two
      labelers behind the locale \<open>label_backend\<close>, and the check against a schema.
    \<^item> \<open>Compile\<close>, \<open>Compile_Correct\<close>: \<open>check_policy\<close>, \<open>check_module\<close>, \<open>compile_manifest\<close> and
      \<open>validate_archive_parts\<close>, and what they accept.  The loop over the modules carries the local
      variables of \<open>compile_manifest\<close> in the record \<open>compile_state\<close>.
    \<^item> \<open>Compiled_Archive\<close>: the parts that compilation returns pass \<open>validate_archive_parts\<close>, by an invariant
      on the aggregate policy set, the parsing of the concatenated policy texts and the schema with
      sorted members.
    \<^item> \<open>Signing\<close>: \<open>src/signing.rs\<close>.
    \<^item> \<open>Archive\<close>, \<open>Archive_Correct\<close>, \<open>Archive_Round_Trip\<close>, \<open>Archive_Validate\<close>: \<open>src/archive.rs\<close>.
    \<^item> \<open>Builder\<close>, \<open>Engine\<close>, \<open>Cli\<close>, \<open>Cli_Correct\<close>: \<open>src/builder.rs\<close>, \<open>src/engine.rs\<close> with the
      preparation of an engine from a validated bundle, and \<open>cli/src/main.rs\<close>.
    \<^item> \<open>Cli_Process\<close>, \<open>Workflow\<close>: a command as a process whose output lines may be refused, and
      sequences of commands on a disk, as an inductive step relation with its reachable disks.
    \<^item> \<open>Interface\<close>: the getters, sizes and conversions of the public types.
    \<^item> \<open>Sample_Json\<close>, \<open>Sample\<close>, \<open>Sample_Build\<close>, \<open>Sample_Run\<close>, \<open>Sample_Disk\<close>: concrete libraries
      and a small organization on which the hypotheses of the properties hold.
    \<^item> \<open>Source_Tests\<close>: unit tests of the source, run on the model, and the fuzz targets.

  \<^bold>\<open>How they interact.\<close>  The command-line tool loads a manifest, \<open>BundleManifest::from_path\<close> loads
  its modules, \<open>compile_manifest\<close> turns them into \<open>bundle_parts\<close>, \<open>BundleArchive::build\<close> into bytes;
  \<open>BundleArchive::validate\<close> decodes bytes, checks signature, manifest and contents again and returns a
  \<open>validated_bundle\<close>, from which \<open>prepare_engine\<close> builds an engine.  On the contents, validation repeats
  the checks of compilation with one difference: compilation asks that the namespaces of a schema and the
  resource types of labels belong to the module of the file, validation that they belong to some module,
  since an archive does not record the files.  \<open>Compiled_Archive\<close> shows that what compilation accepts
  passes validation.  Errors are values of
  \<open>bundle_error\<close> on the left of a sum; a loop that collects diagnostics threads their list.

  \<^bold>\<open>What is a parameter.\<close>  Code outside the repository is a field of a record that the definitions
  take as an argument: \<open>cedar\<close> (parsers, schema construction, validator), \<open>json_lib\<close> (text of JSON),
  \<open>regex_lib\<close>, \<open>label_core\<close> and \<open>engine_core\<close> (\<open>treetop-core\<close>), \<open>crypto\<close>, \<open>codec\<close> (tar and gzip),
  \<open>file_system\<close>, \<open>cli_env\<close>; the parser that clap derives is an argument of \<open>program\<close>, the standard
  streams one of \<open>main_process\<close>.  What a property needs of them is a named hypothesis,
  \<open>json_documented\<close>, \<open>crypto_documented\<close>, \<open>codec_documented\<close>, \<open>core_documented\<close>,
  \<open>regex_documented\<close>, \<open>names_documented\<close>, \<open>schema_documented\<close>, \<open>cedar_documented\<close>,
  \<open>files_documented\<close> and \<open>disk_documented\<close>; the sample theories show that they can hold together.

  \<^bold>\<open>Representation.\<close>  Strings and bytes are lists of characters, one per byte of the UTF-8 text;
  where the code reads UTF-8, validity is checked.  \<open>u32\<close>, \<open>u64\<close> and \<open>usize\<close> are words of 32 and 64
  bits; lengths are natural numbers and are compared with \<open>unat\<close> of a word.  Paths are Unix paths.

  \<^bold>\<open>Recursion.\<close>  No definition uses fuel.  \<open>record_attributes\<close> follows named types; it ends because the
  set of visited names grows within the finite set of declared ones.  All other recursion is structural.

  \<^bold>\<open>Commands.\<close>  The result of a command is the list of its effects with a status.  \<open>main_exit\<close> is \<open>main\<close>
  when every line is accepted; \<open>main_process\<close> stops at the first refused line with status 101, the
  panic of \<open>println!\<close>.  \<open>command_step\<close> relates two disks by a process, whatever it prints.

  \<^bold>\<open>Not modelled.\<close>  The argument syntax that clap derives, \<open>Debug\<close> instances, zeroing of secrets, allocation
  failure, the benchmarks, and the tests that exercise other crates.  Two processes that write at the same
  time are not interleaved: steps on a disk follow one another.  Concurrent use of an engine appears only
  as the state in which a session is asked.  The three \<open>expect\<close>s at the end of \<open>decode_archive\<close> and the one in
  \<open>compute_bundle_id\<close> have no panic as an outcome: the check of the entry names before, and the shape of a
  printed manifest, rule it out.

  \<^bold>\<open>The properties\<close> follow.  Two of them are about defects.  \<open>overlap_scan_incomplete\<close>: the scan for
  overlapping namespaces compares neighbours in byte order, and a name that continues with a digit sorts
  before one that continues with \<open>::\<close>.  \<open>json_report_panics\<close>: a build that reports in JSON panics on an
  output path that is not UTF-8, after the archive was written.  \<open>built_file_checked\<close> and
  \<open>signed_file_checked\<close> are exact about size: \<open>build\<close> and \<open>sign\<close> write archives of any size, \<open>check archive\<close>
  accepts those within the default limits.
\<close>

section \<open>Archives\<close>

text \<open>
  C1: What a manifest is built into validates.  When Cedar and the other libraries behave as
  documented, the strings of the compiled parts are UTF-8 and their JSON documents are ones that
  \<open>serde_json\<close> reads back, the archive that the builder returns, signed or not,
  warnings denied or not, is accepted by \<open>validate\<close> under any size limits that it keeps
  and any policy and trust store that trust the signer, and the validated bundle has the name,
  modules, policies, canonical schema, labels and policy ids that were compiled.  So validation
  finds no fault with anything that compilation accepts.
\<close>

theorem built_bundle_validates:
  assumes "libraries_documented E" "schema_documented (ar_compile E)" "cedar_documented (ce_cedar (ar_compile E))"
    and "builder_from_manifest (ar_compile E) path = Inr b"
    and "compile_manifest (ar_compile E) (bb_manifest b) = Inr parts" "parts_printable E parts"
    and "builder_build E (deny_warnings b deny) key = Inr a" "within_limits (ar_codec E) a limits"
    and "signer_trusted (ar_crypto E) policy store key"
  shows "\<exists>vb. validate E a policy store limits = Inr vb \<and> vb_name vb = bun_name (bb_manifest b) \<and>
    vb_modules vb = bp_modules parts \<and> vb_policies vb = bp_policies parts \<and>
    vb_schema_json vb = map_option sort_json (bp_schema_json parts) \<and> vb_labels vb = bp_labels parts \<and>
    vb_policy_ids vb = bp_policy_ids parts \<and> vb_signature vb = signed_by (ar_crypto E) key"
  using assms by (rule manifest_to_archive)

theorem built_bundle_validates_witness:
  "\<exists>a vb. builder_build sample_archive (deny_warnings sample_builder True) (Some ''k'') = Inr a \<and>
     validate sample_archive a Required sample_store archive_limits_default = Inr vb \<and>
     vb_name vb = ''org'' \<and> vb_policy_ids vb = [''docs.read''] \<and> vs_signed (vb_signature vb)"
proof -
  obtain a where a: "builder_build sample_archive (deny_warnings sample_builder True) (Some ''k'') = Inr a"
    "within_limits (ar_codec sample_archive) a archive_limits_default"
    using sample_builder_build by auto
  have "\<exists>vb. validate sample_archive a Required sample_store archive_limits_default = Inr vb \<and>
      vb_name vb = bun_name (bb_manifest sample_builder) \<and> vb_modules vb = bp_modules sample_parts \<and>
      vb_policies vb = bp_policies sample_parts \<and>
      vb_schema_json vb = map_option sort_json (bp_schema_json sample_parts) \<and>
      vb_labels vb = bp_labels sample_parts \<and> vb_policy_ids vb = bp_policy_ids sample_parts \<and>
      vb_signature vb = signed_by (ar_crypto sample_archive) (Some ''k'')"
    by (rule built_bundle_validates [of sample_archive "''/org/bundle.toml''", OF _ _ _ _ _ _ a])
      (simp_all add: sample_env)
  with a(1) show ?thesis
    by (auto simp: sample_builder_def sample_manifest_def sample_parts_def signed_by_def)
qed

text \<open>
  C2: Re-signing an archive that \<open>resign\<close> accepts changes its signature and nothing
  else: if the result keeps the size limits of the reader, it validates against a store with the new
  key, with the contents that the input had.
\<close>

theorem resigning_keeps_contents:
  assumes "libraries_documented E" "resign E b key limits = Inr b'"
    and "within_limits (ar_codec E) b' limits'"
    and "signer_trusted (ar_crypto E) policy store (Some key)"
  shows "\<exists>vb vb'. validate_inner E b AllowUnsigned [] limits False = Inr vb \<and>
    validate E b' policy store limits' = Inr vb' \<and> same_contents vb vb' \<and>
    vb_signature vb' = signed_by (ar_crypto E) (Some key)"
  using assms by (rule resign_accepted)

theorem resigning_keeps_contents_witness:
  "\<exists>b b' vb vb'. build sample_archive sample_parts None = Inr b \<and>
     resign sample_archive b ''k'' archive_limits_default = Inr b' \<and>
     validate_inner sample_archive b AllowUnsigned [] archive_limits_default False = Inr vb \<and>
     validate sample_archive b' Required sample_store archive_limits_default = Inr vb' \<and> same_contents vb vb'"
proof -
  obtain b where b: "build sample_archive sample_parts None = Inr b" "length b \<le> 200000"
    using sample_build [of None] by auto
  from sample_resign [OF b] obtain b' where b': "resign sample_archive b ''k'' archive_limits_default = Inr b'"
    "length b' \<le> 300000" by blast
  from sample_within_limits [OF b'(2)] have "within_limits (ar_codec sample_archive) b' archive_limits_default"
    by simp
  from resigning_keeps_contents [OF sample_libraries b'(1) this, of Required sample_store] b(1) b'(1)
  show ?thesis by (auto simp: sample_env)
qed

text \<open>
  C3: The archives that \<open>validate\<close> accepts are exactly those that decode within the
  limits to documents whose signature, manifest and contents are accepted, and the bundle it returns
  is determined by them.
\<close>

theorem accepted_archives:
  "validate E bytes policy store limits = Inr vb \<longleftrightarrow>
     (\<exists>d m vs parts. decoded_from (ar_codec E) bytes limits d \<and> signature_accepted E d policy store True vs \<and>
        manifest_describes E d m \<and> contents_accepted E d m parts \<and>
        vb = bundle_of (ar_crypto E) bytes m vs parts)"
  by (simp add: validate_Inr_iff archive_accepted_def)

text \<open>
  C4: Under the policy \<open>required\<close>, and for every bundle reported as signed, the
  manifest bytes of the archive were verified strictly, under the domain prefix, with a key of the
  trust store, whose id is reported.
\<close>

theorem required_signature_verified:
  assumes "validate E b policy store limits = Inr vb" "policy = Required \<or> vs_signed (vb_signature vb)"
  shows "\<exists>d s key sig. decoded_from (ar_codec E) b limits d \<and> da_signature d \<noteq> None \<and>
    map_of store (bs_key_id s) = Some key \<and> signature_bytes (ar_crypto E) s = Some sig \<and>
    cr_verify_strict (ar_crypto E) (tk_key key) (SIGNATURE_DOMAIN @ da_manifest d) sig \<and>
    vb_signature vb = \<lparr>vs_signed = True, vs_key_id = Some (tk_key_id key)\<rparr>"
proof -
  from assms(1) obtain d m vs parts where d: "decoded_from (ar_codec E) b limits d"
    "signature_accepted E d policy store True vs" "vb = bundle_of (ar_crypto E) b m vs parts"
    by (auto simp: validate_Inr_iff archive_accepted_def)
  then have vs: "vb_signature vb = vs" by (simp add: bundle_of_def)
  with d(2) assms(2) obtain s i where "trust_verify (ar_crypto E) store (da_manifest d) s = Inr i"
    "vs = \<lparr>vs_signed = True, vs_key_id = Some i\<rparr>" "da_signature d \<noteq> None"
    by (auto simp: signature_accepted_def split: option.splits)
  with d(1) vs show ?thesis by (auto simp: trust_verify_Inr_iff)
qed

theorem required_signature_verified_witness:
  "\<exists>b vb. validate sample_archive b Required sample_store archive_limits_default = Inr vb \<and>
     (\<exists>d (s :: bundle_signature) key sig. decoded_from sample_codec b archive_limits_default d \<and> da_signature d \<noteq> None \<and>
        map_of sample_store (bs_key_id s) = Some key \<and>
        cr_verify_strict sample_crypto (tk_key key) (SIGNATURE_DOMAIN @ da_manifest d) sig)"
proof -
  obtain b where b: "build sample_archive sample_parts (Some ''k'') = Inr b" "length b \<le> 200000"
    using sample_build [of "Some ''k''"] by auto
  from b(2) sample_within_limits have "within_limits (ar_codec sample_archive) b archive_limits_default" by simp
  from build_accepted [OF sample_libraries sample_parts_valid b(1) this, of Required sample_store]
  obtain vb where vb: "validate sample_archive b Required sample_store archive_limits_default = Inr vb"
    by (auto simp: sample_env)
  from required_signature_verified [OF this disjI1 [OF refl]] have "\<exists>d (s :: bundle_signature) key sig. decoded_from sample_codec b archive_limits_default d \<and>
      da_signature d \<noteq> None \<and> map_of sample_store (bs_key_id s) = Some key \<and>
      cr_verify_strict sample_crypto (tk_key key) (SIGNATURE_DOMAIN @ da_manifest d) sig"
    unfolding sample_parts_of by blast
  with vb show ?thesis by blast
qed

text \<open>
  C5: The manifest pins the contents of an archive: two archives that \<open>validate\<close>
  accepts, under whatever policies, stores and limits, and whose manifest bytes are the same, hold
  the same artifacts, and the validated bundles agree in everything but archive hash, size and
  signature, unless two different artifacts at one path have the same SHA-256 digest.
\<close>

theorem manifest_pins_artifacts:
  assumes "validate E b policy store limits = Inr vb" "validate E b' policy' store' limits' = Inr vb'"
    and "decode_archive (ar_codec E) b limits = Inr d" "decode_archive (ar_codec E) b' limits' = Inr d'"
    and "da_manifest d = da_manifest d'" "no_collision (ar_crypto E) d d'"
  shows "artifact_entries d = artifact_entries d' \<and> same_contents vb vb'"
  using assms by (rule pinned_contents)

theorem manifest_pins_artifacts_witness:
  "\<exists>b b' vb vb'. validate sample_archive b AllowUnsigned [] archive_limits_default = Inr vb \<and>
     validate sample_archive b' Required sample_store archive_limits_default = Inr vb' \<and>
     vs_signed (vb_signature vb') \<noteq> vs_signed (vb_signature vb) \<and> same_contents vb vb'"
proof -
  obtain b b' d d' vb vb' where v: "validate sample_archive b AllowUnsigned [] archive_limits_default = Inr vb"
     "validate sample_archive b' Required sample_store archive_limits_default = Inr vb'"
    and d: "decode_archive sample_codec b archive_limits_default = Inr d"
     "decode_archive sample_codec b' archive_limits_default = Inr d'"
     "da_manifest d = da_manifest d'" "no_collision sample_crypto d d'"
     "vs_signed (vb_signature vb') \<noteq> vs_signed (vb_signature vb)"
    using sample_two_archives by blast
  have "same_contents vb vb'"
    using manifest_pins_artifacts [OF v, of d d'] d(1-4) by simp
  with v d(5) show ?thesis by blast
qed

text \<open>
  C6: What \<open>sign_manifest\<close> signs, a trust store with the signer's public key verifies,
  and returns the id of that key.
\<close>

theorem signature_round_trip:
  assumes "crypto_documented X" "trust_ok X store"
    and "trusted_bytes store (key_id X (cr_verifying_key X key)) = Some (cr_verifying_key X key)"
  shows "trust_verify X store manifest (sign_manifest X key manifest) = Inr (key_id X (cr_verifying_key X key))"
  using assms by (rule sign_verify)

theorem signature_round_trip_witness:
  "trust_verify sample_crypto sample_store ''manifest'' (sign_manifest sample_crypto ''k'' ''manifest'') =
     Inr (key_id sample_crypto ''k'')"
  using signature_round_trip [OF sample_crypto_documented(1) sample_store_ok(1), of "''k''" "''manifest''"]
  by (simp add: sample_crypto_def sample_store_def trusted_bytes_def)

section \<open>Commands\<close>

text \<open>
  C7: The file of a successful build passes the check of archives exactly if it keeps the default
  size limits, which a build does not look at.  On a disk that only the commands change, when Cedar
  and the other libraries behave as documented, the compiled parts can be printed and the length of
  the file fits 64 bits, \<open>check archive\<close> on the output of a \<open>build\<close> that
  exited with status 0 exits with status 0 exactly if the file and its decompressed stream are
  within the default limits, under every signature policy and set of key files that trust the
  signer.
\<close>

theorem built_file_checked:
  assumes "disk_documented env" "command_step env d (Build a, 0) d'" "printable_build (env d) a key"
    and "d' (ba_output a) = Some x" "length x < 2 ^ 64"
    and "load_trust_store (env d') keys = Inr store"
    and "signer_trusted (ci_crypto (env d)) (signature_policy_of policy) store key"
  shows "snd (main_process (\<lambda>_ _. True) (env d') (Check (Check_archive (ba_output a) keys policy
    \<lparr>ca_format = Human, ca_deny_warnings = False\<rparr>))) = 0 \<longleftrightarrow> fits (env d) x"
  using assms by (rule built_file_checks)

theorem built_file_checked_witness:
  "\<exists>d. command_step sample_disk Map.empty (Build sample_build_args, 0) d \<and>
     snd (main_process (\<lambda>_ _. True) (sample_disk d) (Check (Check_archive ''/org/out.tar.gz'' [''/org/key.pub'']
       Arg_required \<lparr>ca_format = Human, ca_deny_warnings = False\<rparr>))) = 0"
proof -
  obtain d where d: "built_disk d" "command_step sample_disk Map.empty (Build sample_build_args, 0) d"
    using sample_build_step by blast
  have o: "ba_output sample_build_args = ''/org/out.tar.gz''" by (simp add: sample_build_args_def)
  from d(1) obtain x where x: "d ''/org/out.tar.gz'' = Some x" "within_limits sample_codec x archive_limits_default"
    by (auto simp: built_disk_def)
  then have f: "fits (sample_disk Map.empty) x" "length x < 2 ^ 64"
    using default_limit by (auto simp: fits_def within_limits_def)
  have t: "signer_trusted (ci_crypto (sample_disk Map.empty)) (signature_policy_of Arg_required) sample_store (Some ''k'')"
    using sample_signer_trusted(1) by (simp add: signature_policy_of_def)
  show ?thesis
    using built_file_checked [where d = Map.empty and d' = d and x = x, OF sample_disk_documented d(2) _ _ f(2) sample_trust_store t]
      sample_printable_build d(2) f(1) x(1)
    unfolding sample_disk_empty o by blast
qed

text \<open>
  C8: The file of a successful \<open>sign\<close> passes the check of archives exactly if it keeps
  the default size limits.  On a disk that only the commands change, when the libraries behave as
  documented and the length of the file fits 64 bits, \<open>check archive\<close> on it, with key
  files that trust the new signer, exits with status 0 exactly if the signed archive is within the
  default limits on the compressed and the uncompressed size.  \<open>sign\<close> checks the limits
  of its input only, so it can turn an archive just below a limit into one that the check refuses.
\<close>

theorem signed_file_checked:
  assumes "disk_documented env" "command_step env d (Sign a, 0) d'" "libraries_documented (ci_archive (env d))"
    and "load_signing_key (env d) (sa_signing_key a) (sa_password_file a) = Inr key"
    and "d' (sa_output a) = Some x" "length x < 2 ^ 64"
    and "load_trust_store (env d') keys = Inr store"
    and "signer_trusted (ci_crypto (env d)) (signature_policy_of policy) store (Some key)"
  shows "snd (main_process (\<lambda>_ _. True) (env d') (Check (Check_archive (sa_output a) keys policy
    \<lparr>ca_format = Human, ca_deny_warnings = False\<rparr>))) = 0 \<longleftrightarrow> fits (env d) x"
  using assms by (rule signed_file_checks)

theorem signed_file_checked_witness:
  "\<exists>d d'. command_step sample_disk d (Sign sample_sign_args, 0) d' \<and>
     snd (main_process (\<lambda>_ _. True) (sample_disk d') (Check (Check_archive ''/org/signed.tar.gz'' [''/org/key.pub'']
       Arg_required \<lparr>ca_format = Human, ca_deny_warnings = False\<rparr>))) = 0"
proof -
  obtain d d' x where k: "d ''/org/key.pem'' = None" and s: "command_step sample_disk d (Sign sample_sign_args, 0) d'"
    "d' ''/org/signed.tar.gz'' = Some x" "fits (sample_disk d) x"
    using sample_sign_step by blast
  have o: "sa_output sample_sign_args = ''/org/signed.tar.gz''" by (simp add: sample_sign_args_def)
  have "length x < 2 ^ 64" using s(3) default_limit by (auto simp: fits_def within_limits_def)
  have "snd (main_process (\<lambda>_ _. True) (sample_disk d') (Check (Check_archive (sa_output sample_sign_args) [''/org/key.pub'']
       Arg_required \<lparr>ca_format = Human, ca_deny_warnings = False\<rparr>))) = 0 \<longleftrightarrow> fits (sample_disk d) x"
    by (rule signed_file_checked [OF sample_disk_documented s(1) _ _ _ \<open>length x < 2 ^ 64\<close> sample_trust_store])
      (use s(2) sample_signer_trusted(1) in
        \<open>simp_all add: o sample_libraries sample_disk_key [of d, OF k] signature_policy_of_def sample_sign_args_def\<close>)
  with s(1,3) show ?thesis unfolding o by blast
qed

text \<open>
  C9: No sequence of commands, whatever their exit statuses and whichever of their output lines are
  refused, alters or removes a file: each file of the last disk was there before or holds a prefix
  of the archive that one of the commands produced, the whole archive if that command exited with
  status 0.
\<close>

theorem files_never_altered:
  assumes "command_steps env d xs d'" "disk_documented env"
  shows "d \<subseteq>\<^sub>m d' \<and> (\<forall>p c. d' p = Some c \<longrightarrow> d p = Some c \<or>
    (\<exists>x \<in> set xs. \<exists>d0. d \<subseteq>\<^sub>m d0 \<and> d0 \<subseteq>\<^sub>m d' \<and> d0 p = None \<and> left_by (env d0) x p c))"
  using assms by (rule command_steps_keep)

theorem files_never_altered_witness:
  "\<exists>d c. command_steps sample_disk Map.empty [(Build sample_build_args, 0)] d \<and> d ''/org/out.tar.gz'' = Some c \<and>
     (\<exists>d0. left_by (sample_disk d0) (Build sample_build_args, 0) ''/org/out.tar.gz'' c)"
proof -
  obtain d where d: "built_disk d" "command_step sample_disk Map.empty (Build sample_build_args, 0) d"
    using sample_build_step by blast
  then have s: "command_steps sample_disk Map.empty [(Build sample_build_args, 0)] d"
    by (simp add: command_steps_simps)
  from d(1) obtain c where c: "d ''/org/out.tar.gz'' = Some c" by (auto simp: built_disk_def)
  from files_never_altered [OF s sample_disk_documented] c
  have "\<exists>d0. left_by (sample_disk d0) (Build sample_build_args, 0) ''/org/out.tar.gz'' c" by fastforce
  with s c show ?thesis by blast
qed

text \<open>
  C10: Checking and building agree: a build that exits with status 0 is of a bundle that
  \<open>check bundle\<close> accepts under the same setting for warnings, and content that the
  check accepts is refused by a build only if the archive of the compiled parts cannot be encoded.
\<close>

theorem check_and_build_agree:
  "(snd (main_exit E (Build a)) = 0 \<longrightarrow> snd (main_exit E (check_of_build a)) = 0) \<and>
   (snd (main_exit E (check_of_build a)) = 0 \<and> snd (main_exit E (Build a)) = 1 \<longrightarrow>
      (\<exists>b parts key m. builder_from_manifest (ci_compile E) (ba_manifest a) = Inr b \<and>
         compile_manifest (ci_compile E) (bb_manifest b) = Inr parts \<and> build (ci_archive E) parts key = Inl (Archive m)))"
  using build_implies_check check_implies_build by blast

theorem check_and_build_agree_witness:
  "snd (main_exit sample_cli (Check (Check_bundle ''/org/bundle.toml'' \<lparr>ca_format = Human, ca_deny_warnings = True\<rparr>))) = 0"
proof -
  have "snd (main_exit sample_cli (Build sample_build_args)) = 0"
    using sample_run_build by (auto simp: main_exit_def)
  with check_and_build_agree [of sample_cli sample_build_args] show ?thesis by (simp add: sample_build_args_def)
qed

text \<open>
  C11: \<open>check\<close> exits with status 0 exactly if every line of its output was accepted and
  the target passes: its files can be read, \<open>check_policy\<close>,
  \<open>check_module\<close>, \<open>builder_check\<close> or \<open>validate\<close> (with the
  default limits) succeeds on it, the diagnostics returned are valid under the setting for warnings,
  and, for JSON, the report can be serialized.  Content that is refused never gives status 0.
\<close>

theorem check_exit_status:
  "snd (main_process ok E (Check t)) = 0 \<longleftrightarrow> delivered ok E (Check t) \<and>
     (case t of
        Check_policy path schema labels c \<Rightarrow>
          (\<exists>policy s l checked. read_string E path = Inr policy \<and>
             transpose (map_option (read_string E) schema) = Inr s \<and>
             transpose (map_option (read_string E) labels) = Inr l \<and>
             check_policy (ci_compile E) policy s l = Inr checked \<and>
             is_valid checked (ca_deny_warnings c) \<and> reportable E c (pc_diagnostics checked) None None)
      | Check_module path c \<Rightarrow>
          (\<exists>checked. check_module (ci_compile E) path = Inr checked \<and>
             is_valid checked (ca_deny_warnings c) \<and> reportable E c (pc_diagnostics checked) None None)
      | Check_bundle path c \<Rightarrow>
          (\<exists>b checked. builder_from_manifest (ci_compile E) path = Inr b \<and>
             builder_check (ci_compile E) b = Inr checked \<and>
             is_valid checked (ca_deny_warnings c) \<and> reportable E c (pc_diagnostics checked) None None)
      | Check_archive path keys policy c \<Rightarrow>
          (\<exists>store bytes v. load_trust_store E keys = Inr store \<and>
             archive_read (ci_open E) path (al_max_compressed_bytes archive_limits_default) = Inr bytes \<and>
             validate (ci_archive E) bytes (signature_policy_of policy) store archive_limits_default = Inr v \<and>
             is_valid \<lparr>pc_diagnostics = vb_diagnostics v\<rparr> (ca_deny_warnings c) \<and>
             reportable E c (vb_diagnostics v) (Some (vb_bundle_id v)) (Some (vb_archive_sha256 v))))"
  unfolding check_accepts_def [symmetric]
  by (simp add: main_process_status exit_0_iff run_def succeeded_check_iff)

theorem check_exit_status_witness:
  "snd (main_process (\<lambda>_ _. True) sample_cli
     (Check (Check_bundle ''/org/bundle.toml'' \<lparr>ca_format = Human, ca_deny_warnings = True\<rparr>))) = 0"
proof -
  have "builder_from_manifest (ci_compile sample_cli) ''/org/bundle.toml'' = Inr sample_builder"
    using sample_from_manifest by simp
  moreover have "builder_check (ci_compile sample_cli) sample_builder = Inr \<lparr>pc_diagnostics = []\<rparr>"
    by (simp add: builder_check_def sample_builder_def sample_compiled and_then_def ensure_def has_warning_def sample_parts_def)
  ultimately show ?thesis
    unfolding check_exit_status by (simp add: is_valid_def reportable_def delivered_def perform_accepted)
qed

text \<open>
  C12: A \<open>build\<close> or \<open>sign\<close> that exits with status 0 has created one file,
  the requested output, with the whole archive.
\<close>

theorem successful_output:
  assumes "files_documented E" "snd (main_process ok E cmd) = 0" "\<And>t. cmd \<noteq> Check t"
  shows "\<exists>path archive. produced E cmd path archive \<and> created (fst (main_process ok E cmd)) = {(path, archive)}"
  unfolding created_main_process
  by (rule output_written [OF assms(1) _ assms(3)]) (use assms(2) in \<open>simp add: main_process_status split: if_splits\<close>)

theorem successful_output_witness:
  "\<exists>archive. produced sample_cli (Build sample_build_args) ''/org/out.tar.gz'' archive \<and>
     created (fst (main_process (\<lambda>_ _. True) sample_cli (Build sample_build_args))) = {(''/org/out.tar.gz'', archive)}"
proof -
  have "snd (main_process (\<lambda>_ _. True) sample_cli (Build sample_build_args)) = 0"
    using sample_run_build by (auto simp: accepting_process main_exit_def)
  from successful_output [OF sample_files_documented this] obtain path archive where
    o: "produced sample_cli (Build sample_build_args) path archive"
    "created (fst (main_process (\<lambda>_ _. True) sample_cli (Build sample_build_args))) = {(path, archive)}" by blast
  moreover from o(1) have "path = ''/org/out.tar.gz''" by (simp add: produced_def sample_build_args_def)
  ultimately show ?thesis by blast
qed

text \<open>
  C13: A command that exits with status 1 has refused invalid content and has created no file,
  whatever becomes of its output lines.
\<close>

theorem refused_content_not_written:
  assumes "snd (main_process ok E cmd) = 1"
  shows "created (fst (main_process ok E cmd)) = {} \<and> (\<exists>e. snd (run E cmd) = Value (Inl e) \<and> is_validation e)"
proof -
  have "snd (main_exit E cmd) = 1" using assms by (simp add: main_process_status split: if_splits)
  then show ?thesis using refused_creates_nothing [of E cmd] unfolding exit_1_iff created_main_process by blast
qed

theorem refused_content_not_written_witness:
  "\<exists>c. snd (main_process (\<lambda>_ _. True) sample_cli c) = 1 \<and> created (fst (main_process (\<lambda>_ _. True) sample_cli c)) = {}"
proof -
  let ?c = "Check (Check_module ''/org/bundle.toml'' \<lparr>ca_format = Human, ca_deny_warnings = False\<rparr>)"
  have "snd (main_exit sample_cli ?c) = 1" by code_simp
  then have "snd (main_process (\<lambda>_ _. True) sample_cli ?c) = 1" by (simp add: accepting_process)
  with refused_content_not_written [OF this] show ?thesis by blast
qed

text \<open>
  C14: While its output lines are accepted, a command panics only in the JSON report of a build
  whose output path is not UTF-8, and by then the whole archive has been created at that path.
\<close>

theorem json_report_panics:
  assumes "files_documented E" "snd (main_exit E c) = 101"
  shows "\<exists>a archive. c = Build a \<and> ba_format a = Json \<and> \<not> utf8_valid (ba_output a) \<and>
    produced E c (ba_output a) archive \<and> created (fst (main_exit E c)) = {(ba_output a, archive)}"
  using panic_keeps_archive [OF assms(1)] assms(2) by (simp add: exit_101_iff created_main_exit)

theorem json_report_panics_witness:
  "\<exists>archive. snd (main_exit sample_cli (Build non_utf8_args)) = 101 \<and>
     created (fst (main_exit sample_cli (Build non_utf8_args))) = {(ba_output non_utf8_args, archive)}"
proof -
  have p: "snd (main_exit sample_cli (Build non_utf8_args)) = 101"
    using sample_run_panics by (simp add: exit_101_iff)
  from json_report_panics [OF sample_files_documented p] p show ?thesis by blast
qed

section \<open>Compilation\<close>

text \<open>
  C15: Compilation refines the contract of a bundle: when \<open>compile_manifest\<close> accepts,
  each module's policies, schemas and labels come from its own files, mention and declare only what
  the module may, policy ids are unique in the bundle and the aggregate schema is the union of the
  disjoint fragments.
\<close>

theorem compiled_bundle:
  assumes "compile_manifest E b = Inr parts" "schema_documented E"
  shows "\<exists>outs. bundle_compiled E b outs parts"
  using assms by (rule compile_manifest_spec)

theorem compiled_bundle_witness: "\<exists>outs. bundle_compiled sample_compile sample_manifest outs sample_parts"
  by (rule compiled_bundle [OF sample_compiled sample_schema_documented])

text \<open>
  C16: Compilation refuses with a list of diagnostics among which is an error, with an I/O error or
  with a serialization error.
\<close>

theorem compilation_errors:
  assumes "compile_manifest E b = Inl e"
  shows "(\<exists>ds. e = Validation ds \<and> has_error ds) \<or> (\<exists>path err. e = Io path err) \<or> (\<exists>t. e = Serialization t)"
  using compile_manifest_Inl [OF assms] by (simp add: compile_failure_def)

theorem compilation_errors_witness:
  "\<exists>e. compile_manifest sample_compile duplicated_manifest = Inl e \<and>
     ((\<exists>ds. e = Validation ds \<and> has_error ds) \<or> (\<exists>path err. e = Io path err) \<or> (\<exists>t. e = Serialization t))"
proof -
  have "case compile_manifest sample_compile duplicated_manifest of Inl e \<Rightarrow> True | Inr _ \<Rightarrow> False" by code_simp
  then obtain e where "compile_manifest sample_compile duplicated_manifest = Inl e" by (auto split: sum.splits)
  with compilation_errors [OF this] show ?thesis by blast
qed

text \<open>
  C17: \<open>validate_archive_parts\<close> accepts exactly the parts whose policies parse to
  static policies, each with an id that the records assign to a module which may hold the policy,
  with distinct ids that are the declared ones; whose schema, if there is one, declares only
  namespaces owned by some module, builds, validates the policy set and types the fields of every
  label rule; and whose label rules are about resource types owned by some module.  Compilation asks
  more of schemas and labels: there the owner must be the module that the file belongs to.
\<close>

theorem archive_parts_accepted:
  "(\<exists>parts. validate_archive_parts E name modules policies schema_json labels declared = Inr parts) \<longleftrightarrow>
   (\<exists>ps. cd_parse_policies (ce_cedar E) policies = Inr ps \<and>
      ps_templates ps = 0 \<and> set (ps_policies ps) \<subseteq> {p. p_static p} \<and>
      set (ps_policies ps) \<subseteq> {p. \<exists>pid m. non_empty_id p = Some pid \<and>
        map_of (module_by_policy modules) pid = Some m \<and> policy_ok m p} \<and>
      distinct (declared_ids (ps_policies ps)) \<and> set (declared_ids (ps_policies ps)) = set declared \<and>
      (case schema_json of
         None \<Rightarrow> True
       | Some j \<Rightarrow>
           declared_namespaces j \<subseteq> {ns. \<exists>m \<in> set modules. namespace_owns (mr_namespace m) ns} \<and>
           (\<exists>schema. cd_schema_from_json (ce_cedar E) j = Inr schema \<and> policy_set_valid schema ps \<and>
              set labels \<subseteq> {r. declared_string_field (ce_cedar E) schema j r})) \<and>
      set labels \<subseteq> {r. \<exists>m \<in> set modules. namespace_owns (mr_namespace m) (lt_resource_type (lr_target r))})"
  unfolding validate_archive_parts_accepts archive_parts_ok_def archive_schema_ok_def archive_policy_ok_def
    not_static_def list_ex_iff subset_eq mem_Collect_eq by (cases schema_json) simp_all

theorem archive_parts_accepted_witness:
  "\<exists>ps. cd_parse_policies sample_cedar ''permit'' = Inr ps \<and> ps_templates ps = 0 \<and>
     set (declared_ids (ps_policies ps)) = {''docs.read''}"
proof -
  have "case validate_archive_parts sample_compile ''org'' [sample_record] ''permit'' (Some (sort_json sample_schema_json))
      [sample_rule] [''docs.read''] of Inr _ \<Rightarrow> True | Inl _ \<Rightarrow> False" by code_simp
  then have "\<exists>parts. validate_archive_parts sample_compile ''org'' [sample_record] ''permit''
      (Some (sort_json sample_schema_json)) [sample_rule] [''docs.read''] = Inr parts" by (auto split: sum.splits)
  from this [unfolded archive_parts_accepted] show ?thesis by auto
qed

text \<open>
  C18: A bundle manifest that loads is well formed: its modules are exactly those that the TOML file
  at the requested path selects, relative to the directory of its canonical path, each loaded from
  its own manifest with the selected role, sorted by name with distinct names; each has valid names
  and contained input paths, and every import is resolved.
\<close>

theorem loaded_manifest_ok:
  assumes "bundle_from_path E requested = Inr b"
  shows "bundle_ok E b \<and>
    (\<exists>source raw directory loaded. fs_read (se_fs E) requested = Inr source \<and> utf8_valid source \<and>
       se_toml_bundle E source = Inr raw \<and> fs_canonicalize (se_fs E) requested = Inr (bun_path b) \<and>
       path_parent (bun_path b) = Some directory \<and>
       list_all2 (selected_as E directory) (rb_modules raw) loaded \<and>
       bun_modules b = sort_key ms_name loaded \<and> bun_name b = rb_name raw)"
  using assms by (rule bundle_from_path_Inr)

theorem loaded_manifest_ok_witness:
  "\<exists>loaded. list_all2 (selected_as sample_source ''/org'') (rb_modules sample_bundle) loaded \<and>
     bun_modules sample_manifest = sort_key ms_name loaded"
proof -
  from loaded_manifest_ok [OF sample_bundle_from_path] obtain source raw directory loaded where
    l: "se_toml_bundle sample_source source = Inr raw" "path_parent (bun_path sample_manifest) = Some directory"
      "list_all2 (selected_as sample_source directory) (rb_modules raw) loaded"
      "bun_modules sample_manifest = sort_key ms_name loaded" by blast
  have "path_parent (bun_path sample_manifest) = Some ''/org''" by code_simp
  with l(1,2) have "raw = sample_bundle" "directory = ''/org''" by (simp_all add: sample_source_def)
  with l(3,4) show ?thesis by blast
qed

text \<open>
  C19: An input path of a module is accepted exactly if it is an explicit relative path whose
  canonical form is a file below the module directory.
\<close>

theorem input_paths_confined:
  "validate_input_path F directory p [] = [] \<longleftrightarrow>
     p \<noteq> [] \<and> \<not> is_absolute p \<and> ParentDir \<notin> set (components p) \<and> set p \<inter> glob_chars = {} \<and>
     (\<exists>canonical. fs_canonicalize F (path_join directory p) = Inr canonical \<and>
        prefix (components directory) (components canonical) \<and> fs_is_file F canonical)"
  by (simp add: validate_input_path_Nil_iff input_ok_def explicit_relative_def path_starts_with_def conj_assoc)

text \<open>
  C20: When no namespace of a loaded bundle holds a character below the colon, no Cedar name is
  owned by two of its modules.
\<close>

theorem namespace_owner_unique:
  assumes "bundle_from_path E requested = Inr b" "names_documented (se_cedar E)"
    and "\<forall>m \<in> set (bun_modules b). plain_name (ms_namespace m)" "cedar_path c"
    and "m \<in> set (bun_modules b)" "namespace_owns (ms_namespace m) c"
    and "m' \<in> set (bun_modules b)" "namespace_owns (ms_namespace m') c"
  shows "m = m'"
proof -
  from bundle_from_path_Inr [OF assms(1)] have ok: "bundle_ok E b" by blast
  let ?ns = "map ms_namespace (bun_modules b)"
  have "list_all plain_name ?ns" using assms(3) by (simp add: list_all_iff)
  moreover have "neighbours_disjoint ?ns" using ok by (simp add: bundle_ok_def module_set_ok_def)
  ultimately have dis: "pairwise_disjoint ?ns"
    by (metis neighbours_disjoint_plain pairwise_disjoint_sort)
  have "cedar_path (ms_namespace x)" if "x \<in> set (bun_modules b)" for x
    using ok assms(2) that by (auto simp: bundle_ok_def module_ok_def namespace_ok_def names_documented_def)
  then have paths: "list_all cedar_path ?ns" by (simp add: list_all_iff)
  obtain i j where ij: "i < length (bun_modules b)" "bun_modules b ! i = m"
    "j < length (bun_modules b)" "bun_modules b ! j = m'"
    using assms(5,7) by (meson in_set_conv_nth)
  have "i = j"
    using dis paths assms(4,6,8) ij
    by (intro namespace.unique_owner [of ?ns c]) (simp_all add: pairwise_disjoint_def namespaces_overlap_def)
  with ij show ?thesis by simp
qed

theorem namespace_owner_unique_witness:
  "\<exists>b. bundle_from_path two_modules ''/org/bundle.toml'' = Inr b \<and> length (bun_modules b) = 2 \<and>
     {m \<in> set (bun_modules b). namespace_owns (ms_namespace m) ''Docs::Doc''} = {hd (bun_modules b)}"
proof -
  obtain b where b: "bundle_from_path two_modules ''/org/bundle.toml'' = Inr b"
    "map ms_namespace (bun_modules b) = [''Docs'', ''Users'']" 
    using two_modules_loaded by (elim exE conjE, intro that)
  let ?m = "hd (bun_modules b)"
  have len: "length (bun_modules b) = 2" using arg_cong [OF b(2), of length] by simp
  then have m: "?m \<in> set (bun_modules b)" by (cases "bun_modules b") auto
  have owns: "namespace_owns (ms_namespace ?m) ''Docs::Doc''"
  proof -
    have "ms_namespace ?m = ''Docs''" using b(2) m by (cases "bun_modules b") simp_all
    moreover have "namespace_owns ''Docs'' ''Docs::Doc''" by code_simp
    ultimately show ?thesis by (simp only:)
  qed
  have names: "names_documented (se_cedar two_modules)" by (simp add: two_modules_def sample_names)
  have "list_all plain_name [''Docs'', ''Users'']" by code_simp
  have plain: "\<forall>m \<in> set (bun_modules b). plain_name (ms_namespace m)"
  proof
    fix m assume "m \<in> set (bun_modules b)"
    then have "ms_namespace m \<in> set (map ms_namespace (bun_modules b))" by simp
    then show "plain_name (ms_namespace m)" 
      using \<open>list_all plain_name [''Docs'', ''Users'']\<close> unfolding b(2) list_all_iff by blast
  qed
  have path: "cedar_path ''Docs::Doc''" by (rule cedar_path_from_cedar_path) code_simp
  have "{m \<in> set (bun_modules b). namespace_owns (ms_namespace m) ''Docs::Doc''} = {?m}"
    using namespace_owner_unique [OF b(1) names plain path _ _ m owns] m owns by blast
  with b(1) len show ?thesis by blast
qed

text \<open>
  C21: The scan of neighbours is incomplete for names with digits: of any three modules with
  distinct names and resolved imports and the namespaces \<open>a\<close>, \<open>a::b\<close> and
  one that continues \<open>a\<close> with a digit, the last sorts between the two, and the scan
  accepts the modules although \<open>a\<close> owns \<open>a::b\<close>.
\<close>

theorem overlap_scan_incomplete:
  assumes "mset (map ms_namespace modules) = {#a, a @ c # t, a @ ''::'' @ b#}" "digit c"
    and "distinct (map ms_name modules)"
    and "\<forall>m \<in> set modules. set (mm_imports (ms_manifest m)) \<subseteq> ms_namespace ` set modules"
  shows "validate_module_set modules [] = [] \<and> namespace_owns a (a @ ''::'' @ b)"
  using shadowed_accepted [of modules a c t b] assms by (auto simp: namespace_owns_iff)

theorem overlap_scan_incomplete_witness:
  "validate_module_set shadowed_modules [] = [] \<and> namespace_owns ''A'' ''A::B''"
  using overlap_scan_incomplete [of shadowed_modules "''A''" "CHR ''1''" "[]" "''B''"]
  by (simp add: shadowed_modules_def module_at_def digit_def)

text \<open>
  C22: A policy passes the ownership check exactly if it has a structured form and is global, or
  constrains its actions to ones the module owns and mentions, anywhere in its scope or conditions,
  only entity types of the module or its imports.
\<close>

theorem policy_ownership:
  "validate_policy_ownership p pid m [] = [] \<longleftrightarrow>
     (\<exists>body. p_pst p = Inr body \<and>
        (case mr_role m of Global \<Rightarrow> True
         | Ordinary \<Rightarrow>
             pb_action body \<noteq> ActionAny \<and>
             set (action_references (pb_action body)) \<subseteq> {ty. namespace_owns (mr_namespace m) ty} \<and>
             mentions body \<subseteq> {ty. \<exists>root \<in> insert (mr_namespace m) (set (mr_imports m)). namespace_owns root ty}))"
  by (cases "mr_role m") (auto simp: validate_policy_ownership_Nil_iff policy_ok_def may_mention_def)

text \<open>
  C23: Checking the policies of a file appends the declared ids to the module's, adds them to the
  bundle's set, and reports no new error exactly if all policies are static, the ids are new and
  distinct, and each policy has an id and passes the ownership check.
\<close>

theorem module_policies_checked:
  "fst (validate_module_policies ps m path (mids, ids, ds)) = mids @ declared_ids (ps_policies ps) \<and>
   fst (snd (validate_module_policies ps m path (mids, ids, ds))) = fold bs_add (declared_ids (ps_policies ps)) ids \<and>
   (\<not> has_error (snd (snd (validate_module_policies ps m path (mids, ids, ds)))) \<longleftrightarrow>
      \<not> has_error ds \<and> \<not> not_static ps \<and> distinct (declared_ids (ps_policies ps)) \<and>
      set (declared_ids (ps_policies ps)) \<inter> set ids = {} \<and>
      set (ps_policies ps) \<subseteq> {p. non_empty_id p \<noteq> None \<and> policy_ok m p})"
proof -
  obtain a b c where r: "validate_module_policies ps m path (mids, ids, ds) = (a, b, c)" by (rule prod_cases3)
  have e: "set (ps_policies ps) \<subseteq> {p. non_empty_id p \<noteq> None \<and> policy_ok m p} \<longleftrightarrow>
      (\<forall>p \<in> set (ps_policies ps). non_empty_id p \<noteq> None \<and> policy_ok m p)"
    unfolding subset_eq mem_Collect_eq ..
  show ?thesis
    by (simp only: e r fst_conv snd_conv validate_module_policies_spec [OF r] policies_ok_def
        de_Morgan_disj not_not simp_thms)
qed

text \<open>
  C24: Merging a schema fragment keeps the shape of a schema, reports nothing exactly if the two
  declare disjoint names and agree on other fields, and looks up as the union, where the fragment's
  declarations and the first metadata win.
\<close>

theorem schema_merge:
  assumes "schema_shaped T" "schema_shaped F"
  shows "schema_shaped (fst (merge_schema_fragment T F name path ds)) \<and>
    (\<exists>new. snd (merge_schema_fragment T F name path ds) = ds @ new \<and> (new = [] \<longleftrightarrow> compatible T F)) \<and>
    (is_section f \<longrightarrow> declaration_of (fst (merge_schema_fragment T F name path ds)) ns f nm =
       (case declaration_of F ns f nm of None \<Rightarrow> declaration_of T ns f nm | Some d \<Rightarrow> Some d)) \<and>
    (\<not> is_section f \<longrightarrow> field_of (fst (merge_schema_fragment T F name path ds)) ns f =
       (case field_of T ns f of None \<Rightarrow> field_of F ns f | Some a \<Rightarrow> Some a))"
proof -
  obtain R ds' where r: "merge_schema_fragment T F name path ds = (R, ds')" by fastforce
  note s = merge_schema_fragment_spec [OF assms r]
  show ?thesis unfolding r fst_conv snd_conv using s(1,2,3,5) by blast
qed

theorem schema_merge_witness:
  "declaration_of (fst (merge_schema_fragment (JObject []) sample_schema_json ''docs'' ''schema.json'' []))
     ''Docs'' ''commonTypes'' ''Shape'' =
   declaration_of sample_schema_json ''Docs'' ''commonTypes'' ''Shape''"
proof -
  have "schema_shaped (JObject [])" by (simp add: object_of_def)
  from schema_merge [OF this sample_schema_shaped, of "''docs''" "''schema.json''" "[]" "''commonTypes''" "''Docs''" "''Shape''"]
  show ?thesis
    by (simp add: is_section_def declaration_of_def split: option.splits)
qed

section \<open>Labels\<close>

text \<open>
  C25: A label document is accepted exactly if it is within the limits, each rule is well formed and
  compiles, and the destinations are distinct; the rules are then determined by the document.  It is
  refused only with a non-empty list of errors.
\<close>

theorem label_document_accepted:
  "(from_raw E raw = Inr rules \<longleftrightarrow>
      limits_ok (map rr_patterns raw) \<and> list_all2 (rule_of E) raw rules \<and> distinct (map raw_target raw)) \<and>
   (\<forall>e. from_json_str E document = Inl e \<longrightarrow> (\<exists>ds. e = Validation ds \<and> ds \<noteq> [] \<and> all_errors ds))"
  using from_raw_Inr_iff from_json_str_Inl by blast

theorem label_document_accepted_witness:
  "\<exists>e ds. from_json_str (ce_labels sample_compile) ''[[], 7'' = Inl e \<and> e = Validation ds \<and> ds \<noteq> [] \<and> all_errors ds"
proof -
  have "case from_json_str (ce_labels sample_compile) ''[[], 7'' of Inl e \<Rightarrow> True | Inr _ \<Rightarrow> False" by code_simp
  then obtain e where "from_json_str (ce_labels sample_compile) ''[[], 7'' = Inl e" by (auto split: sum.splits)
  with label_document_accepted [of "ce_labels sample_compile" "[]" "[]" "''[[], 7''"] show ?thesis by blast
qed

text \<open>
  C26: The limits on label documents, checked with saturating sums, are the limits on the true sums:
  at most 256 rules, 4096 patterns and 1 MiB of expressions.
\<close>

theorem label_limits:
  "(validate_document_limits raw = Inr () \<longleftrightarrow>
      length raw \<le> 256 \<and> sum_list (map (length \<circ> rr_patterns) raw) \<le> 4096 \<and>
      sum_list (map (length \<circ> lp_regex) (concat (map rr_patterns raw))) \<le> 1048576) \<and>
   (validate_combined_limits rules = Inr () \<longleftrightarrow>
      length rules \<le> 256 \<and> sum_list (map (length \<circ> lr_patterns) rules) \<le> 4096 \<and>
      sum_list (map (length \<circ> lp_regex) (concat (map lr_patterns rules))) \<le> 1048576)"
  by (simp add: validate_document_limits_def validate_combined_limits_def check_limits_Inr_iff limits_ok_def comp_def)

text \<open>
  C27: Individual expressions and the expression set derive the same labels, the names of the
  matching patterns in document order, and never panic.
\<close>

theorem label_backends_agree:
  assumes "regex_documented R lang" "core_documented L"
    and "compile_patterns R ps = Inr c" "runtime_labeler L t field ps c = Inr lb"
  shows "lb_derive lb r =
    Value (case res_attributes r field of
             Some (AString v) \<Rightarrow> Some (ASet (map (AString \<circ> lp_name) (filter (\<lambda>p. lang (lp_regex p) v) ps)))
           | _ \<Rightarrow> None)"
  using runtime_derive [OF assms, of r] unfolding derived_def labels_for_def
  by (simp split: option.split attr_value.split)

theorem label_backends_agree_witness:
  "\<exists>c lb. compile_patterns sample_regex (map (\<lambda>s. \<lparr>lp_name = s @ s, lp_regex = s\<rparr>) [''a'', ''b'', ''c'', ''d'', ''e'']) = Inr c \<and>
     runtime_labeler sample_core \<lparr>lt_resource_type = ''Doc'', lt_attribute = ''labels''\<rparr> ''title''
       (map (\<lambda>s. \<lparr>lp_name = s @ s, lp_regex = s\<rparr>) [''a'', ''b'', ''c'', ''d'', ''e'']) c = Inr lb \<and>
     lb_derive lb \<lparr>res_attributes = [''title'' \<mapsto> AString ''d'']\<rparr> = Value (Some (ASet [AString ''dd'']))"
proof -
  let ?ps = "map (\<lambda>s. \<lparr>lp_name = s @ s, lp_regex = s\<rparr>) [''a'', ''b'', ''c'', ''d'', ''e'']"
  let ?t = "\<lparr>lt_resource_type = ''Doc'', lt_attribute = ''labels''\<rparr>"
  obtain c where c: "compile_patterns sample_regex ?ps = Inr c" "\<exists>m. c = Set m"
    by (simp add: compile_patterns_def INDIVIDUAL_REGEX_THRESHOLD_def sample_regex_def)
  then obtain lb where lb: "runtime_labeler sample_core ?t ''title'' ?ps c = Inr lb"
    by (auto simp: runtime_labeler_def)
  from label_backends_agree [OF sample_regex_documented sample_core_documented c(1) lb,
      of "\<lparr>res_attributes = [''title'' \<mapsto> AString ''d'']\<rparr>"]
  have "lb_derive lb \<lparr>res_attributes = [''title'' \<mapsto> AString ''d'']\<rparr> = Value (Some (ASet [AString ''dd'']))"
    by (simp add: sample_lang_def)
  with c(1) lb show ?thesis by blast
qed

text \<open>
  C28: A label set that is printed canonically reads back as itself.
\<close>

theorem label_documents_round_trip:
  assumes "json_documented (le_json E)" "core_documented (le_core E)"
    and "printable (label_set_to_json (le_core E) rules)"
    and "canonical_json_bytes (le_json E) (label_set_to_json (le_core E) rules) = Inr b"
    and "label_set_ok E rules"
  shows "from_json_str E b = Inr rules"
  using assms by (rule label_set_round_trip)

theorem label_documents_round_trip_witness:
  "\<exists>b. canonical_json_bytes sample_json (label_set_to_json sample_core [sample_rule]) = Inr b \<and>
     from_json_str (ce_labels sample_compile) b = Inr [sample_rule]"
proof -
  have doc: "labels_document sample_archive sample_parts = label_set_to_json sample_core [sample_rule]"
    by (simp add: sample_parts_def)
  have ok: "label_set_ok (ce_labels sample_compile) [sample_rule]"
    using sample_parts_valid by (simp add: parts_valid_def sample_parts_def)
  from sample_canonical obtain b where
    b: "canonical_json_bytes sample_json (label_set_to_json sample_core [sample_rule]) = Inr b" by blast
  have "from_json_str (ce_labels sample_compile) b = Inr [sample_rule]"
    by (rule label_documents_round_trip [OF _ _ _ _ ok])
      (simp_all add: sample_json_documented sample_core_documented b sample_printable(3) [unfolded doc])
  with b show ?thesis by blast
qed

text \<open>
  C29: The search for the attributes of a record shape, which follows named types and stops when it
  would visit one twice, finds exactly what the shape denotes; a cycle denotes nothing.
\<close>

theorem record_shapes_resolved:
  assumes "distinct_names S"
  shows "record_attributes S namespace shape {} = Some m \<longleftrightarrow> denotes S namespace shape m"
  using assms by (rule record_attributes_iff)

theorem record_shapes_resolved_witness:
  "\<not> (\<exists>m. denotes cyclic_schema ''N'' (JObject [(''type'', JString ''EntityOrCommon''), (''name'', JString ''T'')]) m)"
proof -
  have "record_attributes cyclic_schema ''N'' (JObject [(''type'', JString ''EntityOrCommon''), (''name'', JString ''T'')]) {} = None"
    by code_simp
  then show ?thesis unfolding record_shapes_resolved [OF cyclic_names, symmetric] by simp
qed

section \<open>Canonical forms and documents\<close>

text \<open>
  C30: The canonical form of a JSON value has strictly increasing keys in every object and is its
  own canonical form; two values without floating-point numbers are equal, as
  \<open>serde_json\<close> compares them, exactly if their canonical forms are identical.
\<close>

theorem canonical_form_decides_equality:
  "keys_sorted (sort_json a) \<and> sort_json (sort_json a) = sort_json a \<and>
   (json_wf a \<longrightarrow> json_wf b \<longrightarrow> float_free a \<longrightarrow> (json_eq a b \<longleftrightarrow> sort_json a = sort_json b))"
  by (simp add: keys_sorted_sort_json sort_json_idem json_eq_iff_sort)

theorem canonical_form_decides_equality_witness:
  "sort_json (JObject [(''x'', JNull), (''a'', JBool True)]) = sort_json (JObject [(''a'', JBool True), (''x'', JNull)])"
proof -
  have "json_eq (JObject [(''x'', JNull), (''a'', JBool True)]) (JObject [(''a'', JBool True), (''x'', JNull)])"
    by code_simp
  with canonical_form_decides_equality [of "JObject [(''x'', JNull), (''a'', JBool True)]"
    "JObject [(''a'', JBool True), (''x'', JNull)]"]
  show ?thesis by simp
qed

text \<open>
  C31: An archive that is encoded decodes to the documents it was made of, under all limits on the
  compressed and the uncompressed size that it keeps.
\<close>

theorem archive_round_trip:
  assumes "codec_documented K"
    and "encode_archive K (da_manifest d) (da_signature d) (artifact_entries d) = Inr b"
    and "length b \<le> unat (al_max_compressed_bytes limits)"
    and "length (gz_output (cx_gunzip K b)) \<le> unat (al_max_uncompressed_bytes limits)"
    and "unat (al_max_uncompressed_bytes limits) < 2 ^ 64 - 1"
  shows "decode_archive K b limits = Inr d"
  using encode_decoded_from [OF assms(1,2), of limits] assms(3-5)
  by (simp add: within_limits_def decode_archive_Inr_iff)

theorem archive_round_trip_witness:
  "\<exists>b. encode_archive sample_codec ''{}'' None [(POLICIES_PATH, ''permit''), (LABELS_PATH, ''[]'')] = Inr b \<and>
     decode_archive sample_codec b archive_limits_default =
       Inr \<lparr>da_manifest = ''{}'', da_signature = None, da_policies = ''permit'', da_schema = None, da_labels = ''[]''\<rparr>"
proof -
  let ?d = "\<lparr>da_manifest = ''{}'', da_signature = None, da_policies = ''permit'', da_schema = None, da_labels = ''[]''\<rparr>"
  have es: "artifact_entries ?d = [(POLICIES_PATH, ''permit''), (LABELS_PATH, ''[]'')]"
    by (simp add: artifact_entries_def)
  have "\<forall>(p, c) \<in> set (archive_entries ?d). length p \<le> 20 \<and> length c \<le> 10000"
    by (simp add: archive_entries_def es MANIFEST_PATH_def POLICIES_PATH_def LABELS_PATH_def)
  from sample_encode [OF this] obtain b where
    b: "encode_archive sample_codec ''{}'' None (artifact_entries ?d) = Inr b" "length b \<le> 200000"
    by auto
  have "decode_archive sample_codec b archive_limits_default = Inr ?d"
    by (rule archive_round_trip [OF sample_codec_documented])
      (use b sample_within_limits [of b] in \<open>simp_all add: within_limits_def\<close>)
  with b(1) show ?thesis unfolding es by blast
qed

text \<open>
  C32: An archive decodes exactly if it is within the limits, is one gzip member without trailing
  bytes, and holds the expected regular files in their fixed order under single-component names.
\<close>

theorem decoded_archives: "decode_archive K bytes limits = Inr d \<longleftrightarrow> decoded_from K bytes limits d"
  by (rule decode_archive_Inr_iff)

text \<open>
  C33: An archive manifest is accepted exactly if it has the format version and generator of this
  program, valid and sorted module records with resolved imports, disjoint neighbouring namespaces
  and policy ids that partition over the modules.
\<close>

theorem manifests_accepted: "validate_manifest C m = Inr () \<longleftrightarrow> manifest_ok C m"
  by (rule validate_manifest_Inr_iff)

text \<open>
  C34: The manifest and the signature document that were printed canonically decode to the same
  records.
\<close>

theorem manifest_json_round_trip:
  "decode_manifest (sort_json (manifest_to_json m)) = Some m \<and>
   decode_signature (sort_json (signature_to_json s)) = Some s"
  by (simp add: decode_manifest_sorted decode_signature_sorted)

section \<open>Keys and limits\<close>

text \<open>
  C35: Keys are refused as a trust store only if two of them have the same id and different bytes;
  otherwise the store holds each key under its own id and nothing else, its length is the number of
  distinct ids, and it holds no weak key.
\<close>

theorem trust_store_from_keys:
  assumes "\<forall>k \<in> set keys. trusted_key_ok X k"
  shows "case from_keys keys of
      Inl _ \<Rightarrow> \<exists>a \<in> set keys. \<exists>b \<in> set keys. tk_key_id a = tk_key_id b \<and> tk_key a \<noteq> tk_key b
    | Inr store \<Rightarrow> trust_ok X store \<and> trust_len store = card (trusted_key_id ` set keys) \<and>
        (\<forall>k \<in> set keys. trusted_bytes store (tk_key_id k) = Some (tk_key k)) \<and>
        (\<forall>i b. trusted_bytes store i = Some b \<longrightarrow> (\<exists>k \<in> set keys. tk_key_id k = i \<and> tk_key k = b))"
proof (cases "from_keys keys")
  case (Inl e)
  then have "\<not> (\<exists>store. from_keys keys = Inr store)" by simp
  with Inl show ?thesis unfolding from_keys_Inr_iff by simp
next
  case (Inr store)
  with from_keys_ok [OF Inr assms] from_keys_len [OF Inr] show ?thesis by simp
qed

theorem trust_store_from_keys_witness: "trust_ok sample_crypto sample_store \<and> trust_len sample_store = 1"
  using trust_store_from_keys [of "[\<lparr>tk_key_id = key_id sample_crypto ''k'', tk_key = ''k''\<rparr>]" sample_crypto]
    sample_store_ok(2,3) by simp

text \<open>
  C36: A private key that is read came from a regular file with no permission for group or others
  and of at most 1 MiB, and is the whole contents of the file.
\<close>

theorem private_key_file:
  assumes "read_private_key open path = Inr pem"
  shows "\<exists>fl metadata. open path = Inr (fl :: open_file) \<and> of_metadata fl = Inr (metadata :: metadata) \<and>
    md_is_file metadata \<and> (\<forall>i < 6. \<not> bit (md_mode metadata) i) \<and> of_contents fl = Inr pem \<and>
    length pem \<le> 1048576 \<and> utf8_valid pem"
  using assms by (rule read_private_key_Inr)

theorem private_key_file_witness:
  "read_private_key (ci_open sample_cli) ''/org/key.pem'' = Inr ''k'' \<and> length ''k'' \<le> 1048576 \<and> utf8_valid ''k''"
proof -
  have r: "read_private_key (ci_open sample_cli) ''/org/key.pem'' = Inr ''k''" by code_simp
  from private_key_file [OF r] have "length ''k'' \<le> 1048576 \<and> utf8_valid ''k''" by blast
  with r show ?thesis by blast
qed

text \<open>
  C37: Archive limits are accepted exactly if both are positive and one more than each fits the
  machine word.
\<close>

theorem archive_limits_checked:
  "archive_limits_new c u = Inr l \<longleftrightarrow>
     0 < c \<and> 0 < u \<and> unat c + 1 < 2 ^ 64 \<and> unat u + 1 < 2 ^ 64 \<and>
     l = \<lparr>al_max_compressed_bytes = c, al_max_uncompressed_bytes = u\<rparr>"
proof
  assume l: "archive_limits_new c u = Inr l"
  with archive_limits_new_Inr_iff(2) [OF l] archive_limits_new_Inr_iff(1) [of c u]
  show "0 < c \<and> 0 < u \<and> unat c + 1 < 2 ^ 64 \<and> unat u + 1 < 2 ^ 64 \<and>
      l = \<lparr>al_max_compressed_bytes = c, al_max_uncompressed_bytes = u\<rparr>"
    by (cases l) (auto simp: word_neq_0_conv)
next
  assume r: "0 < c \<and> 0 < u \<and> unat c + 1 < 2 ^ 64 \<and> unat u + 1 < 2 ^ 64 \<and>
      l = \<lparr>al_max_compressed_bytes = c, al_max_uncompressed_bytes = u\<rparr>"
  then obtain l' where l': "archive_limits_new c u = Inr l'"
    using archive_limits_new_Inr_iff(1) [of c u] by (auto simp: word_neq_0_conv)
  with archive_limits_new_Inr_iff(2) [OF l'] r show "archive_limits_new c u = Inr l" by (cases l') simp
qed

text \<open>
  C38: Reading an archive returns the whole contents of a regular file, and never more bytes than
  the limit.
\<close>

theorem archive_read_bounded:
  assumes "archive_read open path limit = Inr b"
  shows "length b \<le> unat limit \<and> (\<exists>fl. open path = Inr (fl :: open_file) \<and> of_contents fl = Inr b \<and>
    (\<exists>m. of_metadata fl = Inr (m :: metadata) \<and> md_is_file m))"
  using assms by (rule archive_read_Inr)

theorem archive_read_bounded_witness:
  "archive_read (ci_open sample_cli) ''/org/docs/schema.json'' 10 = Inr ''{}'' \<and> length ''{}'' \<le> unat (10 :: 64 word)"
proof -
  have r: "archive_read (ci_open sample_cli) ''/org/docs/schema.json'' 10 = Inr ''{}''" by code_simp
  from archive_read_bounded [OF r] r show ?thesis by blast
qed

section \<open>Engines\<close>

text \<open>
  C39: An engine prepared from a bundle enforces a schema exactly if the bundle has one, with or
  without policy stores and labels.
\<close>

theorem engine_mode:
  assumes "prepare_engine_with_layout E K M b layout = Inr p"
  shows "is_enforcing p \<longleftrightarrow> vb_schema_json b \<noteq> None"
  using assms by (rule prepare_engine_mode)

theorem engine_mode_witness:
  "\<exists>p. prepare_engine_with_policy_stores sample_archive sample_engine (sample_ops, sample_ops) sample_validated = Inr p \<and>
     is_enforcing p"
proof -
  obtain labels where l: "labels_json sample_archive sample_validated = Inr labels"
  proof -
    have "printable (label_set_to_json sample_core [sample_rule])"
      using sample_printable(3) by (simp add: sample_parts_def)
    then have "utf8_valid (put_json (sort_json (label_set_to_json sample_core [sample_rule])) @ [LF])"
      using canonical_read_back(2) [OF sample_json_documented _ sample_canonical] by blast
    with that show thesis
      by (simp add: labels_json_def sample_defs sample_canonical sample_validated_def bytes_to_string_def ensure_def and_then_def)
  qed
  have "prepare_engine_with_layout sample_archive sample_engine (sample_ops, sample_ops) sample_validated (Some [''docs'']) =
      Inr (SchemaEnforcing (vb_policies sample_validated))"
    using l by (simp add: prepare_engine_with_layout_def sample_validated_def sample_engine_def sample_cedar_def
        sample_ops_def with_label_registry_def to_labelers_def)
  moreover from this have "prepare_engine_with_policy_stores sample_archive sample_engine (sample_ops, sample_ops)
      sample_validated = Inr (SchemaEnforcing (vb_policies sample_validated))"
    by (simp add: prepare_engine_with_policy_stores_def sample_validated_def sample_engine_def sample_record_def)
  ultimately show ?thesis using engine_mode by (fastforce simp: sample_validated_def)
qed


end
